theory Spec2Isabelle
  imports Complex_Main
begin

section \<open>Data model\<close>

text \<open>
  The kernel \<^verbatim>\<open>mmaSyncLds\<close> is a template over the block shape, the element types and
  the four storage layouts. The template parameters that matter for control flow and
  addressing are collected in a record. Element values are taken from one exact
  arithmetic type \<open>'a\<close> (the casts between InputT, ComputeT and OutputT are then the
  identity); buffers are memories indexed by element offset from their base pointer,
  and the four buffers a, b, c, d are distinct allocations. All sizes and offsets are
  natural numbers, that is, they are assumed to stay below the 32-bit range of the
  source's \<^verbatim>\<open>uint32_t\<close>.
\<close>

datatype layout = row_major | col_major

type_synonym coord = "nat \<times> nat"
type_synonym 'a mem = "nat \<Rightarrow> 'a"
type_synonym 'a fragment = "'a list"

text \<open>
  Template parameters. \<open>AMDGCN_WAVE_SIZE\<close> and the four \<^verbatim>\<open>size()\<close> constants
  of the fragment types are declared in headers that are not part of the sources at
  hand, so they are parameters of the configuration.
\<close>

record config =
  BlockM :: nat
  BlockN :: nat
  BlockK :: nat
  LayoutA :: layout
  LayoutB :: layout
  LayoutC :: layout
  LayoutD :: layout
  AMDGCN_WAVE_SIZE :: nat
  FragA_size :: nat
  FragB_size :: nat
  FragLdsA_size :: nat
  FragLdsB_size :: nat

text \<open>
  The position of one wave in the launch: the workgroup's position in the grid, the
  wave's position in its workgroup, and the workgroup's extent in waves.
\<close>

record wave =
  blockIdx :: coord
  waveCoord :: coord
  workgroupDim :: coord

section \<open>Coordinate mapper\<close>

text \<open>
  Modelled from the spec: \<^verbatim>\<open>MappingUtil\<close> (header MappingUtil.h is missing).
  Section 4.1 of the specification gives \<open>blockCoord\<close> as the grid position plus the wave
  coordinate, \<open>matrixCoord\<close> as the block coordinate scaled by the block shape, and
  \<open>dataCoord\<close> as the base pointer plus the layout-aware linear offset. \<open>dataOffset\<close>
  takes its delta in elements, which is how the kernel calls it.
\<close>

definition blockCoord :: "wave \<Rightarrow> coord" where
  "blockCoord w =
     (fst (blockIdx w) * fst (workgroupDim w) + fst (waveCoord w),
      snd (blockIdx w) * snd (workgroupDim w) + snd (waveCoord w))"

definition matrixCoord :: "nat \<Rightarrow> nat \<Rightarrow> coord \<Rightarrow> coord" where
  "matrixCoord BlockRows BlockCols bc = (fst bc * BlockRows, snd bc * BlockCols)"

fun dataOffset :: "layout \<Rightarrow> nat \<Rightarrow> coord \<Rightarrow> nat" where
  "dataOffset row_major ld (r, c) = r * ld + c"
| "dataOffset col_major ld (r, c) = c * ld + r"

definition dataCoord :: "layout \<Rightarrow> nat \<Rightarrow> nat \<Rightarrow> coord \<Rightarrow> nat" where
  "dataCoord L base ld rc = base + dataOffset L ld rc"

section \<open>Fragments\<close>

text \<open>
  Modelled from the spec: the fragment operations of WMMA.h (missing). A fragment is
  the wave's whole register tile, flattened in row-major order of the tile's
  coordinates; a load reads the \<open>rows \<times> cols\<close> tile found at an address under a leading
  dimension and a layout, a store writes it back, and the multiply-accumulate adds the
  product of a \<open>M \<times> K\<close> and a \<open>K \<times> N\<close> tile to the accumulator. The register-file
  reinterpretation of a fragment is the same list read as a tile of
  \<open>size() \<times> AMDGCN_WAVE_SIZE\<close> elements.
\<close>

definition tile_addr :: "nat \<Rightarrow> layout \<Rightarrow> nat \<Rightarrow> nat \<Rightarrow> nat \<Rightarrow> nat" where
  "tile_addr cols L addr ld i = addr + dataOffset L ld (i div cols, i mod cols)"

definition fill_fragment :: "nat \<Rightarrow> 'a \<Rightarrow> 'a fragment" where
  "fill_fragment num_elements v = replicate num_elements v"

definition load_matrix_sync ::
  "nat \<Rightarrow> nat \<Rightarrow> layout \<Rightarrow> 'a mem \<Rightarrow> nat \<Rightarrow> nat \<Rightarrow> 'a fragment" where
  "load_matrix_sync rows cols L mem addr ld =
     map (\<lambda>i. mem (tile_addr cols L addr ld i)) [0..<rows * cols]"

definition store_matrix_sync ::
  "nat \<Rightarrow> nat \<Rightarrow> layout \<Rightarrow> 'a mem \<Rightarrow> nat \<Rightarrow> 'a fragment \<Rightarrow> nat \<Rightarrow> 'a mem" where
  "store_matrix_sync rows cols L mem addr frag ld =
     fold (\<lambda>i mm. mm(tile_addr cols L addr ld i := frag ! i)) [0..<rows * cols] mem"

definition mma_sync ::
  "nat \<Rightarrow> nat \<Rightarrow> nat \<Rightarrow> ('a::semiring_0) fragment \<Rightarrow> 'a fragment \<Rightarrow> 'a fragment
     \<Rightarrow> 'a fragment" where
  "mma_sync M N K fa fb acc =
     map (\<lambda>i. acc ! i + (\<Sum>h\<leftarrow>[0..<K]. fa ! ((i div N) * K + h) * fb ! (h * N + i mod N)))
       [0..<M * N]"

section \<open>Build-time checks\<close>

text \<open>
  The four \<^verbatim>\<open>static_assert\<close>s of the kernel, in source order; the result is the
  message of the first one that fails. Instantiating the template yields a kernel only
  when none fails.
\<close>

definition static_asserts :: "config \<Rightarrow> string option" where
  "static_asserts cfg =
     (if FragA_size cfg * 64 \<noteq> BlockM cfg * BlockK cfg then Some ''Elements of A don't match''
      else if FragLdsA_size cfg \<noteq> FragA_size cfg then Some ''A Sizes don't match''
      else if FragB_size cfg * 64 \<noteq> BlockK cfg * BlockN cfg then Some ''Elements don't match''
      else if FragLdsB_size cfg \<noteq> FragB_size cfg then Some ''Sizes don't match''
      else None)"

section \<open>Shared staging buffer geometry\<close>

definition registerFileWidth :: "config \<Rightarrow> nat" where
  "registerFileWidth cfg = AMDGCN_WAVE_SIZE cfg"

definition ldLds :: "config \<Rightarrow> wave \<Rightarrow> nat" where
  "ldLds cfg w = registerFileWidth cfg * snd (workgroupDim w)"

definition baseAddrLdsA :: nat where
  "baseAddrLdsA = 0"

definition baseAddrLdsB :: "config \<Rightarrow> wave \<Rightarrow> nat" where
  "baseAddrLdsB cfg w = baseAddrLdsA + fst (workgroupDim w) * FragLdsA_size cfg * ldLds cfg w"

definition addrLdsA :: "config \<Rightarrow> wave \<Rightarrow> nat" where
  "addrLdsA cfg w =
     dataCoord row_major baseAddrLdsA (ldLds cfg w)
       (matrixCoord (FragA_size cfg) (registerFileWidth cfg) (waveCoord w))"

definition addrLdsB :: "config \<Rightarrow> wave \<Rightarrow> nat" where
  "addrLdsB cfg w =
     dataCoord row_major (baseAddrLdsB cfg w) (ldLds cfg w)
       (matrixCoord (FragB_size cfg) (registerFileWidth cfg) (waveCoord w))"

text \<open>The addresses a wave's staged A (B) fragment occupies, and the two regions.\<close>

definition slotA :: "config \<Rightarrow> wave \<Rightarrow> nat set" where
  "slotA cfg w =
     tile_addr (registerFileWidth cfg) row_major (addrLdsA cfg w) (ldLds cfg w)
       ` {..<FragA_size cfg * registerFileWidth cfg}"

definition slotB :: "config \<Rightarrow> wave \<Rightarrow> nat set" where
  "slotB cfg w =
     tile_addr (registerFileWidth cfg) row_major (addrLdsB cfg w) (ldLds cfg w)
       ` {..<FragB_size cfg * registerFileWidth cfg}"

definition regionA :: "config \<Rightarrow> wave \<Rightarrow> nat set" where
  "regionA cfg w =
     {baseAddrLdsA ..< baseAddrLdsA + fst (workgroupDim w) * FragLdsA_size cfg * ldLds cfg w}"

definition regionB :: "config \<Rightarrow> wave \<Rightarrow> nat set" where
  "regionB cfg w =
     {baseAddrLdsB cfg w ..<
        baseAddrLdsB cfg w + fst (workgroupDim w) * FragLdsB_size cfg * ldLds cfg w}"

definition in_workgroup :: "wave \<Rightarrow> bool" where
  "in_workgroup w \<longleftrightarrow>
     fst (waveCoord w) < fst (workgroupDim w) \<and> snd (waveCoord w) < snd (workgroupDim w)"

section \<open>The kernel, for one wave\<close>

text \<open>
  The state of the software pipeline: the accumulator fragment, the two global
  addresses that walk the reduction dimension, and the shared staging buffer. Three
  ghost counters record how many tile loads of A and B from global memory, how many
  multiply-accumulates and how many loop iterations were issued.
\<close>

record 'a loop_state =
  fragAcc :: "'a fragment"
  addrA :: nat
  addrB :: nat
  lds :: "'a mem"
  ab_loads :: nat
  mma_issued :: nat
  iterations :: nat

definition incrA :: "config \<Rightarrow> nat \<Rightarrow> nat" where
  "incrA cfg lda = dataOffset (LayoutA cfg) lda (0, BlockK cfg)"

definition incrB :: "config \<Rightarrow> nat \<Rightarrow> nat" where
  "incrB cfg ldb = dataOffset (LayoutB cfg) ldb (BlockK cfg, 0)"

definition endA :: "config \<Rightarrow> nat \<Rightarrow> nat \<Rightarrow> coord \<Rightarrow> nat" where
  "endA cfg lda k mc =
     dataCoord (LayoutA cfg) 0 lda (fst mc, 0) + incrA cfg lda * (k div BlockK cfg)"

text \<open>
  Priming (source lines 105 to 145): the first tiles of A and B are loaded from global
  memory, staged through their register-file views, and both addresses advance by one
  block.
\<close>

definition prime ::
  "config \<Rightarrow> wave \<Rightarrow> 'a mem \<Rightarrow> 'a mem \<Rightarrow> nat \<Rightarrow> nat \<Rightarrow> coord \<Rightarrow> 'a fragment \<Rightarrow> 'a mem
     \<Rightarrow> 'a loop_state" where
  "prime cfg w a b lda ldb mc acc shm =
     (let addrA0 = dataCoord (LayoutA cfg) 0 lda (fst mc, 0);
          addrB0 = dataCoord (LayoutB cfg) 0 ldb (0, snd mc);
          fragA = load_matrix_sync (BlockM cfg) (BlockK cfg) (LayoutA cfg) a addrA0 lda;
          fragB = load_matrix_sync (BlockK cfg) (BlockN cfg) (LayoutB cfg) b addrB0 ldb;
          shm1 = store_matrix_sync (FragA_size cfg) (registerFileWidth cfg) row_major shm
                   (addrLdsA cfg w) fragA (ldLds cfg w);
          shm2 = store_matrix_sync (FragB_size cfg) (registerFileWidth cfg) row_major shm1
                   (addrLdsB cfg w) fragB (ldLds cfg w)
      in \<lparr>fragAcc = acc, addrA = addrA0 + incrA cfg lda, addrB = addrB0 + incrB cfg ldb,
          lds = shm2, ab_loads = 2, mma_issued = 0, iterations = 0\<rparr>)"

text \<open>
  One iteration of the steady-state loop (source lines 149 to 169). The workgroup
  barrier at its top does nothing to the state of a single wave.
\<close>

definition loop_body ::
  "config \<Rightarrow> wave \<Rightarrow> ('a::semiring_0) mem \<Rightarrow> 'a mem \<Rightarrow> nat \<Rightarrow> nat \<Rightarrow> 'a loop_state
     \<Rightarrow> 'a loop_state" where
  "loop_body cfg w a b lda ldb s =
     (let fragA = load_matrix_sync (FragA_size cfg) (registerFileWidth cfg) row_major (lds s)
                    (addrLdsA cfg w) (ldLds cfg w);
          fragB = load_matrix_sync (FragB_size cfg) (registerFileWidth cfg) row_major (lds s)
                    (addrLdsB cfg w) (ldLds cfg w);
          fragANext = load_matrix_sync (BlockM cfg) (BlockK cfg) (LayoutA cfg) a (addrA s) lda;
          fragBNext = load_matrix_sync (BlockK cfg) (BlockN cfg) (LayoutB cfg) b (addrB s) ldb;
          acc = mma_sync (BlockM cfg) (BlockN cfg) (BlockK cfg) fragA fragB (fragAcc s);
          shm1 = store_matrix_sync (FragA_size cfg) (registerFileWidth cfg) row_major (lds s)
                   (addrLdsA cfg w) fragANext (ldLds cfg w);
          shm2 = store_matrix_sync (FragB_size cfg) (registerFileWidth cfg) row_major shm1
                   (addrLdsB cfg w) fragBNext (ldLds cfg w)
      in \<lparr>fragAcc = acc, addrA = addrA s + incrA cfg lda, addrB = addrB s + incrB cfg ldb,
          lds = shm2, ab_loads = ab_loads s + 2, mma_issued = mma_issued s + 1,
          iterations = iterations s + 1\<rparr>)"

text \<open>
  The loop \<^verbatim>\<open>while(addrA != endA)\<close>. Addresses only grow, so a loop that steps over
  its end address never returns: that is the value \<open>None\<close>.
\<close>

partial_function (option) steady_state ::
  "nat \<Rightarrow> ('a loop_state \<Rightarrow> 'a loop_state) \<Rightarrow> 'a loop_state \<Rightarrow> 'a loop_state option" where
  "steady_state e body s =
     (if addrA s \<noteq> e then steady_state e body (body s) else Some s)"

text \<open>The drain (source lines 172 to 175): the staged tiles are consumed once more.\<close>

definition drain :: "config \<Rightarrow> wave \<Rightarrow> ('a::semiring_0) loop_state \<Rightarrow> 'a loop_state" where
  "drain cfg w s =
     (let fragA = load_matrix_sync (FragA_size cfg) (registerFileWidth cfg) row_major (lds s)
                    (addrLdsA cfg w) (ldLds cfg w);
          fragB = load_matrix_sync (FragB_size cfg) (registerFileWidth cfg) row_major (lds s)
                    (addrLdsB cfg w) (ldLds cfg w)
      in s\<lparr>fragAcc := mma_sync (BlockM cfg) (BlockN cfg) (BlockK cfg) fragA fragB (fragAcc s),
            mma_issued := mma_issued s + 1\<rparr>)"

text \<open>
  The accumulation phase, entered when alpha is not zero. The quotient
  \<^verbatim>\<open>k / BlockK\<close> is undefined for a zero block depth; the model then gives no result.
\<close>

definition accumulate ::
  "config \<Rightarrow> wave \<Rightarrow> nat \<Rightarrow> ('a::semiring_0) mem \<Rightarrow> 'a mem \<Rightarrow> nat \<Rightarrow> nat \<Rightarrow> coord
     \<Rightarrow> 'a fragment \<Rightarrow> 'a mem \<Rightarrow> 'a loop_state option" where
  "accumulate cfg w k a b lda ldb mc acc shm =
     (if BlockK cfg = 0 then None
      else case steady_state (endA cfg lda k mc) (loop_body cfg w a b lda ldb)
                  (prime cfg w a b lda ldb mc acc shm) of
             None \<Rightarrow> None
           | Some s \<Rightarrow> Some (drain cfg w s))"

text \<open>The pipeline state of a wave that skips the accumulation (alpha is zero).\<close>

definition skip_accumulation :: "'a fragment \<Rightarrow> 'a mem \<Rightarrow> 'a loop_state" where
  "skip_accumulation acc shm =
     \<lparr>fragAcc = acc, addrA = 0, addrB = 0, lds = shm, ab_loads = 0, mma_issued = 0,
      iterations = 0\<rparr>"

text \<open>
  The epilogue (source lines 178 to 207): C is loaded unless beta is zero, every
  element is recombined, and the tile is stored to D.
\<close>

definition recombine ::
  "config \<Rightarrow> ('a::semiring_0) mem \<Rightarrow> nat \<Rightarrow> 'a \<Rightarrow> 'a \<Rightarrow> coord \<Rightarrow> 'a fragment \<Rightarrow> 'a fragment" where
  "recombine cfg c ldc alpha beta mc acc =
     (let fragC0 = fill_fragment (BlockM cfg * BlockN cfg) 0;
          fragC = (if beta \<noteq> 0
                   then load_matrix_sync (BlockM cfg) (BlockN cfg) (LayoutC cfg) c
                          (dataCoord (LayoutC cfg) 0 ldc mc) ldc
                   else fragC0)
      in map (\<lambda>i. alpha * acc ! i + beta * fragC ! i) [0..<BlockM cfg * BlockN cfg])"

definition epilogue ::
  "config \<Rightarrow> ('a::semiring_0) mem \<Rightarrow> 'a mem \<Rightarrow> nat \<Rightarrow> nat \<Rightarrow> 'a \<Rightarrow> 'a \<Rightarrow> coord \<Rightarrow> 'a fragment
     \<Rightarrow> 'a mem" where
  "epilogue cfg c d ldc ldd alpha beta mc acc =
     store_matrix_sync (BlockM cfg) (BlockN cfg) (LayoutD cfg) d
       (dataCoord (LayoutD cfg) 0 ldd mc) (recombine cfg c ldc alpha beta mc acc) ldd"

text \<open>
  What one wave leaves behind: the D buffer, the staging buffer, the accumulator it
  ended with, the ghost counters, and whether it passed the eligibility check.
\<close>

record 'a wave_result =
  out_d :: "'a mem"
  out_lds :: "'a mem"
  out_acc :: "'a fragment"
  n_ab_loads :: nat
  n_mma :: nat
  n_iterations :: nat
  proceeded :: bool

definition eligible :: "config \<Rightarrow> wave \<Rightarrow> nat \<Rightarrow> nat \<Rightarrow> nat \<Rightarrow> bool" where
  "eligible cfg w m n k \<longleftrightarrow>
     fst (matrixCoord (BlockM cfg) (BlockN cfg) (blockCoord w)) < m \<and>
     snd (matrixCoord (BlockM cfg) (BlockN cfg) (blockCoord w)) < n \<and> BlockK cfg < k"

definition mmaSyncLds ::
  "config \<Rightarrow> wave \<Rightarrow> nat \<Rightarrow> nat \<Rightarrow> nat \<Rightarrow> ('a::semiring_0) mem \<Rightarrow> 'a mem \<Rightarrow> 'a mem \<Rightarrow> 'a mem
     \<Rightarrow> nat \<Rightarrow> nat \<Rightarrow> nat \<Rightarrow> nat \<Rightarrow> 'a \<Rightarrow> 'a \<Rightarrow> 'a mem \<Rightarrow> 'a wave_result option" where
  "mmaSyncLds cfg w m n k a b c d lda ldb ldc ldd alpha beta shm =
     (let matrixCoordC = matrixCoord (BlockM cfg) (BlockN cfg) (blockCoord w) in
      if fst matrixCoordC < m \<and> snd matrixCoordC < n \<and> BlockK cfg < k then
        (let fragAcc0 = fill_fragment (BlockM cfg * BlockN cfg) 0 in
         case (if alpha \<noteq> 0 then accumulate cfg w k a b lda ldb matrixCoordC fragAcc0 shm
               else Some (skip_accumulation fragAcc0 shm)) of
           None \<Rightarrow> None
         | Some s \<Rightarrow>
             Some \<lparr>out_d = epilogue cfg c d ldc ldd alpha beta matrixCoordC (fragAcc s),
                   out_lds = lds s, out_acc = fragAcc s, n_ab_loads = ab_loads s,
                   n_mma = mma_issued s, n_iterations = iterations s, proceeded = True\<rparr>)
      else Some \<lparr>out_d = d, out_lds = shm, out_acc = [], n_ab_loads = 0, n_mma = 0,
                 n_iterations = 0, proceeded = False\<rparr>)"

text \<open>
  Instantiating the template: a build error when a static assertion fails, the kernel
  otherwise.
\<close>

definition instantiate ::
  "config \<Rightarrow> string +
     (wave \<Rightarrow> nat \<Rightarrow> nat \<Rightarrow> nat \<Rightarrow> ('a::semiring_0) mem \<Rightarrow> 'a mem \<Rightarrow> 'a mem \<Rightarrow> 'a mem
        \<Rightarrow> nat \<Rightarrow> nat \<Rightarrow> nat \<Rightarrow> nat \<Rightarrow> 'a \<Rightarrow> 'a \<Rightarrow> 'a mem \<Rightarrow> 'a wave_result option)" where
  "instantiate cfg =
     (case static_asserts cfg of Some msg \<Rightarrow> Inl msg | None \<Rightarrow> Inr (mmaSyncLds cfg))"

section \<open>The launch\<close>

text \<open>
  A launch runs the kernel for every wave of every workgroup of the grid. The waves
  are run one after the other; each workgroup starts from its own staging buffer,
  whose initial content \<open>shm0\<close> is arbitrary.
\<close>

definition workgroup_waves :: "coord \<Rightarrow> coord \<Rightarrow> wave list" where
  "workgroup_waves wgDim bid =
     concat (map (\<lambda>wx. map (\<lambda>wy. \<lparr>blockIdx = bid, waveCoord = (wx, wy), workgroupDim = wgDim\<rparr>)
                          [0..<snd wgDim]) [0..<fst wgDim])"

definition grid_blocks :: "coord \<Rightarrow> coord list" where
  "grid_blocks gridDim =
     concat (map (\<lambda>bx. map (\<lambda>by. (bx, by)) [0..<snd gridDim]) [0..<fst gridDim])"

fun run_waves ::
  "config \<Rightarrow> nat \<Rightarrow> nat \<Rightarrow> nat \<Rightarrow> ('a::semiring_0) mem \<Rightarrow> 'a mem \<Rightarrow> 'a mem
     \<Rightarrow> nat \<Rightarrow> nat \<Rightarrow> nat \<Rightarrow> nat \<Rightarrow> 'a \<Rightarrow> 'a \<Rightarrow> wave list \<Rightarrow> 'a mem \<Rightarrow> 'a mem
     \<Rightarrow> ('a mem \<times> 'a mem) option" where
  "run_waves cfg m n k a b c lda ldb ldc ldd alpha beta [] shm d = Some (shm, d)"
| "run_waves cfg m n k a b c lda ldb ldc ldd alpha beta (w # ws) shm d =
     (case mmaSyncLds cfg w m n k a b c d lda ldb ldc ldd alpha beta shm of
        None \<Rightarrow> None
      | Some r \<Rightarrow> run_waves cfg m n k a b c lda ldb ldc ldd alpha beta ws (out_lds r) (out_d r))"

fun run_workgroups ::
  "config \<Rightarrow> coord \<Rightarrow> nat \<Rightarrow> nat \<Rightarrow> nat \<Rightarrow> ('a::semiring_0) mem \<Rightarrow> 'a mem \<Rightarrow> 'a mem
     \<Rightarrow> nat \<Rightarrow> nat \<Rightarrow> nat \<Rightarrow> nat \<Rightarrow> 'a \<Rightarrow> 'a \<Rightarrow> 'a mem \<Rightarrow> coord list \<Rightarrow> 'a mem
     \<Rightarrow> 'a mem option" where
  "run_workgroups cfg wgDim m n k a b c lda ldb ldc ldd alpha beta shm0 [] d = Some d"
| "run_workgroups cfg wgDim m n k a b c lda ldb ldc ldd alpha beta shm0 (bid # bids) d =
     (case run_waves cfg m n k a b c lda ldb ldc ldd alpha beta
             (workgroup_waves wgDim bid) shm0 d of
        None \<Rightarrow> None
      | Some (shm', d') \<Rightarrow>
          run_workgroups cfg wgDim m n k a b c lda ldb ldc ldd alpha beta shm0 bids d')"

definition launch ::
  "config \<Rightarrow> coord \<Rightarrow> coord \<Rightarrow> nat \<Rightarrow> nat \<Rightarrow> nat \<Rightarrow> ('a::semiring_0) mem \<Rightarrow> 'a mem \<Rightarrow> 'a mem
     \<Rightarrow> 'a mem \<Rightarrow> nat \<Rightarrow> nat \<Rightarrow> nat \<Rightarrow> nat \<Rightarrow> 'a \<Rightarrow> 'a \<Rightarrow> 'a mem \<Rightarrow> 'a mem option" where
  "launch cfg gridDim wgDim m n k a b c d lda ldb ldc ldd alpha beta shm0 =
     run_workgroups cfg wgDim m n k a b c lda ldb ldc ldd alpha beta shm0
       (grid_blocks gridDim) d"

section \<open>The reference GEMM\<close>

text \<open>
  \<^verbatim>\<open>gemm_cpu_h\<close> of samples/common.hpp: three nested loops with the two index
  lambdas \<^verbatim>\<open>rowMjr\<close> and \<^verbatim>\<open>colMjr\<close>.
\<close>

definition rowMjr :: "nat \<Rightarrow> nat \<Rightarrow> nat \<Rightarrow> nat" where
  "rowMjr row col ld = row * ld + col"

definition colMjr :: "nat \<Rightarrow> nat \<Rightarrow> nat \<Rightarrow> nat" where
  "colMjr row col ld = col * ld + row"

definition index_of :: "layout \<Rightarrow> nat \<Rightarrow> nat \<Rightarrow> nat \<Rightarrow> nat" where
  "index_of L = (if L = row_major then rowMjr else colMjr)"

definition gemm_accum ::
  "layout \<Rightarrow> layout \<Rightarrow> nat \<Rightarrow> ('a::semiring_0) mem \<Rightarrow> 'a mem \<Rightarrow> nat \<Rightarrow> nat \<Rightarrow> nat \<Rightarrow> nat \<Rightarrow> 'a" where
  "gemm_accum LA LB k a b lda ldb i j =
     fold (\<lambda>h accum. accum + a (index_of LA i h lda) * b (index_of LB h j ldb)) [0..<k] 0"

definition gemm_cpu_h ::
  "layout \<Rightarrow> layout \<Rightarrow> layout \<Rightarrow> layout \<Rightarrow> nat \<Rightarrow> nat \<Rightarrow> nat \<Rightarrow> ('a::semiring_0) mem \<Rightarrow> 'a mem
     \<Rightarrow> 'a mem \<Rightarrow> 'a mem \<Rightarrow> nat \<Rightarrow> nat \<Rightarrow> nat \<Rightarrow> nat \<Rightarrow> 'a \<Rightarrow> 'a \<Rightarrow> 'a mem" where
  "gemm_cpu_h LA LB LC LD m n k a b c d lda ldb ldc ldd alpha beta =
     fold (\<lambda>i d1.
        fold (\<lambda>j d2.
           d2(index_of LD i j ldd :=
                alpha * gemm_accum LA LB k a b lda ldb i j + beta * c (index_of LC i j ldc)))
          [0..<n] d1)
       [0..<m] d"

section \<open>Specification functions\<close>

text \<open>
  Auxiliary notions the statements below are phrased with: the configurations the
  kernel is built for, the product a tile has accumulated after a number of reduction
  steps, the staging of two fragments, the value of one element of the GEMM, the D
  addresses of a wave's tile, and the leading dimensions under which the elements of a
  tile have distinct addresses.
\<close>

definition supported :: "config \<Rightarrow> wave \<Rightarrow> bool" where
  "supported cfg w \<longleftrightarrow>
     static_asserts cfg = None \<and> AMDGCN_WAVE_SIZE cfg = 64 \<and> in_workgroup w"

definition tile_product ::
  "config \<Rightarrow> ('a::semiring_0) mem \<Rightarrow> 'a mem \<Rightarrow> nat \<Rightarrow> nat \<Rightarrow> coord \<Rightarrow> nat \<Rightarrow> 'a fragment" where
  "tile_product cfg a b lda ldb mc K =
     map (\<lambda>i. \<Sum>h<K. a (dataOffset (LayoutA cfg) lda (fst mc + i div BlockN cfg, h))
                    * b (dataOffset (LayoutB cfg) ldb (h, snd mc + i mod BlockN cfg)))
       [0..<BlockM cfg * BlockN cfg]"

definition stage :: "config \<Rightarrow> wave \<Rightarrow> 'a mem \<Rightarrow> 'a fragment \<Rightarrow> 'a fragment \<Rightarrow> 'a mem" where
  "stage cfg w shm fa fb =
     store_matrix_sync (FragB_size cfg) (registerFileWidth cfg) row_major
       (store_matrix_sync (FragA_size cfg) (registerFileWidth cfg) row_major shm
          (addrLdsA cfg w) fa (ldLds cfg w))
       (addrLdsB cfg w) fb (ldLds cfg w)"

definition stagedA :: "config \<Rightarrow> wave \<Rightarrow> 'a mem \<Rightarrow> 'a fragment" where
  "stagedA cfg w shm =
     load_matrix_sync (FragA_size cfg) (registerFileWidth cfg) row_major shm
       (addrLdsA cfg w) (ldLds cfg w)"

definition stagedB :: "config \<Rightarrow> wave \<Rightarrow> 'a mem \<Rightarrow> 'a fragment" where
  "stagedB cfg w shm =
     load_matrix_sync (FragB_size cfg) (registerFileWidth cfg) row_major shm
       (addrLdsB cfg w) (ldLds cfg w)"

definition gemm_elem ::
  "config \<Rightarrow> ('a::semiring_0) mem \<Rightarrow> 'a mem \<Rightarrow> 'a mem \<Rightarrow> nat \<Rightarrow> nat \<Rightarrow> nat \<Rightarrow> 'a \<Rightarrow> 'a
     \<Rightarrow> nat \<Rightarrow> nat \<Rightarrow> nat \<Rightarrow> 'a" where
  "gemm_elem cfg a b c lda ldb ldc alpha beta K i j =
     alpha * (\<Sum>h<K. a (dataOffset (LayoutA cfg) lda (i, h))
                      * b (dataOffset (LayoutB cfg) ldb (h, j)))
       + beta * c (dataOffset (LayoutC cfg) ldc (i, j))"

definition tile_of :: "config \<Rightarrow> nat \<Rightarrow> wave \<Rightarrow> nat set" where
  "tile_of cfg ldd w =
     tile_addr (BlockN cfg) (LayoutD cfg)
       (dataCoord (LayoutD cfg) 0 ldd (matrixCoord (BlockM cfg) (BlockN cfg) (blockCoord w))) ldd
       ` {..<BlockM cfg * BlockN cfg}"

fun ld_ok :: "layout \<Rightarrow> nat \<Rightarrow> nat \<Rightarrow> nat \<Rightarrow> bool" where
  "ld_ok row_major rows cols ld \<longleftrightarrow> cols \<le> ld"
| "ld_ok col_major rows cols ld \<longleftrightarrow> rows \<le> ld"

definition tile_update ::
  "(nat \<Rightarrow> nat \<Rightarrow> 'a) \<Rightarrow> layout \<Rightarrow> nat \<Rightarrow> nat \<Rightarrow> nat \<Rightarrow> 'a mem \<Rightarrow> 'a mem \<Rightarrow> bool" where
  "tile_update G L ld m n d d' \<longleftrightarrow>
     (\<forall>p. d' p = d p \<or> (\<exists>i<m. \<exists>j<n. p = dataOffset L ld (i, j) \<and> d' p = G i j))"

definition in_bounds_problem :: "config \<Rightarrow> nat \<Rightarrow> nat \<Rightarrow> nat \<Rightarrow> nat \<Rightarrow> nat \<Rightarrow> bool" where
  "in_bounds_problem cfg m n k lda ldd \<longleftrightarrow>
     0 < BlockM cfg \<and> 0 < BlockN cfg \<and> 0 < BlockK cfg \<and>
     BlockM cfg dvd m \<and> BlockN cfg dvd n \<and> BlockK cfg dvd k \<and>
     ld_ok (LayoutD cfg) m n ldd \<and> (LayoutA cfg = col_major \<longrightarrow> 0 < lda)"

definition overwrites :: "('a mem \<Rightarrow> 'a mem) \<Rightarrow> bool" where
  "overwrites F \<longleftrightarrow> (\<exists>W f. \<forall>d. F d = (\<lambda>p. if p \<in> W then f p else d p))"

section \<open>The element-wise comparator\<close>

text \<open>
  The comparator works in double precision. A double is a finite (rational) number, one of the
  two infinities, or a NaN, with the arithmetic of IEEE 754 on the special values;
  finite results are exact (no rounding) and the sign of zero is dropped.
\<close>

datatype dbl = Num rat | PosInf | NegInf | NaN

fun fabs :: "dbl \<Rightarrow> dbl" where
  "fabs (Num x) = Num \<bar>x\<bar>"
| "fabs PosInf = PosInf"
| "fabs NegInf = PosInf"
| "fabs NaN = NaN"

fun dsub :: "dbl \<Rightarrow> dbl \<Rightarrow> dbl" where
  "dsub NaN y = NaN"
| "dsub x NaN = NaN"
| "dsub (Num x) (Num y) = Num (x - y)"
| "dsub (Num x) PosInf = NegInf"
| "dsub (Num x) NegInf = PosInf"
| "dsub PosInf PosInf = NaN"
| "dsub PosInf y = PosInf"
| "dsub NegInf NegInf = NaN"
| "dsub NegInf y = NegInf"

fun dadd :: "dbl \<Rightarrow> dbl \<Rightarrow> dbl" where
  "dadd NaN y = NaN"
| "dadd x NaN = NaN"
| "dadd (Num x) (Num y) = Num (x + y)"
| "dadd PosInf NegInf = NaN"
| "dadd NegInf PosInf = NaN"
| "dadd PosInf y = PosInf"
| "dadd x PosInf = PosInf"
| "dadd NegInf y = NegInf"
| "dadd x NegInf = NegInf"

fun ddiv :: "dbl \<Rightarrow> dbl \<Rightarrow> dbl" where
  "ddiv NaN y = NaN"
| "ddiv x NaN = NaN"
| "ddiv (Num x) (Num y) =
     (if y = 0 then (if x = 0 then NaN else if 0 < x then PosInf else NegInf)
      else Num (x / y))"
| "ddiv (Num x) y = Num 0"
| "ddiv PosInf (Num y) = (if 0 \<le> y then PosInf else NegInf)"
| "ddiv NegInf (Num y) = (if 0 \<le> y then NegInf else PosInf)"
| "ddiv x y = NaN"

fun isinf :: "dbl \<Rightarrow> bool" where
  "isinf PosInf = True"
| "isinf NegInf = True"
| "isinf x = False"

fun isnan :: "dbl \<Rightarrow> bool" where
  "isnan NaN = True"
| "isnan x = False"

fun dgt :: "dbl \<Rightarrow> dbl \<Rightarrow> bool" where
  "dgt NaN y = False"
| "dgt x NaN = False"
| "dgt (Num x) (Num y) = (y < x)"
| "dgt PosInf PosInf = False"
| "dgt PosInf y = True"
| "dgt x PosInf = False"
| "dgt NegInf y = False"
| "dgt x NegInf = True"


fun dmul :: "dbl \<Rightarrow> dbl \<Rightarrow> dbl" where
  "dmul NaN y = NaN"
| "dmul x NaN = NaN"
| "dmul (Num x) (Num y) = Num (x * y)"
| "dmul (Num x) PosInf = (if x = 0 then NaN else if 0 < x then PosInf else NegInf)"
| "dmul (Num x) NegInf = (if x = 0 then NaN else if 0 < x then NegInf else PosInf)"
| "dmul PosInf (Num y) = (if y = 0 then NaN else if 0 < y then PosInf else NegInf)"
| "dmul NegInf (Num y) = (if y = 0 then NaN else if 0 < y then NegInf else PosInf)"
| "dmul PosInf PosInf = PosInf"
| "dmul PosInf NegInf = NegInf"
| "dmul NegInf PosInf = NegInf"
| "dmul NegInf NegInf = PosInf"

text \<open>
  The element type \<^verbatim>\<open>DataT\<close> of \<^verbatim>\<open>compareEqual\<close> is a template parameter. What the
  comparator uses of it: its conversion to \<^verbatim>\<open>float\<close>, and the values of \<^verbatim>\<open>epsilon()\<close>,
  \<^verbatim>\<open>infinity()\<close> and \<^verbatim>\<open>signaling_NaN()\<close> of its \<^verbatim>\<open>numeric_limits\<close>, the last two as the
  doubles they convert to. A float is written as the double of the same value.
\<close>

record 'd data_type =
  to_float :: "'d \<Rightarrow> dbl"
  epsilon :: 'd
  infinity :: dbl
  signaling_NaN :: dbl

text \<open>
  \<^verbatim>\<open>toDouble\<close> (source line 525) converts a value to \<^verbatim>\<open>float\<close> first and the float to
  double; the second step is exact. Whatever the first step loses of a value (the
  precision of a double beyond that of a float, or its range, which ends in an
  infinity) is lost to the comparison.
\<close>

definition toDouble :: "'d data_type \<Rightarrow> 'd \<Rightarrow> dbl" where
  "toDouble dt val = to_float dt val"

text \<open>
  The body of the loop without its last statement (source lines 533 to 557), as one
  step on the shared variables: the flags are set atomically, and the maximum is
  compared and set under the mutex.
\<close>

record cmp_state =
  isInf :: bool
  isNaN :: bool
  max_relative_error :: dbl

definition numerator :: "'d data_type \<Rightarrow> 'd \<Rightarrow> 'd \<Rightarrow> dbl" where
  "numerator dt valA valB = fabs (dsub (toDouble dt valA) (toDouble dt valB))"

definition divisor :: "'d data_type \<Rightarrow> 'd \<Rightarrow> 'd \<Rightarrow> dbl" where
  "divisor dt valA valB = dadd (dadd (fabs (toDouble dt valA)) (fabs (toDouble dt valB))) (Num 1)"

definition relative_error :: "'d data_type \<Rightarrow> 'd \<Rightarrow> 'd \<Rightarrow> dbl" where
  "relative_error dt valA valB = ddiv (numerator dt valA valB) (divisor dt valA valB)"

definition compare_element :: "'d data_type \<Rightarrow> 'd \<Rightarrow> 'd \<Rightarrow> cmp_state \<Rightarrow> cmp_state" where
  "compare_element dt valA valB s =
     (if isinf (numerator dt valA valB) \<or> isinf (divisor dt valA valB) then s\<lparr>isInf := True\<rparr>
      else if isnan (relative_error dt valA valB) then s\<lparr>isNaN := True\<rparr>
      else if dgt (relative_error dt valA valB) (max_relative_error s)
           then s\<lparr>max_relative_error := relative_error dt valA valB\<rparr>
      else s)"

text \<open>
  The loop is an OpenMP \<^verbatim>\<open>parallel for\<close> (source line 531). The iterations are dealt
  out to the threads of a team in chunks; a thread goes through its chunk in order,
  and the iterations of different threads interleave in any order. The last statement
  of the body (lines 559 to 562) reads the two shared flags and, if one is raised, sets
  \<open>i\<close> to \<open>size\<close>, which ends the chunk of the thread that executes it. A team is given
  by the iterations still pending for each thread, a schedule by the order in which
  the threads execute their iterations; a thread reads the shared variables as the
  iterations before its own have left them. One thread with the chunk \<open>[0..<size]\<close> is
  the loop of a build without OpenMP.
\<close>

record par_state =
  pending :: "nat list list"
  shared :: cmp_state

definition thread_step :: "'d data_type \<Rightarrow> 'd mem \<Rightarrow> 'd mem \<Rightarrow> nat \<Rightarrow> par_state \<Rightarrow> par_state" where
  "thread_step dt a b t st =
     (if t < length (pending st) then
        (case pending st ! t of
           [] \<Rightarrow> st
         | i # rest \<Rightarrow>
             (let s = compare_element dt (a i) (b i) (shared st)
              in \<lparr>pending = (pending st)[t := (if isInf s \<or> isNaN s then [] else rest)],
                  shared = s\<rparr>))
      else st)"

definition parallel_for ::
  "'d data_type \<Rightarrow> 'd mem \<Rightarrow> 'd mem \<Rightarrow> nat list list \<Rightarrow> nat list \<Rightarrow> cmp_state \<Rightarrow> par_state" where
  "parallel_for dt a b chunks sched s =
     fold (thread_step dt a b) sched \<lparr>pending = chunks, shared = s\<rparr>"

definition deals_out :: "nat list list \<Rightarrow> nat \<Rightarrow> bool" where
  "deals_out chunks sz \<longleftrightarrow> distinct (concat chunks) \<and> set (concat chunks) = set [0..<sz]"

definition loop_finished :: "par_state \<Rightarrow> bool" where
  "loop_finished st \<longleftrightarrow> list_all (\<lambda>c. c = []) (pending st)"

text \<open>
  \<^verbatim>\<open>compareEqual\<close> of samples/common.hpp (lines 516 to 587). The chunks and the schedule
  stand for what the OpenMP runtime decides; the result is \<open>None\<close> when they are not an
  execution of the loop, that is, unless the chunks deal out every index below \<open>size\<close>
  exactly once and the schedule lets every thread reach the end of its chunk.
\<close>

definition compareEqual ::
  "'d data_type \<Rightarrow> 'd mem \<Rightarrow> 'd mem \<Rightarrow> nat \<Rightarrow> dbl \<Rightarrow> nat list list \<Rightarrow> nat list
     \<Rightarrow> (bool \<times> dbl) option" where
  "compareEqual dt a b sz tolerance chunks sched =
     (let st = parallel_for dt a b chunks sched
                 \<lparr>isInf = False, isNaN = False, max_relative_error = Num 0\<rparr>;
          s = shared st;
          eps = toDouble dt (epsilon dt)
      in if \<not> deals_out chunks sz \<or> \<not> loop_finished st then None
         else if isInf s then Some (False, infinity dt)
         else if isNaN s then Some (False, signaling_NaN dt)
         else if dgt (max_relative_error s) (dmul eps tolerance)
              then Some (False, max_relative_error s)
         else Some (True, max_relative_error s))"






fun is_num :: "dbl \<Rightarrow> bool" where
  "is_num (Num x) = True"
| "is_num x = False"







section \<open>The workgroup and its barrier\<close>

text \<open>
  For the workgroup barrier (source line 152) the kernel of one wave is cut at the loop
  head into segments: from the start to the loop head (eligibility check and priming,
  lines 94 to 145; for a wave that skips the loop, the whole kernel), one loop iteration
  each (lines 147 to 170), and from the loop's exit to the end (drain and epilogue, lines
  172 to 207). A wave's private state lives in its thread; the staging buffer and D are
  shared, so a segment reads the staging buffer as the other waves left it.
\<close>

datatype 'a thread = Ready | AtLoop "'a loop_state" | Finished

definition wave_segment ::
  "config \<Rightarrow> wave \<Rightarrow> nat \<Rightarrow> nat \<Rightarrow> nat \<Rightarrow> ('a::semiring_0) mem \<Rightarrow> 'a mem \<Rightarrow> 'a mem
     \<Rightarrow> nat \<Rightarrow> nat \<Rightarrow> nat \<Rightarrow> nat \<Rightarrow> 'a \<Rightarrow> 'a \<Rightarrow> 'a thread \<Rightarrow> 'a mem \<Rightarrow> 'a mem
     \<Rightarrow> 'a thread \<times> 'a mem \<times> 'a mem" where
  "wave_segment cfg w m n k a b c lda ldb ldc ldd alpha beta t shm d =
     (let matrixCoordC = matrixCoord (BlockM cfg) (BlockN cfg) (blockCoord w);
          fragAcc0 = fill_fragment (BlockM cfg * BlockN cfg) 0
      in case t of
           Ready \<Rightarrow>
             if fst matrixCoordC < m \<and> snd matrixCoordC < n \<and> BlockK cfg < k then
               (if alpha \<noteq> 0
                then (let s = prime cfg w a b lda ldb matrixCoordC fragAcc0 shm
                      in (AtLoop s, lds s, d))
                else (Finished, shm, epilogue cfg c d ldc ldd alpha beta matrixCoordC fragAcc0))
             else (Finished, shm, d)
         | AtLoop s \<Rightarrow>
             if addrA s \<noteq> endA cfg lda k matrixCoordC then
               (let s' = loop_body cfg w a b lda ldb (s\<lparr>lds := shm\<rparr>)
                in (AtLoop s', lds s', d))
             else
               (let s' = drain cfg w (s\<lparr>lds := shm\<rparr>)
                in (Finished, shm, epilogue cfg c d ldc ldd alpha beta matrixCoordC (fragAcc s')))
         | Finished \<Rightarrow> (Finished, shm, d))"

text \<open>
  Modelled from the spec: \<^verbatim>\<open>synchronize_workgroup\<close> (WMMA.h is missing) and the scheduling
  of the waves of a workgroup, which the source leaves to the hardware. Waves are
  suspended at the barrier and nowhere else, so a workgroup is one thread per wave, one
  staging buffer and D, and a schedule is the order in which the waves run their
  segments. With the barrier in place (\<open>sync\<close>), a wave that stands at the loop head with
  another iteration to run may pass only when every wave of the workgroup has finished
  or has run at least as many iterations; without it every step is free. A step of a
  wave that is blocked or has finished changes nothing.
\<close>

record 'a workgroup_state =
  wg_threads :: "'a thread list"
  wg_lds :: "'a mem"
  wg_d :: "'a mem"

fun arrived :: "nat \<Rightarrow> 'a thread \<Rightarrow> bool" where
  "arrived j Ready = False"
| "arrived j (AtLoop s) = (j \<le> iterations s)"
| "arrived j Finished = True"

fun may_pass :: "config \<Rightarrow> nat \<Rightarrow> nat \<Rightarrow> wave \<Rightarrow> 'a thread list \<Rightarrow> 'a thread \<Rightarrow> bool" where
  "may_pass cfg lda k w ts (AtLoop s) =
     (addrA s = endA cfg lda k (matrixCoord (BlockM cfg) (BlockN cfg) (blockCoord w))
      \<or> list_all (arrived (iterations s)) ts)"
| "may_pass cfg lda k w ts t = True"

definition wg_step ::
  "bool \<Rightarrow> config \<Rightarrow> nat \<Rightarrow> nat \<Rightarrow> nat \<Rightarrow> ('a::semiring_0) mem \<Rightarrow> 'a mem \<Rightarrow> 'a mem
     \<Rightarrow> nat \<Rightarrow> nat \<Rightarrow> nat \<Rightarrow> nat \<Rightarrow> 'a \<Rightarrow> 'a \<Rightarrow> wave list \<Rightarrow> nat \<Rightarrow> 'a workgroup_state
     \<Rightarrow> 'a workgroup_state" where
  "wg_step sync cfg m n k a b c lda ldb ldc ldd alpha beta ws i st =
     (if i < length ws \<and> i < length (wg_threads st)
         \<and> (\<not> sync \<or> may_pass cfg lda k (ws ! i) (wg_threads st) (wg_threads st ! i))
      then (case wave_segment cfg (ws ! i) m n k a b c lda ldb ldc ldd alpha beta
                   (wg_threads st ! i) (wg_lds st) (wg_d st) of
              (t', shm', d') \<Rightarrow>
                \<lparr>wg_threads = (wg_threads st)[i := t'], wg_lds = shm', wg_d = d'\<rparr>)
      else st)"

definition run_schedule ::
  "bool \<Rightarrow> config \<Rightarrow> nat \<Rightarrow> nat \<Rightarrow> nat \<Rightarrow> ('a::semiring_0) mem \<Rightarrow> 'a mem \<Rightarrow> 'a mem
     \<Rightarrow> nat \<Rightarrow> nat \<Rightarrow> nat \<Rightarrow> nat \<Rightarrow> 'a \<Rightarrow> 'a \<Rightarrow> wave list \<Rightarrow> nat list \<Rightarrow> 'a mem \<Rightarrow> 'a mem
     \<Rightarrow> 'a workgroup_state" where
  "run_schedule sync cfg m n k a b c lda ldb ldc ldd alpha beta ws sched shm d =
     fold (wg_step sync cfg m n k a b c lda ldb ldc ldd alpha beta ws) sched
       \<lparr>wg_threads = replicate (length ws) Ready, wg_lds = shm, wg_d = d\<rparr>"

definition all_finished :: "'a workgroup_state \<Rightarrow> bool" where
  "all_finished st \<longleftrightarrow> list_all (\<lambda>t. t = Finished) (wg_threads st)"

text \<open>
  The accumulator a wave holds when it reaches the epilogue: the product over all whole
  blocks of K, or the zero fragment when alpha is zero.
\<close>

definition final_acc ::
  "config \<Rightarrow> wave \<Rightarrow> nat \<Rightarrow> ('a::semiring_0) mem \<Rightarrow> 'a mem \<Rightarrow> nat \<Rightarrow> nat \<Rightarrow> 'a \<Rightarrow> 'a fragment" where
  "final_acc cfg w k a b lda ldb alpha =
     (if alpha \<noteq> 0
      then tile_product cfg a b lda ldb (matrixCoord (BlockM cfg) (BlockN cfg) (blockCoord w))
             (k div BlockK cfg * BlockK cfg)
      else fill_fragment (BlockM cfg * BlockN cfg) 0)"

text \<open>
  What holds of a thread that stands at the loop head after \<open>t\<close> iterations: its
  accumulator is the product over the first \<open>t\<close> blocks, its addresses point at block
  \<open>t + 1\<close>, and its two slots of the staging buffer hold block \<open>t\<close> of A and B.
\<close>

definition in_pipeline ::
  "config \<Rightarrow> wave \<Rightarrow> nat \<Rightarrow> nat \<Rightarrow> nat \<Rightarrow> ('a::semiring_0) mem \<Rightarrow> 'a mem \<Rightarrow> nat \<Rightarrow> nat \<Rightarrow> 'a
     \<Rightarrow> 'a thread \<Rightarrow> 'a mem \<Rightarrow> bool" where
  "in_pipeline cfg w m n k a b lda ldb alpha th shm \<longleftrightarrow>
     (case th of
        AtLoop s \<Rightarrow>
          eligible cfg w m n k \<and> alpha \<noteq> 0 \<and>
          (\<exists>t. Suc t \<le> k div BlockK cfg
              \<and> iterations s = t
              \<and> fragAcc s = tile_product cfg a b lda ldb
                               (matrixCoord (BlockM cfg) (BlockN cfg) (blockCoord w))
                               (t * BlockK cfg)
              \<and> addrA s = dataCoord (LayoutA cfg) 0 lda
                             (fst (matrixCoord (BlockM cfg) (BlockN cfg) (blockCoord w)), 0)
                           + Suc t * incrA cfg lda
              \<and> addrB s = dataCoord (LayoutB cfg) 0 ldb
                             (0, snd (matrixCoord (BlockM cfg) (BlockN cfg) (blockCoord w)))
                           + Suc t * incrB cfg ldb
              \<and> stagedA cfg w shm
                  = load_matrix_sync (BlockM cfg) (BlockK cfg) (LayoutA cfg) a
                      (dataCoord (LayoutA cfg) 0 lda
                         (fst (matrixCoord (BlockM cfg) (BlockN cfg) (blockCoord w)), 0)
                       + t * incrA cfg lda) lda
              \<and> stagedB cfg w shm
                  = load_matrix_sync (BlockK cfg) (BlockN cfg) (LayoutB cfg) b
                      (dataCoord (LayoutB cfg) 0 ldb
                         (0, snd (matrixCoord (BlockM cfg) (BlockN cfg) (blockCoord w)))
                       + t * incrB cfg ldb) ldb)
      | _ \<Rightarrow> True)"

text \<open>
  What holds of a workgroup at every moment of every schedule: each thread is in the
  pipeline, and D holds the GEMM value at every address in the tile of a wave that has
  finished and the initial contents everywhere else.
\<close>

definition coherent ::
  "config \<Rightarrow> nat \<Rightarrow> nat \<Rightarrow> nat \<Rightarrow> ('a::semiring_0) mem \<Rightarrow> 'a mem \<Rightarrow> 'a mem
     \<Rightarrow> nat \<Rightarrow> nat \<Rightarrow> nat \<Rightarrow> nat \<Rightarrow> 'a \<Rightarrow> 'a \<Rightarrow> wave list \<Rightarrow> 'a mem \<Rightarrow> 'a workgroup_state
     \<Rightarrow> bool" where
  "coherent cfg m n k a b c lda ldb ldc ldd alpha beta ws d0 st \<longleftrightarrow>
     length (wg_threads st) = length ws \<and>
     (\<forall>i<length ws. in_pipeline cfg (ws ! i) m n k a b lda ldb alpha
                       (wg_threads st ! i) (wg_lds st)) \<and>
     (\<forall>p. if (\<exists>i<length ws. wg_threads st ! i = Finished \<and> eligible cfg (ws ! i) m n k
                 \<and> p \<in> tile_of cfg ldd (ws ! i))
          then (\<exists>r<m. \<exists>j<n. p = dataOffset (LayoutD cfg) ldd (r, j)
                  \<and> wg_d st p = gemm_elem cfg a b c lda ldb ldc alpha beta k r j)
          else wg_d st p = d0 p)"

text \<open>
  The round-robin schedule lets every wave take one step per round. A thread is at
  level \<open>r\<close> when it has taken \<open>r\<close> steps or has finished; in the middle of a round the
  waves before the current one are a level ahead of the others.
\<close>

definition round_robin :: "nat \<Rightarrow> nat \<Rightarrow> nat list" where
  "round_robin n rounds = concat (replicate rounds [0..<n])"

fun at_level :: "nat \<Rightarrow> 'a thread \<Rightarrow> bool" where
  "at_level r Ready = (r = 0)"
| "at_level r (AtLoop s) = (r = Suc (iterations s))"
| "at_level r Finished = (0 < r)"

definition in_round :: "nat \<Rightarrow> nat \<Rightarrow> 'a thread list \<Rightarrow> bool" where
  "in_round r i ths \<longleftrightarrow> (\<forall>j<length ths. at_level (if j < i then Suc r else r) (ths ! j))"

section \<open>Concrete inputs\<close>

text \<open>
  The configuration of the 32 x 32 x 8 test kernels (A row-major, B column-major, C and
  D row-major) on a 64-wide wave, and a small configuration with 8 x 8 x 8 blocks.
\<close>

definition cfg_32x32x8 :: config where
  "cfg_32x32x8 =
     \<lparr>BlockM = 32, BlockN = 32, BlockK = 8, LayoutA = row_major, LayoutB = col_major,
      LayoutC = row_major, LayoutD = row_major, AMDGCN_WAVE_SIZE = 64,
      FragA_size = 4, FragB_size = 4, FragLdsA_size = 4, FragLdsB_size = 4\<rparr>"

definition cfg_8x8x8 :: config where
  "cfg_8x8x8 =
     \<lparr>BlockM = 8, BlockN = 8, BlockK = 8, LayoutA = col_major, LayoutB = row_major,
      LayoutC = row_major, LayoutD = row_major, AMDGCN_WAVE_SIZE = 64,
      FragA_size = 1, FragB_size = 1, FragLdsA_size = 1, FragLdsB_size = 1\<rparr>"

text \<open>The second wave of the first workgroup, in a workgroup of 2 x 1 waves.\<close>

definition wave_1_0 :: wave where
  "wave_1_0 = \<lparr>blockIdx = (0, 0), waveCoord = (1, 0), workgroupDim = (2, 1)\<rparr>"

text \<open>
  The element types float, whose conversion to float changes nothing, and double.
\<close>

definition float32 :: "dbl data_type" where
  "float32 = \<lparr>to_float = (\<lambda>x. x), epsilon = Num (1 / 8388608), infinity = PosInf,
              signaling_NaN = NaN\<rparr>"


section \<open>Loads and stores of tiles\<close>

lemma fold_upd_other:
  "p \<notin> f ` set xs \<Longrightarrow> fold (\<lambda>i mm. mm(f i := g i)) xs mem p = mem p"
  by (induction xs arbitrary: mem) auto

lemma fold_upd_hit:
  "distinct xs \<Longrightarrow> inj_on f (set xs) \<Longrightarrow> i \<in> set xs
     \<Longrightarrow> fold (\<lambda>i mm. mm(f i := g i)) xs mem (f i) = g i"
proof (induction xs arbitrary: mem)
  case Nil
  then show ?case by simp
next
  case (Cons x xs)
  show ?case
  proof (cases "i = x")
    case True
    have "f x \<notin> f ` set xs"
      using Cons.prems(1,2) by (auto simp: inj_on_def)
    then have "fold (\<lambda>i mm. mm(f i := g i)) xs (mem(f x := g x)) (f x)
                 = (mem(f x := g x)) (f x)"
      by (rule fold_upd_other)
    then show ?thesis
      unfolding True by (simp only: fold_simps comp_apply fun_upd_same)
  next
    case False
    then have mem_i: "i \<in> set xs" using Cons.prems(3) by simp
    have inj: "inj_on f (set xs)" using Cons.prems(2) by (simp add: inj_on_def)
    have dist: "distinct xs" using Cons.prems(1) by simp
    have "fold (\<lambda>i mm. mm(f i := g i)) xs (mem(f x := g x)) (f i) = g i"
      by (rule Cons.IH [OF dist inj mem_i])
    then show ?thesis by (simp only: fold_simps comp_apply)
  qed
qed

lemma length_load_matrix_sync [simp]:
  "length (load_matrix_sync rows cols L mem addr ld) = rows * cols"
  by (simp add: load_matrix_sync_def)

lemma nth_load_matrix_sync:
  "i < rows * cols \<Longrightarrow>
     load_matrix_sync rows cols L mem addr ld ! i = mem (tile_addr cols L addr ld i)"
  by (simp add: load_matrix_sync_def)

lemma store_matrix_sync_other:
  "p \<notin> tile_addr cols L addr ld ` {..<rows * cols}
     \<Longrightarrow> store_matrix_sync rows cols L mem addr frag ld p = mem p"
  unfolding store_matrix_sync_def
  by (rule fold_upd_other) (simp add: lessThan_atLeast0)

lemma store_matrix_sync_hit:
  "inj_on (tile_addr cols L addr ld) {..<rows * cols} \<Longrightarrow> i < rows * cols
     \<Longrightarrow> store_matrix_sync rows cols L mem addr frag ld (tile_addr cols L addr ld i) = frag ! i"
  unfolding store_matrix_sync_def
  by (rule fold_upd_hit) (simp_all add: lessThan_atLeast0)

lemma div_mod_decode:
  fixes i j :: nat
  assumes "i div c = j div c" "i mod c = j mod c"
  shows "i = j"
  by (metis assms div_mult_mod_eq)

lemma tile_addr_row_major_inj:
  assumes "cols \<le> ld"
  shows "inj_on (tile_addr cols row_major addr ld) {..<rows * cols}"
proof (rule inj_onI)
  fix i j
  assume i: "i \<in> {..<rows * cols}" and j: "j \<in> {..<rows * cols}"
    and eq: "tile_addr cols row_major addr ld i = tile_addr cols row_major addr ld j"
  from i have cpos: "0 < cols" by (cases cols) auto
  have mi: "i mod cols < ld" and mj: "j mod cols < ld"
    using cpos assms by (meson less_le_trans mod_less_divisor)+
  from eq have e: "i div cols * ld + i mod cols = j div cols * ld + j mod cols"
    by (simp add: tile_addr_def)
  have "(i div cols * ld + i mod cols) div ld = i div cols"
    using mi by simp
  moreover have "(j div cols * ld + j mod cols) div ld = j div cols"
    using mj by simp
  ultimately have d: "i div cols = j div cols" using e by simp
  with e have "i mod cols = j mod cols" by simp
  with d show "i = j" by (rule div_mod_decode)
qed

lemma tile_addr_col_major_inj:
  assumes "rows \<le> ld"
  shows "inj_on (tile_addr cols col_major addr ld) {..<rows * cols}"
proof (rule inj_onI)
  fix i j
  assume i: "i \<in> {..<rows * cols}" and j: "j \<in> {..<rows * cols}"
    and eq: "tile_addr cols col_major addr ld i = tile_addr cols col_major addr ld j"
  have di: "i div cols < ld"
    using i assms by (simp add: less_mult_imp_div_less less_le_trans)
  have dj: "j div cols < ld"
    using j assms by (simp add: less_mult_imp_div_less less_le_trans)
  from eq have e: "i mod cols * ld + i div cols = j mod cols * ld + j div cols"
    by (simp add: tile_addr_def)
  have "(i mod cols * ld + i div cols) div ld = i mod cols"
    using di by simp
  moreover have "(j mod cols * ld + j div cols) div ld = j mod cols"
    using dj by simp
  ultimately have m: "i mod cols = j mod cols" using e by simp
  with e have "i div cols = j div cols" by simp
  then show "i = j" using m by (rule div_mod_decode)
qed

lemma load_store_same:
  assumes "inj_on (tile_addr cols L addr ld) {..<rows * cols}"
    and "length frag = rows * cols"
  shows "load_matrix_sync rows cols L (store_matrix_sync rows cols L mem addr frag ld) addr ld
           = frag"
proof (rule nth_equalityI)
  show "length (load_matrix_sync rows cols L
          (store_matrix_sync rows cols L mem addr frag ld) addr ld) = length frag"
    using assms(2) by simp
next
  fix i
  assume "i < length (load_matrix_sync rows cols L
          (store_matrix_sync rows cols L mem addr frag ld) addr ld)"
  then have i: "i < rows * cols" by simp
  then show "load_matrix_sync rows cols L
          (store_matrix_sync rows cols L mem addr frag ld) addr ld ! i = frag ! i"
    by (simp add: nth_load_matrix_sync store_matrix_sync_hit [OF assms(1)])
qed

lemma load_store_disjoint:
  assumes "tile_addr cols L addr ld ` {..<rows * cols}
             \<inter> tile_addr cols' L' addr' ld' ` {..<rows' * cols'} = {}"
  shows "load_matrix_sync rows cols L (store_matrix_sync rows' cols' L' mem addr' frag ld') addr ld
           = load_matrix_sync rows cols L mem addr ld"
proof -
  have "store_matrix_sync rows' cols' L' mem addr' frag ld' (tile_addr cols L addr ld i)
          = mem (tile_addr cols L addr ld i)" if "i < rows * cols" for i
    using that assms by (intro store_matrix_sync_other) blast
  then show ?thesis
    by (simp add: load_matrix_sync_def)
qed

section \<open>Build-time checks of the fragment sizes\<close>

text \<open>
  Claim C8. The template instantiates to the kernel exactly when the four static
  assertions hold: the per-lane element count of each native fragment times 64
  reconstructs its tile, and each register-file view has the element count of its
  native fragment. A configuration that violates one of them yields a build error and
  no kernel. The assertions use the literal 64: the invariant in terms of the
  configured register file width follows when that width is 64.
\<close>

theorem static_assertions_guard_instantiation:
  fixes kern :: "wave \<Rightarrow> nat \<Rightarrow> nat \<Rightarrow> nat \<Rightarrow> ('a::semiring_0) mem \<Rightarrow> 'a mem \<Rightarrow> 'a mem \<Rightarrow> 'a mem
        \<Rightarrow> nat \<Rightarrow> nat \<Rightarrow> nat \<Rightarrow> nat \<Rightarrow> 'a \<Rightarrow> 'a \<Rightarrow> 'a mem \<Rightarrow> 'a wave_result option"
  shows "(instantiate cfg = Inr kern \<longrightarrow>
            kern = mmaSyncLds cfg \<and>
            FragA_size cfg * 64 = BlockM cfg * BlockK cfg \<and>
            FragLdsA_size cfg = FragA_size cfg \<and>
            FragB_size cfg * 64 = BlockK cfg * BlockN cfg \<and>
            FragLdsB_size cfg = FragB_size cfg \<and>
            (AMDGCN_WAVE_SIZE cfg = 64 \<longrightarrow>
               FragA_size cfg * registerFileWidth cfg = BlockM cfg * BlockK cfg \<and>
               FragB_size cfg * registerFileWidth cfg = BlockK cfg * BlockN cfg))
       \<and> (\<not> (FragA_size cfg * 64 = BlockM cfg * BlockK cfg \<and>
              FragLdsA_size cfg = FragA_size cfg \<and>
              FragB_size cfg * 64 = BlockK cfg * BlockN cfg \<and>
              FragLdsB_size cfg = FragB_size cfg) \<longrightarrow>
            (\<exists>msg. (instantiate cfg
                      :: string + (wave \<Rightarrow> nat \<Rightarrow> nat \<Rightarrow> nat \<Rightarrow> 'a mem \<Rightarrow> 'a mem \<Rightarrow> 'a mem \<Rightarrow> 'a mem
                           \<Rightarrow> nat \<Rightarrow> nat \<Rightarrow> nat \<Rightarrow> nat \<Rightarrow> 'a \<Rightarrow> 'a \<Rightarrow> 'a mem
                           \<Rightarrow> 'a wave_result option)) = Inl msg))"
  by (auto simp: instantiate_def static_asserts_def registerFileWidth_def
           split: option.splits if_splits)

theorem static_assertions_guard_instantiation_witness:
  "FragA_size cfg_32x32x8 * registerFileWidth cfg_32x32x8
     = BlockM cfg_32x32x8 * BlockK cfg_32x32x8
   \<and> FragLdsA_size cfg_32x32x8 = FragA_size cfg_32x32x8
   \<and> (instantiate (cfg_32x32x8\<lparr>BlockK := 16\<rparr>)
        :: string + (wave \<Rightarrow> nat \<Rightarrow> nat \<Rightarrow> nat \<Rightarrow> int mem \<Rightarrow> int mem \<Rightarrow> int mem \<Rightarrow> int mem
             \<Rightarrow> nat \<Rightarrow> nat \<Rightarrow> nat \<Rightarrow> nat \<Rightarrow> int \<Rightarrow> int \<Rightarrow> int mem \<Rightarrow> int wave_result option))
       = Inl ''Elements of A don't match''"
proof -
  have inst: "(instantiate cfg_32x32x8
        :: string + (wave \<Rightarrow> nat \<Rightarrow> nat \<Rightarrow> nat \<Rightarrow> int mem \<Rightarrow> int mem \<Rightarrow> int mem \<Rightarrow> int mem
             \<Rightarrow> nat \<Rightarrow> nat \<Rightarrow> nat \<Rightarrow> nat \<Rightarrow> int \<Rightarrow> int \<Rightarrow> int mem \<Rightarrow> int wave_result option))
       = Inr (mmaSyncLds cfg_32x32x8)"
    by (simp add: instantiate_def static_asserts_def cfg_32x32x8_def)
  have w64: "AMDGCN_WAVE_SIZE cfg_32x32x8 = 64"
    by (simp add: cfg_32x32x8_def)
  from static_assertions_guard_instantiation [of cfg_32x32x8 "mmaSyncLds cfg_32x32x8"] inst w64
  have "FragA_size cfg_32x32x8 * registerFileWidth cfg_32x32x8
          = BlockM cfg_32x32x8 * BlockK cfg_32x32x8
        \<and> FragLdsA_size cfg_32x32x8 = FragA_size cfg_32x32x8"
    by blast
  moreover have "(instantiate (cfg_32x32x8\<lparr>BlockK := 16\<rparr>)
        :: string + (wave \<Rightarrow> nat \<Rightarrow> nat \<Rightarrow> nat \<Rightarrow> int mem \<Rightarrow> int mem \<Rightarrow> int mem \<Rightarrow> int mem
             \<Rightarrow> nat \<Rightarrow> nat \<Rightarrow> nat \<Rightarrow> nat \<Rightarrow> int \<Rightarrow> int \<Rightarrow> int mem \<Rightarrow> int wave_result option))
       = Inl ''Elements of A don't match''"
    by (simp add: instantiate_def static_asserts_def cfg_32x32x8_def)
  ultimately show ?thesis by blast
qed

section \<open>The two regions of the staging buffer\<close>

lemma tile_in_region:
  assumes "r0 + rows \<le> R" and "c0 + cols \<le> ld" and "i < rows * cols"
  shows "tile_addr cols row_major (dataCoord row_major base ld (r0, c0)) ld i
           \<in> {base ..< base + R * ld}"
proof -
  from assms(3) have cpos: "0 < cols" by (cases cols) auto
  have r: "i div cols < rows"
    using assms(3) by (simp add: less_mult_imp_div_less)
  have l: "i mod cols < cols" using cpos by simp
  have col: "c0 + i mod cols < ld" using l assms(2) by linarith
  have row: "r0 + i div cols + 1 \<le> R" using r assms(1) by linarith
  have eq: "tile_addr cols row_major (dataCoord row_major base ld (r0, c0)) ld i
          = base + ((r0 + i div cols) * ld + (c0 + i mod cols))"
    by (simp add: tile_addr_def dataCoord_def algebra_simps)
  have "(r0 + i div cols) * ld + (c0 + i mod cols) < (r0 + i div cols + 1) * ld"
    using col by (simp add: algebra_simps)
  also have "\<dots> \<le> R * ld"
    using row by (rule mult_le_mono1)
  finally show ?thesis
    unfolding eq by simp
qed

lemma slotA_in_regionA:
  assumes "in_workgroup w" and "FragLdsA_size cfg = FragA_size cfg"
  shows "slotA cfg w \<subseteq> regionA cfg w"
proof
  fix p
  assume "p \<in> slotA cfg w"
  then obtain i where i: "i < FragA_size cfg * registerFileWidth cfg"
    and p: "p = tile_addr (registerFileWidth cfg) row_major (addrLdsA cfg w) (ldLds cfg w) i"
    by (auto simp: slotA_def)
  have rows: "fst (waveCoord w) * FragA_size cfg + FragA_size cfg
                \<le> fst (workgroupDim w) * FragA_size cfg"
  proof -
    have "Suc (fst (waveCoord w)) \<le> fst (workgroupDim w)"
      using assms(1) by (simp add: in_workgroup_def)
    then have "Suc (fst (waveCoord w)) * FragA_size cfg \<le> fst (workgroupDim w) * FragA_size cfg"
      by (rule mult_le_mono1)
    then show ?thesis by simp
  qed
  have cols: "snd (waveCoord w) * registerFileWidth cfg + registerFileWidth cfg \<le> ldLds cfg w"
  proof -
    have "Suc (snd (waveCoord w)) \<le> snd (workgroupDim w)"
      using assms(1) by (simp add: in_workgroup_def)
    then have "Suc (snd (waveCoord w)) * registerFileWidth cfg
                 \<le> snd (workgroupDim w) * registerFileWidth cfg"
      by (rule mult_le_mono1)
    then show ?thesis by (simp add: ldLds_def mult.commute)
  qed
  show "p \<in> regionA cfg w"
    unfolding p addrLdsA_def matrixCoord_def regionA_def assms(2) fst_conv snd_conv
    by (rule tile_in_region [OF rows cols i])
qed

lemma slotB_in_regionB:
  assumes "in_workgroup w" and "FragLdsB_size cfg = FragB_size cfg"
  shows "slotB cfg w \<subseteq> regionB cfg w"
proof
  fix p
  assume "p \<in> slotB cfg w"
  then obtain i where i: "i < FragB_size cfg * registerFileWidth cfg"
    and p: "p = tile_addr (registerFileWidth cfg) row_major (addrLdsB cfg w) (ldLds cfg w) i"
    by (auto simp: slotB_def)
  have rows: "fst (waveCoord w) * FragB_size cfg + FragB_size cfg
                \<le> fst (workgroupDim w) * FragB_size cfg"
  proof -
    have "Suc (fst (waveCoord w)) \<le> fst (workgroupDim w)"
      using assms(1) by (simp add: in_workgroup_def)
    then have "Suc (fst (waveCoord w)) * FragB_size cfg \<le> fst (workgroupDim w) * FragB_size cfg"
      by (rule mult_le_mono1)
    then show ?thesis by simp
  qed
  have cols: "snd (waveCoord w) * registerFileWidth cfg + registerFileWidth cfg \<le> ldLds cfg w"
  proof -
    have "Suc (snd (waveCoord w)) \<le> snd (workgroupDim w)"
      using assms(1) by (simp add: in_workgroup_def)
    then have "Suc (snd (waveCoord w)) * registerFileWidth cfg
                 \<le> snd (workgroupDim w) * registerFileWidth cfg"
      by (rule mult_le_mono1)
    then show ?thesis by (simp add: ldLds_def mult.commute)
  qed
  show "p \<in> regionB cfg w"
    unfolding p addrLdsB_def matrixCoord_def regionB_def assms(2) fst_conv snd_conv
    by (rule tile_in_region [OF rows cols i])
qed

lemma regions_disjoint: "regionA cfg w \<inter> regionB cfg w = {}"
  by (auto simp: regionA_def regionB_def baseAddrLdsB_def)

text \<open>
  Claim C7. For every configuration that passes the static assertions and every wave
  of a workgroup: the B region starts where the A region ends, the A region holds
  \<open>workgroupDim.x * FragLdsA::size() * ldLds\<close> elements with
  \<open>ldLds = registerFileWidth * workgroupDim.y\<close>, the two regions do not overlap, and
  the wave's A slot and B slot lie inside the A region and the B region.
\<close>

theorem staging_regions_never_overlap:
  assumes "static_asserts cfg = None" and "in_workgroup w"
  shows "baseAddrLdsB cfg w
           = baseAddrLdsA + fst (workgroupDim w) * FragLdsA_size cfg * ldLds cfg w
       \<and> ldLds cfg w = registerFileWidth cfg * snd (workgroupDim w)
       \<and> regionA cfg w
           = {baseAddrLdsA ..<
                baseAddrLdsA + fst (workgroupDim w) * FragLdsA_size cfg * ldLds cfg w}
       \<and> regionA cfg w \<inter> regionB cfg w = {}
       \<and> slotA cfg w \<subseteq> regionA cfg w
       \<and> slotB cfg w \<subseteq> regionB cfg w"
proof -
  from assms(1) have sa: "FragLdsA_size cfg = FragA_size cfg"
    and sb: "FragLdsB_size cfg = FragB_size cfg"
    by (auto simp: static_asserts_def split: if_splits)
  have "baseAddrLdsB cfg w
          = baseAddrLdsA + fst (workgroupDim w) * FragLdsA_size cfg * ldLds cfg w"
    by (simp only: baseAddrLdsB_def)
  moreover have "ldLds cfg w = registerFileWidth cfg * snd (workgroupDim w)"
    by (simp only: ldLds_def)
  moreover have "regionA cfg w
          = {baseAddrLdsA ..<
               baseAddrLdsA + fst (workgroupDim w) * FragLdsA_size cfg * ldLds cfg w}"
    by (simp only: regionA_def)
  moreover note regions_disjoint [of cfg w]
    slotA_in_regionA [OF assms(2) sa] slotB_in_regionB [OF assms(2) sb]
  ultimately show ?thesis by blast
qed

theorem staging_regions_never_overlap_witness:
  "baseAddrLdsB cfg_32x32x8 wave_1_0 = 512
   \<and> regionA cfg_32x32x8 wave_1_0 \<inter> regionB cfg_32x32x8 wave_1_0 = {}
   \<and> slotA cfg_32x32x8 wave_1_0 \<subseteq> regionA cfg_32x32x8 wave_1_0
   \<and> slotB cfg_32x32x8 wave_1_0 \<subseteq> regionB cfg_32x32x8 wave_1_0"
proof -
  have sa: "static_asserts cfg_32x32x8 = None"
    by (simp add: static_asserts_def cfg_32x32x8_def)
  have wg: "in_workgroup wave_1_0"
    by (simp add: in_workgroup_def wave_1_0_def)
  have "baseAddrLdsB cfg_32x32x8 wave_1_0 = 512"
    by (simp add: baseAddrLdsB_def baseAddrLdsA_def ldLds_def registerFileWidth_def
          cfg_32x32x8_def wave_1_0_def)
  with staging_regions_never_overlap [OF sa wg] show ?thesis
    by blast
qed

section \<open>Round trip through the staging buffer\<close>

text \<open>
  Claim C6. For a configuration that passes the static assertions on a 64-wide
  register file, whatever the element type and the staging buffer's content: a native
  A fragment (B fragment) stored at the wave's slot through its register-file view and
  loaded back through the same view is the fragment it was.
\<close>

theorem staging_round_trip:
  assumes "static_asserts cfg = None" and "AMDGCN_WAVE_SIZE cfg = 64"
    and "0 < snd (workgroupDim w)"
    and "length fragA = BlockM cfg * BlockK cfg"
    and "length fragB = BlockK cfg * BlockN cfg"
  shows "load_matrix_sync (FragA_size cfg) (registerFileWidth cfg) row_major
           (store_matrix_sync (FragA_size cfg) (registerFileWidth cfg) row_major shm
              (addrLdsA cfg w) fragA (ldLds cfg w))
           (addrLdsA cfg w) (ldLds cfg w) = fragA
       \<and> load_matrix_sync (FragB_size cfg) (registerFileWidth cfg) row_major
           (store_matrix_sync (FragB_size cfg) (registerFileWidth cfg) row_major shm
              (addrLdsB cfg w) fragB (ldLds cfg w))
           (addrLdsB cfg w) (ldLds cfg w) = fragB"
proof -
  have wide: "registerFileWidth cfg \<le> ldLds cfg w"
    using assms(3) by (simp add: ldLds_def)
  from assms(1) have "FragA_size cfg * 64 = BlockM cfg * BlockK cfg"
    and "FragB_size cfg * 64 = BlockK cfg * BlockN cfg"
    by (auto simp: static_asserts_def split: if_splits)
  then have la: "length fragA = FragA_size cfg * registerFileWidth cfg"
    and lb: "length fragB = FragB_size cfg * registerFileWidth cfg"
    using assms(2,4,5) by (simp_all add: registerFileWidth_def)
  show ?thesis
    using load_store_same [OF tile_addr_row_major_inj [OF wide] la]
      load_store_same [OF tile_addr_row_major_inj [OF wide] lb]
    by simp
qed

theorem staging_round_trip_witness:
  "load_matrix_sync (FragA_size cfg_8x8x8) (registerFileWidth cfg_8x8x8) row_major
     (store_matrix_sync (FragA_size cfg_8x8x8) (registerFileWidth cfg_8x8x8) row_major
        (\<lambda>p. False) (addrLdsA cfg_8x8x8 wave_1_0) (replicate 64 True) (ldLds cfg_8x8x8 wave_1_0))
     (addrLdsA cfg_8x8x8 wave_1_0) (ldLds cfg_8x8x8 wave_1_0) = replicate 64 True"
proof -
  have sa: "static_asserts cfg_8x8x8 = None"
    by (simp add: static_asserts_def cfg_8x8x8_def)
  have w64: "AMDGCN_WAVE_SIZE cfg_8x8x8 = 64"
    by (simp add: cfg_8x8x8_def)
  have wg: "0 < snd (workgroupDim wave_1_0)"
    by (simp add: wave_1_0_def)
  have len: "length (replicate 64 True) = BlockM cfg_8x8x8 * BlockK cfg_8x8x8"
    "length (replicate 64 True) = BlockK cfg_8x8x8 * BlockN cfg_8x8x8"
    by (simp_all add: cfg_8x8x8_def)
  from staging_round_trip [OF sa w64 wg len, of "\<lambda>p. False"] show ?thesis
    by blast
qed

section \<open>The software pipeline\<close>

lemma steady_state_done: "addrA s = e \<Longrightarrow> steady_state e body s = Some s"
  by (subst steady_state.simps) simp

lemma steady_state_funpow:
  assumes step: "\<And>s. addrA (body s) = addrA s + inc" and pos: "0 < inc"
  shows "addrA s + n * inc = e \<Longrightarrow> steady_state e body s = Some ((body ^^ n) s)"
proof (induction n arbitrary: s)
  case 0
  then show ?case by (simp add: steady_state_done)
next
  case (Suc n)
  from Suc.prems pos have ne: "addrA s \<noteq> e" by auto
  have "addrA (body s) + n * inc = e"
    using Suc.prems by (simp add: step)
  then have "steady_state e body (body s) = Some ((body ^^ n) (body s))"
    by (rule Suc.IH)
  then show ?case
    using ne by (subst steady_state.simps) (simp add: funpow_swap1)
qed

lemma addrA_loop_body [simp]: "addrA (loop_body cfg w a b lda ldb s) = addrA s + incrA cfg lda"
  by (simp add: loop_body_def Let_def)

lemma addrB_loop_body [simp]: "addrB (loop_body cfg w a b lda ldb s) = addrB s + incrB cfg ldb"
  by (simp add: loop_body_def Let_def)

lemma iterations_loop_body [simp]: "iterations (loop_body cfg w a b lda ldb s) = iterations s + 1"
  by (simp add: loop_body_def Let_def)

lemma mma_issued_loop_body [simp]: "mma_issued (loop_body cfg w a b lda ldb s) = mma_issued s + 1"
  by (simp add: loop_body_def Let_def)

lemma ab_loads_loop_body [simp]: "ab_loads (loop_body cfg w a b lda ldb s) = ab_loads s + 2"
  by (simp add: loop_body_def Let_def)

lemma counters_funpow:
  "addrA ((loop_body cfg w a b lda ldb ^^ n) s) = addrA s + n * incrA cfg lda"
  "addrB ((loop_body cfg w a b lda ldb ^^ n) s) = addrB s + n * incrB cfg ldb"
  "iterations ((loop_body cfg w a b lda ldb ^^ n) s) = iterations s + n"
  "mma_issued ((loop_body cfg w a b lda ldb ^^ n) s) = mma_issued s + n"
  "ab_loads ((loop_body cfg w a b lda ldb ^^ n) s) = ab_loads s + 2 * n"
  by (induction n) (simp_all add: algebra_simps)

lemma prime_fields [simp]:
  "addrA (prime cfg w a b lda ldb mc acc shm)
     = dataCoord (LayoutA cfg) 0 lda (fst mc, 0) + incrA cfg lda"
  "addrB (prime cfg w a b lda ldb mc acc shm)
     = dataCoord (LayoutB cfg) 0 ldb (0, snd mc) + incrB cfg ldb"
  "fragAcc (prime cfg w a b lda ldb mc acc shm) = acc"
  "iterations (prime cfg w a b lda ldb mc acc shm) = 0"
  "mma_issued (prime cfg w a b lda ldb mc acc shm) = 0"
  "ab_loads (prime cfg w a b lda ldb mc acc shm) = 2"
  by (simp_all add: prime_def Let_def)

lemma drain_fields [simp]:
  "iterations (drain cfg w s) = iterations s"
  "mma_issued (drain cfg w s) = mma_issued s + 1"
  "ab_loads (drain cfg w s) = ab_loads s"
  "lds (drain cfg w s) = lds s"
  "addrA (drain cfg w s) = addrA s"
  by (simp_all add: drain_def Let_def)

text \<open>The loop of an eligible wave returns, after k div BlockK - 1 iterations.\<close>

lemma steady_state_returns:
  assumes "BlockK cfg < k" and "0 < BlockK cfg"
  shows "steady_state (endA cfg lda k mc) (loop_body cfg w a b lda ldb)
           (prime cfg w a b lda ldb mc acc shm)
         = Some ((loop_body cfg w a b lda ldb
                    ^^ (if 0 < incrA cfg lda then k div BlockK cfg - 1 else 0))
                  (prime cfg w a b lda ldb mc acc shm))"
proof (cases "0 < incrA cfg lda")
  case True
  have "1 \<le> k div BlockK cfg"
    using assms by (simp add: div_greater_zero_iff Suc_leI)
  then have "Suc (k div BlockK cfg - 1) = k div BlockK cfg" by simp
  then have "addrA (prime cfg w a b lda ldb mc acc shm) + (k div BlockK cfg - 1) * incrA cfg lda
          = endA cfg lda k mc"
    by (simp add: endA_def) (metis mult.commute mult_Suc)
  from steady_state_funpow [OF addrA_loop_body True this] True show ?thesis by simp
next
  case False
  then show ?thesis by (simp add: steady_state_done endA_def)
qed

lemma accumulate_returns:
  assumes "BlockK cfg < k" and "0 < BlockK cfg"
  shows "accumulate cfg w k a b lda ldb mc acc shm
         = Some (drain cfg w ((loop_body cfg w a b lda ldb
                    ^^ (if 0 < incrA cfg lda then k div BlockK cfg - 1 else 0))
                  (prime cfg w a b lda ldb mc acc shm)))"
  using assms by (simp add: accumulate_def steady_state_returns)

lemma incrA_pos_iff:
  "0 < incrA cfg lda \<longleftrightarrow> 0 < BlockK cfg \<and> (LayoutA cfg = col_major \<longrightarrow> 0 < lda)"
  by (cases "LayoutA cfg") (auto simp: incrA_def)

lemma mmaSyncLds_eligible:
  assumes "eligible cfg w m n k" and "0 < BlockK cfg"
  shows "mmaSyncLds cfg w m n k a b c d lda ldb ldc ldd alpha beta shm =
     (let mc = matrixCoord (BlockM cfg) (BlockN cfg) (blockCoord w);
          acc0 = fill_fragment (BlockM cfg * BlockN cfg) 0;
          s = (if alpha \<noteq> 0
               then drain cfg w ((loop_body cfg w a b lda ldb
                      ^^ (if 0 < incrA cfg lda then k div BlockK cfg - 1 else 0))
                     (prime cfg w a b lda ldb mc acc0 shm))
               else skip_accumulation acc0 shm)
      in Some \<lparr>out_d = epilogue cfg c d ldc ldd alpha beta mc (fragAcc s),
               out_lds = lds s, out_acc = fragAcc s, n_ab_loads = ab_loads s,
               n_mma = mma_issued s, n_iterations = iterations s, proceeded = True\<rparr>)"
proof -
  from assms(1) have g: "fst (matrixCoord (BlockM cfg) (BlockN cfg) (blockCoord w)) < m"
    "snd (matrixCoord (BlockM cfg) (BlockN cfg) (blockCoord w)) < n" "BlockK cfg < k"
    by (simp_all add: eligible_def)
  show ?thesis
    unfolding mmaSyncLds_def Let_def
    using g by (simp add: accumulate_returns [OF g(3) assms(2)])
qed

lemma mmaSyncLds_idle:
  assumes "\<not> eligible cfg w m n k"
  shows "mmaSyncLds cfg w m n k a b c d lda ldb ldc ldd alpha beta shm =
     Some \<lparr>out_d = d, out_lds = shm, out_acc = [], n_ab_loads = 0, n_mma = 0,
           n_iterations = 0, proceeded = False\<rparr>"
proof -
  have "\<not> (fst (matrixCoord (BlockM cfg) (BlockN cfg) (blockCoord w)) < m \<and>
           snd (matrixCoord (BlockM cfg) (BlockN cfg) (blockCoord w)) < n \<and> BlockK cfg < k)"
    using assms unfolding eligible_def .
  then show ?thesis
    unfolding mmaSyncLds_def Let_def by (simp only: if_False)
qed

lemma supported_facts:
  assumes "supported cfg w"
  shows "FragA_size cfg * registerFileWidth cfg = BlockM cfg * BlockK cfg"
    and "FragB_size cfg * registerFileWidth cfg = BlockK cfg * BlockN cfg"
    and "FragLdsA_size cfg = FragA_size cfg"
    and "FragLdsB_size cfg = FragB_size cfg"
    and "registerFileWidth cfg \<le> ldLds cfg w"
    and "in_workgroup w"
  using assms
  by (auto simp: supported_def static_asserts_def registerFileWidth_def ldLds_def
        in_workgroup_def split: if_splits)

lemma slots_disjoint:
  assumes "supported cfg w"
  shows "slotA cfg w \<inter> slotB cfg w = {}"
  using slotA_in_regionA [OF supported_facts(6,3) [OF assms]]
    slotB_in_regionB [OF supported_facts(6,4) [OF assms]] regions_disjoint [of cfg w]
  by blast

lemma stagedA_stage:
  assumes "supported cfg w" and "length fa = BlockM cfg * BlockK cfg"
  shows "stagedA cfg w (stage cfg w shm fa fb) = fa"
proof -
  have la: "length fa = FragA_size cfg * registerFileWidth cfg"
    using assms(2) supported_facts(1) [OF assms(1)] by simp
  have "slotA cfg w \<inter> slotB cfg w = {}" by (rule slots_disjoint [OF assms(1)])
  then have "stagedA cfg w (stage cfg w shm fa fb)
      = stagedA cfg w (store_matrix_sync (FragA_size cfg) (registerFileWidth cfg) row_major shm
          (addrLdsA cfg w) fa (ldLds cfg w))"
    unfolding stagedA_def stage_def slotA_def slotB_def by (rule load_store_disjoint)
  also have "\<dots> = fa"
    unfolding stagedA_def
    by (rule load_store_same
          [OF tile_addr_row_major_inj [OF supported_facts(5) [OF assms(1)]] la])
  finally show ?thesis .
qed

lemma stagedB_stage:
  assumes "supported cfg w" and "length fb = BlockK cfg * BlockN cfg"
  shows "stagedB cfg w (stage cfg w shm fa fb) = fb"
proof -
  have lb: "length fb = FragB_size cfg * registerFileWidth cfg"
    using assms(2) supported_facts(2) [OF assms(1)] by simp
  show ?thesis
    unfolding stagedB_def stage_def
    by (rule load_store_same
          [OF tile_addr_row_major_inj [OF supported_facts(5) [OF assms(1)]] lb])
qed

lemma lds_prime:
  "lds (prime cfg w a b lda ldb mc acc shm)
     = stage cfg w shm
         (load_matrix_sync (BlockM cfg) (BlockK cfg) (LayoutA cfg) a
            (dataCoord (LayoutA cfg) 0 lda (fst mc, 0)) lda)
         (load_matrix_sync (BlockK cfg) (BlockN cfg) (LayoutB cfg) b
            (dataCoord (LayoutB cfg) 0 ldb (0, snd mc)) ldb)"
  by (simp add: prime_def Let_def stage_def)

lemma lds_loop_body:
  "lds (loop_body cfg w a b lda ldb s)
     = stage cfg w (lds s)
         (load_matrix_sync (BlockM cfg) (BlockK cfg) (LayoutA cfg) a (addrA s) lda)
         (load_matrix_sync (BlockK cfg) (BlockN cfg) (LayoutB cfg) b (addrB s) ldb)"
  by (simp add: loop_body_def Let_def stage_def)

lemma fragAcc_loop_body:
  "fragAcc (loop_body cfg w a b lda ldb s)
     = mma_sync (BlockM cfg) (BlockN cfg) (BlockK cfg) (stagedA cfg w (lds s))
         (stagedB cfg w (lds s)) (fragAcc s)"
  by (simp add: loop_body_def Let_def stagedA_def stagedB_def)

lemma fragAcc_drain:
  "fragAcc (drain cfg w s)
     = mma_sync (BlockM cfg) (BlockN cfg) (BlockK cfg) (stagedA cfg w (lds s))
         (stagedB cfg w (lds s)) (fragAcc s)"
  by (simp add: drain_def Let_def stagedA_def stagedB_def)

lemma sum_lessThan_add:
  fixes f :: "nat \<Rightarrow> 'a::comm_monoid_add"
  shows "(\<Sum>x<p + q. f x) = (\<Sum>x<p. f x) + (\<Sum>h<q. f (p + h))"
  by (induction q) (simp_all add: add.assoc)

lemma mma_sync_nth:
  assumes "i < M * N"
  shows "mma_sync M N K fa fb acc ! i
           = acc ! i + (\<Sum>h<K. fa ! ((i div N) * K + h) * fb ! (h * N + i mod N))"
  using assms
  by (simp add: mma_sync_def interv_sum_list_conv_sum_set_nat atLeast0LessThan)

lemma length_mma_sync [simp]: "length (mma_sync M N K fa fb acc) = M * N"
  by (simp add: mma_sync_def)

lemma tile_index:
  fixes r c :: nat
  assumes "r < rows" and "c < cols"
  shows "r * cols + c < rows * cols" and "(r * cols + c) div cols = r"
    and "(r * cols + c) mod cols = c"
proof -
  have "r * cols + c < r * cols + cols" using assms(2) by simp
  also have "\<dots> = Suc r * cols" by simp
  also have "\<dots> \<le> rows * cols" using assms(1) by (intro mult_le_mono1) simp
  finally show "r * cols + c < rows * cols" .
  show "(r * cols + c) div cols = r" using assms(2) by simp
  show "(r * cols + c) mod cols = c" using assms(2) by simp
qed

lemma tile_elem:
  assumes "r < rows" and "c < cols"
  shows "load_matrix_sync rows cols L mem addr ld ! (r * cols + c)
           = mem (addr + dataOffset L ld (r, c))"
  using tile_index [OF assms]
  by (simp add: nth_load_matrix_sync tile_addr_def)

lemma addrA_walk:
  "dataCoord (LayoutA cfg) 0 lda (row0, 0) + t * incrA cfg lda
       + dataOffset (LayoutA cfg) lda (r, h)
     = dataOffset (LayoutA cfg) lda (row0 + r, t * BlockK cfg + h)"
  by (cases "LayoutA cfg") (simp_all add: dataCoord_def incrA_def algebra_simps)

lemma addrB_walk:
  "dataCoord (LayoutB cfg) 0 ldb (0, col0) + t * incrB cfg ldb
       + dataOffset (LayoutB cfg) ldb (h, j)
     = dataOffset (LayoutB cfg) ldb (t * BlockK cfg + h, col0 + j)"
  by (cases "LayoutB cfg") (simp_all add: dataCoord_def incrB_def algebra_simps)

text \<open>One multiply-accumulate extends the product by one block of the reduction.\<close>

lemma mma_sync_extends:
  assumes "0 < BlockN cfg"
  shows "mma_sync (BlockM cfg) (BlockN cfg) (BlockK cfg)
           (load_matrix_sync (BlockM cfg) (BlockK cfg) (LayoutA cfg) a
              (dataCoord (LayoutA cfg) 0 lda (fst mc, 0) + t * incrA cfg lda) lda)
           (load_matrix_sync (BlockK cfg) (BlockN cfg) (LayoutB cfg) b
              (dataCoord (LayoutB cfg) 0 ldb (0, snd mc) + t * incrB cfg ldb) ldb)
           (tile_product cfg a b lda ldb mc (t * BlockK cfg))
         = tile_product cfg a b lda ldb mc (Suc t * BlockK cfg)"
proof (rule nth_equalityI)
  show "length (mma_sync (BlockM cfg) (BlockN cfg) (BlockK cfg)
           (load_matrix_sync (BlockM cfg) (BlockK cfg) (LayoutA cfg) a
              (dataCoord (LayoutA cfg) 0 lda (fst mc, 0) + t * incrA cfg lda) lda)
           (load_matrix_sync (BlockK cfg) (BlockN cfg) (LayoutB cfg) b
              (dataCoord (LayoutB cfg) 0 ldb (0, snd mc) + t * incrB cfg ldb) ldb)
           (tile_product cfg a b lda ldb mc (t * BlockK cfg)))
        = length (tile_product cfg a b lda ldb mc (Suc t * BlockK cfg))"
    by (simp add: tile_product_def)
next
  fix i
  assume "i < length (mma_sync (BlockM cfg) (BlockN cfg) (BlockK cfg)
           (load_matrix_sync (BlockM cfg) (BlockK cfg) (LayoutA cfg) a
              (dataCoord (LayoutA cfg) 0 lda (fst mc, 0) + t * incrA cfg lda) lda)
           (load_matrix_sync (BlockK cfg) (BlockN cfg) (LayoutB cfg) b
              (dataCoord (LayoutB cfg) 0 ldb (0, snd mc) + t * incrB cfg ldb) ldb)
           (tile_product cfg a b lda ldb mc (t * BlockK cfg)))"
  then have i: "i < BlockM cfg * BlockN cfg" by simp
  have r: "i div BlockN cfg < BlockM cfg"
    using i by (simp add: less_mult_imp_div_less)
  have j: "i mod BlockN cfg < BlockN cfg" using assms by simp
  have ea: "load_matrix_sync (BlockM cfg) (BlockK cfg) (LayoutA cfg) a
              (dataCoord (LayoutA cfg) 0 lda (fst mc, 0) + t * incrA cfg lda) lda
              ! (i div BlockN cfg * BlockK cfg + h)
            = a (dataOffset (LayoutA cfg) lda (fst mc + i div BlockN cfg, t * BlockK cfg + h))"
    if "h < BlockK cfg" for h
    by (simp only: tile_elem [OF r that] addrA_walk)
  have eb: "load_matrix_sync (BlockK cfg) (BlockN cfg) (LayoutB cfg) b
              (dataCoord (LayoutB cfg) 0 ldb (0, snd mc) + t * incrB cfg ldb) ldb
              ! (h * BlockN cfg + i mod BlockN cfg)
            = b (dataOffset (LayoutB cfg) ldb (t * BlockK cfg + h, snd mc + i mod BlockN cfg))"
    if "h < BlockK cfg" for h
    by (simp only: tile_elem [OF that j] addrB_walk)
  have "Suc t * BlockK cfg = t * BlockK cfg + BlockK cfg" by simp
  then have split: "(\<Sum>x<Suc t * BlockK cfg. F x)
      = (\<Sum>x<t * BlockK cfg. F x) + (\<Sum>h<BlockK cfg. F (t * BlockK cfg + h))"
    for F :: "nat \<Rightarrow> 'a"
    by (simp only: sum_lessThan_add)
  show "mma_sync (BlockM cfg) (BlockN cfg) (BlockK cfg)
           (load_matrix_sync (BlockM cfg) (BlockK cfg) (LayoutA cfg) a
              (dataCoord (LayoutA cfg) 0 lda (fst mc, 0) + t * incrA cfg lda) lda)
           (load_matrix_sync (BlockK cfg) (BlockN cfg) (LayoutB cfg) b
              (dataCoord (LayoutB cfg) 0 ldb (0, snd mc) + t * incrB cfg ldb) ldb)
           (tile_product cfg a b lda ldb mc (t * BlockK cfg)) ! i
        = tile_product cfg a b lda ldb mc (Suc t * BlockK cfg) ! i"
    using i by (simp add: mma_sync_nth tile_product_def split ea eb del: mult_Suc)
qed

lemma tile_product_0:
  "tile_product cfg a b lda ldb mc 0 = fill_fragment (BlockM cfg * BlockN cfg) 0"
  by (simp add: tile_product_def fill_fragment_def map_replicate_const)

lemma length_tile_product [simp]:
  "length (tile_product cfg a b lda ldb mc K) = BlockM cfg * BlockN cfg"
  by (simp add: tile_product_def)

lemma pipeline_invariant:
  assumes sup: "supported cfg w" and bn: "0 < BlockN cfg"
  shows "fragAcc ((loop_body cfg w a b lda ldb ^^ t)
                   (prime cfg w a b lda ldb mc (fill_fragment (BlockM cfg * BlockN cfg) 0) shm))
           = tile_product cfg a b lda ldb mc (t * BlockK cfg)
       \<and> stagedA cfg w (lds ((loop_body cfg w a b lda ldb ^^ t)
                   (prime cfg w a b lda ldb mc (fill_fragment (BlockM cfg * BlockN cfg) 0) shm)))
           = load_matrix_sync (BlockM cfg) (BlockK cfg) (LayoutA cfg) a
               (dataCoord (LayoutA cfg) 0 lda (fst mc, 0) + t * incrA cfg lda) lda
       \<and> stagedB cfg w (lds ((loop_body cfg w a b lda ldb ^^ t)
                   (prime cfg w a b lda ldb mc (fill_fragment (BlockM cfg * BlockN cfg) 0) shm)))
           = load_matrix_sync (BlockK cfg) (BlockN cfg) (LayoutB cfg) b
               (dataCoord (LayoutB cfg) 0 ldb (0, snd mc) + t * incrB cfg ldb) ldb"
proof (induction t)
  case 0
  show ?case
    by (simp add: tile_product_0 lds_prime stagedA_stage [OF sup] stagedB_stage [OF sup])
next
  case (Suc t)
  let ?s = "(loop_body cfg w a b lda ldb ^^ t)
              (prime cfg w a b lda ldb mc (fill_fragment (BlockM cfg * BlockN cfg) 0) shm)"
  have acc: "fragAcc (loop_body cfg w a b lda ldb ?s)
               = tile_product cfg a b lda ldb mc (Suc t * BlockK cfg)"
    unfolding fragAcc_loop_body using Suc.IH
    by (simp only: mma_sync_extends [OF bn])
  have a: "addrA ?s = dataCoord (LayoutA cfg) 0 lda (fst mc, 0) + Suc t * incrA cfg lda"
    by (simp add: counters_funpow)
  have b: "addrB ?s = dataCoord (LayoutB cfg) 0 ldb (0, snd mc) + Suc t * incrB cfg ldb"
    by (simp add: counters_funpow)
  have sa: "stagedA cfg w (lds (loop_body cfg w a b lda ldb ?s))
              = load_matrix_sync (BlockM cfg) (BlockK cfg) (LayoutA cfg) a
                  (dataCoord (LayoutA cfg) 0 lda (fst mc, 0) + Suc t * incrA cfg lda) lda"
    unfolding lds_loop_body a by (rule stagedA_stage [OF sup]) simp
  have sb: "stagedB cfg w (lds (loop_body cfg w a b lda ldb ?s))
              = load_matrix_sync (BlockK cfg) (BlockN cfg) (LayoutB cfg) b
                  (dataCoord (LayoutB cfg) 0 ldb (0, snd mc) + Suc t * incrB cfg ldb) ldb"
    unfolding lds_loop_body b by (rule stagedB_stage [OF sup]) simp
  show ?case
    unfolding funpow.simps comp_apply using acc sa sb by blast
qed

lemma drained_accumulator:
  assumes sup: "supported cfg w" and bn: "0 < BlockN cfg"
  shows "fragAcc (drain cfg w ((loop_body cfg w a b lda ldb ^^ t)
                   (prime cfg w a b lda ldb mc (fill_fragment (BlockM cfg * BlockN cfg) 0) shm)))
           = tile_product cfg a b lda ldb mc (Suc t * BlockK cfg)"
  unfolding fragAcc_drain
  using pipeline_invariant [OF sup bn, where a = a and b = b and lda = lda and ldb = ldb
      and t = t and mc = mc and shm = shm]
  by (simp only: mma_sync_extends [OF bn])

lemma dataCoord_tile:
  "dataCoord L 0 ld (r0, c0) + dataOffset L ld (r, c) = dataOffset L ld (r0 + r, c0 + c)"
  by (cases L) (simp_all add: dataCoord_def algebra_simps)

lemma recombine_nth:
  assumes "i < BlockM cfg * BlockN cfg"
  shows "recombine cfg c ldc alpha beta mc acc ! i
           = alpha * acc ! i
             + beta * c (dataOffset (LayoutC cfg) ldc
                           (fst mc + i div BlockN cfg, snd mc + i mod BlockN cfg))"
proof (cases "beta = 0")
  case True
  then show ?thesis using assms by (simp add: recombine_def fill_fragment_def)
next
  case False
  have "load_matrix_sync (BlockM cfg) (BlockN cfg) (LayoutC cfg) c
          (dataCoord (LayoutC cfg) 0 ldc (fst mc, snd mc)) ldc ! i
        = c (dataOffset (LayoutC cfg) ldc
               (fst mc + i div BlockN cfg, snd mc + i mod BlockN cfg))"
    using assms by (simp only: nth_load_matrix_sync tile_addr_def dataCoord_tile)
  then show ?thesis
    using assms False by (simp add: recombine_def)
qed

lemma length_recombine [simp]:
  "length (recombine cfg c ldc alpha beta mc acc) = BlockM cfg * BlockN cfg"
  by (simp add: recombine_def)

lemma tile_addr_inj:
  assumes "ld_ok L rows cols ld"
  shows "inj_on (tile_addr cols L addr ld) {..<rows * cols}"
  using assms by (cases L) (simp_all add: tile_addr_row_major_inj tile_addr_col_major_inj)

lemma wave_accumulator:
  assumes sup: "supported cfg w" and el: "eligible cfg w m n k"
    and bk: "0 < BlockK cfg" and bn: "0 < BlockN cfg"
    and stride: "alpha \<noteq> 0 \<longrightarrow> 0 < incrA cfg lda"
  shows "\<exists>r. mmaSyncLds cfg w m n k a b c d lda ldb ldc ldd alpha beta shm = Some r
           \<and> out_acc r
               = (if alpha \<noteq> 0
                  then tile_product cfg a b lda ldb
                         (matrixCoord (BlockM cfg) (BlockN cfg) (blockCoord w))
                         (k div BlockK cfg * BlockK cfg)
                  else fill_fragment (BlockM cfg * BlockN cfg) 0)
           \<and> out_d r
               = epilogue cfg c d ldc ldd alpha beta
                   (matrixCoord (BlockM cfg) (BlockN cfg) (blockCoord w)) (out_acc r)"
proof (cases "alpha = 0")
  case True
  then show ?thesis
    unfolding mmaSyncLds_eligible [OF el bk] Let_def
    by (simp add: skip_accumulation_def)
next
  case False
  with stride have pos: "0 < incrA cfg lda" by simp
  have "1 \<le> k div BlockK cfg"
    using el bk by (simp add: eligible_def div_greater_zero_iff Suc_leI)
  then have t: "Suc (k div BlockK cfg - Suc 0) = k div BlockK cfg" by simp
  show ?thesis
    unfolding mmaSyncLds_eligible [OF el bk] Let_def
    using False pos by (simp add: drained_accumulator [OF sup bn] t del: mult_Suc)
qed

lemma tile_product_nth:
  assumes "i < BlockM cfg * BlockN cfg"
  shows "tile_product cfg a b lda ldb mc K ! i
           = (\<Sum>h<K. a (dataOffset (LayoutA cfg) lda (fst mc + i div BlockN cfg, h))
                      * b (dataOffset (LayoutB cfg) ldb (h, snd mc + i mod BlockN cfg)))"
  using assms by (simp add: tile_product_def)

lemma wave_tile_written:
  assumes sup: "supported cfg w" and el: "eligible cfg w m n k"
    and bk: "0 < BlockK cfg" and bn: "0 < BlockN cfg"
    and stride: "alpha \<noteq> 0 \<longrightarrow> 0 < incrA cfg lda"
    and ld: "ld_ok (LayoutD cfg) (BlockM cfg) (BlockN cfg) ldd"
  shows "\<exists>r. mmaSyncLds cfg w m n k a b c d lda ldb ldc ldd alpha beta shm = Some r
           \<and> (\<forall>i<BlockM cfg * BlockN cfg.
                 out_d r (tile_addr (BlockN cfg) (LayoutD cfg)
                            (dataCoord (LayoutD cfg) 0 ldd
                               (matrixCoord (BlockM cfg) (BlockN cfg) (blockCoord w))) ldd i)
                 = gemm_elem cfg a b c lda ldb ldc alpha beta (k div BlockK cfg * BlockK cfg)
                     (fst (matrixCoord (BlockM cfg) (BlockN cfg) (blockCoord w)) + i div BlockN cfg)
                     (snd (matrixCoord (BlockM cfg) (BlockN cfg) (blockCoord w)) + i mod BlockN cfg))
           \<and> (\<forall>p. p \<notin> tile_of cfg ldd w \<longrightarrow> out_d r p = d p)"
proof -
  let ?mc = "matrixCoord (BlockM cfg) (BlockN cfg) (blockCoord w)"
  from wave_accumulator [OF sup el bk bn stride]
  obtain r where r: "mmaSyncLds cfg w m n k a b c d lda ldb ldc ldd alpha beta shm = Some r"
    and acc: "out_acc r
               = (if alpha \<noteq> 0
                  then tile_product cfg a b lda ldb ?mc (k div BlockK cfg * BlockK cfg)
                  else fill_fragment (BlockM cfg * BlockN cfg) 0)"
    and d: "out_d r = epilogue cfg c d ldc ldd alpha beta ?mc (out_acc r)"
    by blast
  have scaled: "alpha * out_acc r ! i
      = alpha * (\<Sum>h<k div BlockK cfg * BlockK cfg.
                   a (dataOffset (LayoutA cfg) lda (fst ?mc + i div BlockN cfg, h))
                   * b (dataOffset (LayoutB cfg) ldb (h, snd ?mc + i mod BlockN cfg)))"
    if "i < BlockM cfg * BlockN cfg" for i
    using that by (simp add: acc tile_product_nth fill_fragment_def)
  have hit: "out_d r (tile_addr (BlockN cfg) (LayoutD cfg)
                            (dataCoord (LayoutD cfg) 0 ldd ?mc) ldd i)
        = gemm_elem cfg a b c lda ldb ldc alpha beta (k div BlockK cfg * BlockK cfg)
            (fst ?mc + i div BlockN cfg) (snd ?mc + i mod BlockN cfg)"
    if i: "i < BlockM cfg * BlockN cfg" for i
    unfolding d epilogue_def
    by (simp only: store_matrix_sync_hit [OF tile_addr_inj [OF ld] i] recombine_nth [OF i]
          scaled [OF i] gemm_elem_def)
  have other: "out_d r p = d p" if "p \<notin> tile_of cfg ldd w" for p
    unfolding d epilogue_def using that
    by (intro store_matrix_sync_other) (simp add: tile_of_def)
  show ?thesis using r hit other by blast
qed

section \<open>Trip count of the steady-state loop\<close>




section \<open>Tiles of the output matrix\<close>

lemma tile_update_refl: "tile_update G L ld m n d d"
  by (simp add: tile_update_def)

lemma tile_update_trans:
  assumes "tile_update G L ld m n d d'" and "tile_update G L ld m n d' d''"
  shows "tile_update G L ld m n d d''"
  unfolding tile_update_def
proof
  fix p
  from assms(2) have "d'' p = d' p \<or> (\<exists>i<m. \<exists>j<n. p = dataOffset L ld (i, j) \<and> d'' p = G i j)"
    by (simp add: tile_update_def)
  moreover from assms(1)
  have "d' p = d p \<or> (\<exists>i<m. \<exists>j<n. p = dataOffset L ld (i, j) \<and> d' p = G i j)"
    by (simp add: tile_update_def)
  ultimately show "d'' p = d p \<or> (\<exists>i<m. \<exists>j<n. p = dataOffset L ld (i, j) \<and> d'' p = G i j)"
    by metis
qed

lemma dataOffset_inj:
  assumes "ld_ok L m n ld" and "i < m" and "j < n" and "i' < m" and "j' < n"
    and "dataOffset L ld (i, j) = dataOffset L ld (i', j')"
  shows "i = i' \<and> j = j'"
proof (cases L)
  case row_major
  with assms have e: "i * ld + j = i' * ld + j'" and lt: "j < ld" "j' < ld" by simp_all
  have "(i * ld + j) div ld = i" using lt(1) by simp
  moreover have "(i' * ld + j') div ld = i'" using lt(2) by simp
  ultimately have "i = i'" using e by simp
  with e show ?thesis by simp
next
  case col_major
  with assms have e: "j * ld + i = j' * ld + i'" and lt: "i < ld" "i' < ld" by simp_all
  have "(j * ld + i) div ld = j" using lt(1) by simp
  moreover have "(j' * ld + i') div ld = j'" using lt(2) by simp
  ultimately have "j = j'" using e by simp
  with e show ?thesis by simp
qed

lemma tile_update_keeps:
  assumes "tile_update G L ld m n d d'" and "ld_ok L m n ld" and "i < m" and "j < n"
    and "d (dataOffset L ld (i, j)) = G i j"
  shows "d' (dataOffset L ld (i, j)) = G i j"
proof -
  from assms(1)
  have "d' (dataOffset L ld (i, j)) = d (dataOffset L ld (i, j))
      \<or> (\<exists>i'<m. \<exists>j'<n. dataOffset L ld (i, j) = dataOffset L ld (i', j')
            \<and> d' (dataOffset L ld (i, j)) = G i' j')"
    by (simp add: tile_update_def)
  then show ?thesis
  proof
    assume "d' (dataOffset L ld (i, j)) = d (dataOffset L ld (i, j))"
    with assms(5) show ?thesis by simp
  next
    assume "\<exists>i'<m. \<exists>j'<n. dataOffset L ld (i, j) = dataOffset L ld (i', j')
              \<and> d' (dataOffset L ld (i, j)) = G i' j'"
    then obtain i' j' where "i' < m" "j' < n"
      "dataOffset L ld (i, j) = dataOffset L ld (i', j')" "d' (dataOffset L ld (i, j)) = G i' j'"
      by blast
    with dataOffset_inj [OF assms(2,3,4)] show ?thesis by metis
  qed
qed

lemma ld_ok_mono:
  assumes "ld_ok L m n ld" and "m' \<le> m" and "n' \<le> n"
  shows "ld_ok L m' n' ld"
  using assms by (cases L) simp_all

text \<open>An eligible wave's tile lies inside a matrix made of whole tiles.\<close>

lemma eligible_tile_inside:
  assumes "eligible cfg w m n k" and "BlockM cfg dvd m" and "BlockN cfg dvd n"
  shows "fst (matrixCoord (BlockM cfg) (BlockN cfg) (blockCoord w)) + BlockM cfg \<le> m"
    and "snd (matrixCoord (BlockM cfg) (BlockN cfg) (blockCoord w)) + BlockN cfg \<le> n"
proof -
  have whole: "x * B + B \<le> e" if "x * B < e" and "B dvd e" for x B e :: nat
  proof -
    from that(2) obtain q where "e = B * q" by (rule dvdE)
    then have q: "e = q * B" by (simp add: mult.commute)
    with that(1) have "x < q" by (cases "B = 0") auto
    then have "Suc x * B \<le> q * B" by (intro mult_le_mono1) simp
    with q show ?thesis by simp
  qed
  from assms(1) have "fst (blockCoord w) * BlockM cfg < m" "snd (blockCoord w) * BlockN cfg < n"
    by (simp_all add: eligible_def matrixCoord_def)
  then show "fst (matrixCoord (BlockM cfg) (BlockN cfg) (blockCoord w)) + BlockM cfg \<le> m"
    and "snd (matrixCoord (BlockM cfg) (BlockN cfg) (blockCoord w)) + BlockN cfg \<le> n"
    using assms(2,3) by (simp_all add: matrixCoord_def whole)
qed

lemma wave_advances:
  assumes sup: "supported cfg w" and ib: "in_bounds_problem cfg m n k lda ldd"
  shows "\<exists>r. mmaSyncLds cfg w m n k a b c d lda ldb ldc ldd alpha beta shm = Some r
           \<and> tile_update (gemm_elem cfg a b c lda ldb ldc alpha beta k) (LayoutD cfg) ldd m n
               d (out_d r)
           \<and> (\<forall>i<m. \<forall>j<n. BlockK cfg < k
                 \<longrightarrow> blockCoord w = (i div BlockM cfg, j div BlockN cfg)
                 \<longrightarrow> out_d r (dataOffset (LayoutD cfg) ldd (i, j))
                       = gemm_elem cfg a b c lda ldb ldc alpha beta k i j)"
proof (cases "eligible cfg w m n k")
  case False
  have "\<not> (BlockK cfg < k \<and> blockCoord w = (i div BlockM cfg, j div BlockN cfg))"
    if "i < m" "j < n" for i j
  proof
    assume h: "BlockK cfg < k \<and> blockCoord w = (i div BlockM cfg, j div BlockN cfg)"
    have "i div BlockM cfg * BlockM cfg < m"
      by (rule le_less_trans [OF div_times_less_eq_dividend that(1)])
    moreover have "j div BlockN cfg * BlockN cfg < n"
      by (rule le_less_trans [OF div_times_less_eq_dividend that(2)])
    ultimately have "eligible cfg w m n k"
      using h by (simp add: eligible_def matrixCoord_def)
    with False show False by simp
  qed
  then show ?thesis
    unfolding mmaSyncLds_idle [OF False] by (simp add: tile_update_refl)
next
  case True
  let ?mc = "matrixCoord (BlockM cfg) (BlockN cfg) (blockCoord w)"
  let ?G = "gemm_elem cfg a b c lda ldb ldc alpha beta k"
  from ib have bm: "0 < BlockM cfg" and bn: "0 < BlockN cfg" and bk: "0 < BlockK cfg"
    and dm: "BlockM cfg dvd m" and dn: "BlockN cfg dvd n" and dk: "BlockK cfg dvd k"
    and ld: "ld_ok (LayoutD cfg) m n ldd" and st: "LayoutA cfg = col_major \<longrightarrow> 0 < lda"
    by (simp_all add: in_bounds_problem_def)
  have stride: "alpha \<noteq> 0 \<longrightarrow> 0 < incrA cfg lda"
    using bk st by (simp add: incrA_pos_iff)
  have inside: "fst ?mc + BlockM cfg \<le> m" "snd ?mc + BlockN cfg \<le> n"
    by (rule eligible_tile_inside [OF True dm dn])+
  then have "BlockM cfg \<le> m" "BlockN cfg \<le> n" by simp_all
  then have ldt: "ld_ok (LayoutD cfg) (BlockM cfg) (BlockN cfg) ldd"
    by (rule ld_ok_mono [OF ld])
  have kk: "k div BlockK cfg * BlockK cfg = k" using dk by simp
  from wave_tile_written [OF sup True bk bn stride ldt, unfolded kk]
  obtain r where r: "mmaSyncLds cfg w m n k a b c d lda ldb ldc ldd alpha beta shm = Some r"
    and hit: "\<And>t. t < BlockM cfg * BlockN cfg \<Longrightarrow>
                out_d r (tile_addr (BlockN cfg) (LayoutD cfg)
                           (dataCoord (LayoutD cfg) 0 ldd ?mc) ldd t)
                = ?G (fst ?mc + t div BlockN cfg) (snd ?mc + t mod BlockN cfg)"
    and other: "\<And>p. p \<notin> tile_of cfg ldd w \<Longrightarrow> out_d r p = d p"
    by blast
  have addr: "tile_addr (BlockN cfg) (LayoutD cfg) (dataCoord (LayoutD cfg) 0 ldd ?mc) ldd t
        = dataOffset (LayoutD cfg) ldd (fst ?mc + t div BlockN cfg, snd ?mc + t mod BlockN cfg)"
    for t
    unfolding tile_addr_def using dataCoord_tile [of "LayoutD cfg" ldd "fst ?mc" "snd ?mc"]
    by simp
  have upd: "tile_update ?G (LayoutD cfg) ldd m n d (out_d r)"
    unfolding tile_update_def
  proof
    fix p
    show "out_d r p = d p
        \<or> (\<exists>i<m. \<exists>j<n. p = dataOffset (LayoutD cfg) ldd (i, j) \<and> out_d r p = ?G i j)"
    proof (cases "p \<in> tile_of cfg ldd w")
      case False
      then show ?thesis by (simp add: other)
    next
      case True
      then obtain t where t: "t < BlockM cfg * BlockN cfg"
        and p: "p = tile_addr (BlockN cfg) (LayoutD cfg)
                      (dataCoord (LayoutD cfg) 0 ldd ?mc) ldd t"
        by (auto simp: tile_of_def)
      have "t div BlockN cfg < BlockM cfg" using t by (simp add: less_mult_imp_div_less)
      with inside(1) have i: "fst ?mc + t div BlockN cfg < m" by linarith
      have "t mod BlockN cfg < BlockN cfg" using bn by simp
      with inside(2) have j: "snd ?mc + t mod BlockN cfg < n" by linarith
      have "out_d r p = ?G (fst ?mc + t div BlockN cfg) (snd ?mc + t mod BlockN cfg)"
        unfolding p by (rule hit [OF t])
      moreover have "p = dataOffset (LayoutD cfg) ldd
                           (fst ?mc + t div BlockN cfg, snd ?mc + t mod BlockN cfg)"
        unfolding p by (rule addr)
      ultimately show ?thesis using i j by blast
    qed
  qed
  have cover: "out_d r (dataOffset (LayoutD cfg) ldd (i, j)) = ?G i j"
    if bc: "blockCoord w = (i div BlockM cfg, j div BlockN cfg)" for i j
  proof -
    let ?t = "i mod BlockM cfg * BlockN cfg + j mod BlockN cfg"
    have ri: "i mod BlockM cfg < BlockM cfg" and rj: "j mod BlockN cfg < BlockN cfg"
      using bm bn by simp_all
    note ti = tile_index [OF ri rj]
    have fi: "fst ?mc + ?t div BlockN cfg = i"
      unfolding ti(2) by (simp add: matrixCoord_def bc)
    have fj: "snd ?mc + ?t mod BlockN cfg = j"
      unfolding ti(3) by (simp add: matrixCoord_def bc)
    from hit [OF ti(1)] show ?thesis
      unfolding addr fi fj .
  qed
  show ?thesis using r upd cover by blast
qed

lemma run_waves_advances:
  assumes sup: "\<forall>w\<in>set ws. supported cfg w" and ib: "in_bounds_problem cfg m n k lda ldd"
  shows "\<exists>shm' d'. run_waves cfg m n k a b c lda ldb ldc ldd alpha beta ws shm d = Some (shm', d')
           \<and> tile_update (gemm_elem cfg a b c lda ldb ldc alpha beta k) (LayoutD cfg) ldd m n d d'
           \<and> (\<forall>i<m. \<forall>j<n. BlockK cfg < k
                 \<longrightarrow> (\<exists>w\<in>set ws. blockCoord w = (i div BlockM cfg, j div BlockN cfg))
                 \<longrightarrow> d' (dataOffset (LayoutD cfg) ldd (i, j))
                       = gemm_elem cfg a b c lda ldb ldc alpha beta k i j)"
  using sup
proof (induction ws arbitrary: shm d)
  case Nil
  then show ?case by (simp add: tile_update_refl)
next
  case (Cons w ws)
  let ?G = "gemm_elem cfg a b c lda ldb ldc alpha beta k"
  from ib have ld: "ld_ok (LayoutD cfg) m n ldd" by (simp add: in_bounds_problem_def)
  from Cons.prems have sw: "supported cfg w" and sws: "\<forall>w\<in>set ws. supported cfg w"
    by simp_all
  from wave_advances [OF sw ib, of a b c d ldb ldc alpha beta shm]
  obtain r where r: "mmaSyncLds cfg w m n k a b c d lda ldb ldc ldd alpha beta shm = Some r"
    and u1: "tile_update ?G (LayoutD cfg) ldd m n d (out_d r)"
    and c1: "\<And>i j. i < m \<Longrightarrow> j < n \<Longrightarrow> BlockK cfg < k
               \<Longrightarrow> blockCoord w = (i div BlockM cfg, j div BlockN cfg)
               \<Longrightarrow> out_d r (dataOffset (LayoutD cfg) ldd (i, j)) = ?G i j"
    by blast
  from Cons.IH [OF sws, of "out_lds r" "out_d r"]
  obtain shm' d' where
    run: "run_waves cfg m n k a b c lda ldb ldc ldd alpha beta ws (out_lds r) (out_d r)
            = Some (shm', d')"
    and u2: "tile_update ?G (LayoutD cfg) ldd m n (out_d r) d'"
    and c2: "\<And>i j. i < m \<Longrightarrow> j < n \<Longrightarrow> BlockK cfg < k
               \<Longrightarrow> \<exists>w\<in>set ws. blockCoord w = (i div BlockM cfg, j div BlockN cfg)
               \<Longrightarrow> d' (dataOffset (LayoutD cfg) ldd (i, j)) = ?G i j"
    by blast
  have run': "run_waves cfg m n k a b c lda ldb ldc ldd alpha beta (w # ws) shm d
                = Some (shm', d')"
    by (simp add: r run)
  have u: "tile_update ?G (LayoutD cfg) ldd m n d d'"
    by (rule tile_update_trans [OF u1 u2])
  have cov: "d' (dataOffset (LayoutD cfg) ldd (i, j)) = ?G i j"
    if "i < m" "j < n" "BlockK cfg < k"
      "\<exists>v\<in>set (w # ws). blockCoord v = (i div BlockM cfg, j div BlockN cfg)" for i j
  proof (cases "blockCoord w = (i div BlockM cfg, j div BlockN cfg)")
    case True
    from c1 [OF that(1,2,3) True] show ?thesis
      by (rule tile_update_keeps [OF u2 ld that(1,2)])
  next
    case False
    with that(4) have "\<exists>v\<in>set ws. blockCoord v = (i div BlockM cfg, j div BlockN cfg)"
      by simp
    then show ?thesis by (rule c2 [OF that(1,2,3)])
  qed
  show ?case using run' u cov by blast
qed

lemma workgroup_waves_supported:
  assumes "static_asserts cfg = None" and "AMDGCN_WAVE_SIZE cfg = 64"
  shows "\<forall>w\<in>set (workgroup_waves wgDim bid). supported cfg w"
  using assms by (auto simp: workgroup_waves_def supported_def in_workgroup_def)

lemma run_workgroups_advances:
  assumes sa: "static_asserts cfg = None" and w64: "AMDGCN_WAVE_SIZE cfg = 64"
    and ib: "in_bounds_problem cfg m n k lda ldd"
  shows "\<exists>d'. run_workgroups cfg wgDim m n k a b c lda ldb ldc ldd alpha beta shm bids d = Some d'
           \<and> tile_update (gemm_elem cfg a b c lda ldb ldc alpha beta k) (LayoutD cfg) ldd m n d d'
           \<and> (\<forall>i<m. \<forall>j<n. BlockK cfg < k
                 \<longrightarrow> (\<exists>bid\<in>set bids. \<exists>w\<in>set (workgroup_waves wgDim bid).
                        blockCoord w = (i div BlockM cfg, j div BlockN cfg))
                 \<longrightarrow> d' (dataOffset (LayoutD cfg) ldd (i, j))
                       = gemm_elem cfg a b c lda ldb ldc alpha beta k i j)"
proof (induction bids arbitrary: d)
  case Nil
  then show ?case by (simp add: tile_update_refl)
next
  case (Cons bid bids)
  let ?G = "gemm_elem cfg a b c lda ldb ldc alpha beta k"
  from ib have ld: "ld_ok (LayoutD cfg) m n ldd" by (simp add: in_bounds_problem_def)
  from run_waves_advances [OF workgroup_waves_supported [OF sa w64, of wgDim bid] ib,
      where a = a and b = b and c = c and ldb = ldb and ldc = ldc and alpha = alpha
        and beta = beta and shm = shm and d = d]
  obtain shm1 d1 where
    r1: "run_waves cfg m n k a b c lda ldb ldc ldd alpha beta (workgroup_waves wgDim bid) shm d
           = Some (shm1, d1)"
    and u1: "tile_update ?G (LayoutD cfg) ldd m n d d1"
    and c1: "\<And>i j. i < m \<Longrightarrow> j < n \<Longrightarrow> BlockK cfg < k
               \<Longrightarrow> \<exists>w\<in>set (workgroup_waves wgDim bid).
                      blockCoord w = (i div BlockM cfg, j div BlockN cfg)
               \<Longrightarrow> d1 (dataOffset (LayoutD cfg) ldd (i, j)) = ?G i j"
    by blast
  from Cons.IH [of d1]
  obtain d' where
    r2: "run_workgroups cfg wgDim m n k a b c lda ldb ldc ldd alpha beta shm bids d1 = Some d'"
    and u2: "tile_update ?G (LayoutD cfg) ldd m n d1 d'"
    and c2: "\<And>i j. i < m \<Longrightarrow> j < n \<Longrightarrow> BlockK cfg < k
               \<Longrightarrow> \<exists>bid\<in>set bids. \<exists>w\<in>set (workgroup_waves wgDim bid).
                      blockCoord w = (i div BlockM cfg, j div BlockN cfg)
               \<Longrightarrow> d' (dataOffset (LayoutD cfg) ldd (i, j)) = ?G i j"
    by blast
  have run: "run_workgroups cfg wgDim m n k a b c lda ldb ldc ldd alpha beta shm (bid # bids) d
               = Some d'"
    by (simp add: r1 r2)
  have u: "tile_update ?G (LayoutD cfg) ldd m n d d'"
    by (rule tile_update_trans [OF u1 u2])
  have cov: "d' (dataOffset (LayoutD cfg) ldd (i, j)) = ?G i j"
    if "i < m" "j < n" "BlockK cfg < k"
      "\<exists>b\<in>set (bid # bids). \<exists>w\<in>set (workgroup_waves wgDim b).
          blockCoord w = (i div BlockM cfg, j div BlockN cfg)" for i j
  proof (cases "\<exists>w\<in>set (workgroup_waves wgDim bid).
                   blockCoord w = (i div BlockM cfg, j div BlockN cfg)")
    case True
    from c1 [OF that(1,2,3) True] show ?thesis
      by (rule tile_update_keeps [OF u2 ld that(1,2)])
  next
    case False
    with that(4) have "\<exists>b\<in>set bids. \<exists>w\<in>set (workgroup_waves wgDim b).
        blockCoord w = (i div BlockM cfg, j div BlockN cfg)"
      by simp
    then show ?thesis by (rule c2 [OF that(1,2,3)])
  qed
  show ?case using run u cov by blast
qed

lemma in_grid_blocks:
  assumes "x < fst gridDim" and "y < snd gridDim"
  shows "(x, y) \<in> set (grid_blocks gridDim)"
proof -
  have "(x, y) \<in> set (map (\<lambda>by. (x, by)) [0..<snd gridDim])"
    using assms(2) by simp
  moreover have "map (\<lambda>by. (x, by)) [0..<snd gridDim]
      \<in> set (map (\<lambda>bx. map (\<lambda>by. (bx, by)) [0..<snd gridDim]) [0..<fst gridDim])"
    unfolding set_map using assms(1) by (intro imageI) simp
  ultimately show ?thesis
    unfolding grid_blocks_def set_concat by blast
qed

lemma in_workgroup_waves:
  assumes "x < fst wgDim" and "y < snd wgDim"
  shows "\<lparr>blockIdx = bid, waveCoord = (x, y), workgroupDim = wgDim\<rparr>
           \<in> set (workgroup_waves wgDim bid)"
proof -
  let ?row = "\<lambda>wx. map (\<lambda>wy. \<lparr>blockIdx = bid, waveCoord = (wx, wy), workgroupDim = wgDim\<rparr>)
                       [0..<snd wgDim]"
  have "\<lparr>blockIdx = bid, waveCoord = (x, y), workgroupDim = wgDim\<rparr> \<in> set (?row x)"
    using assms(2) by simp
  moreover have "?row x \<in> set (map ?row [0..<fst wgDim])"
    unfolding set_map using assms(1) by (intro imageI) simp
  ultimately show ?thesis
    unfolding workgroup_waves_def set_concat by blast
qed

text \<open>A grid that covers the matrix has a wave for every tile.\<close>

lemma grid_covers:
  assumes "q1 < fst gridDim * fst wgDim" and "q2 < snd gridDim * snd wgDim"
  shows "\<exists>bid\<in>set (grid_blocks gridDim). \<exists>w\<in>set (workgroup_waves wgDim bid).
           blockCoord w = (q1, q2)"
proof -
  let ?bid = "(q1 div fst wgDim, q2 div snd wgDim)"
  let ?w = "\<lparr>blockIdx = ?bid, waveCoord = (q1 mod fst wgDim, q2 mod snd wgDim),
             workgroupDim = wgDim\<rparr>"
  have p1: "0 < fst wgDim" using assms(1) by (cases "fst wgDim") auto
  have p2: "0 < snd wgDim" using assms(2) by (cases "snd wgDim") auto
  have "q1 div fst wgDim < fst gridDim" "q2 div snd wgDim < snd gridDim"
    using assms by (simp_all add: less_mult_imp_div_less)
  then have "?bid \<in> set (grid_blocks gridDim)"
    by (rule in_grid_blocks)
  moreover have "?w \<in> set (workgroup_waves wgDim ?bid)"
    using p1 p2 by (intro in_workgroup_waves) simp_all
  moreover have "blockCoord ?w = (q1, q2)"
    by (simp add: blockCoord_def)
  ultimately show ?thesis by blast
qed

section \<open>Properties of the reference GEMM\<close>

lemma fold_accumulate:
  fixes F :: "nat \<Rightarrow> 'a::comm_monoid_add"
  shows "fold (\<lambda>h accum. accum + F h) [0..<k] z = z + (\<Sum>h<k. F h)"
  by (induction k) (simp_all add: add.assoc)

lemma index_of_dataOffset: "index_of L i j ld = dataOffset L ld (i, j)"
  by (cases L) (simp_all add: index_of_def rowMjr_def colMjr_def)

lemma gemm_accum_sum:
  "gemm_accum LA LB k a b lda ldb i j
     = (\<Sum>h<k. a (dataOffset LA lda (i, h)) * b (dataOffset LB ldb (h, j)))"
  by (simp add: gemm_accum_def fold_accumulate index_of_dataOffset)

lemma fold2_other:
  assumes "\<forall>i\<in>set xs. \<forall>j\<in>set ys. p \<noteq> f i j"
  shows "fold (\<lambda>i d1. fold (\<lambda>j d2. d2(f i j := g i j)) ys d1) xs d p = d p"
  using assms
proof (induction xs arbitrary: d)
  case Nil
  then show ?case by simp
next
  case (Cons x xs)
  have "p \<notin> f x ` set ys" using Cons.prems by auto
  then have inner: "fold (\<lambda>j d2. d2(f x j := g x j)) ys d p = d p"
    by (rule fold_upd_other)
  have "fold (\<lambda>i d1. fold (\<lambda>j d2. d2(f i j := g i j)) ys d1) xs
          (fold (\<lambda>j d2. d2(f x j := g x j)) ys d) p
        = fold (\<lambda>j d2. d2(f x j := g x j)) ys d p"
    using Cons.prems by (intro Cons.IH) simp
  with inner show ?case by (simp only: fold_simps comp_apply)
qed

lemma fold2_hit:
  assumes "distinct xs" and "distinct ys"
    and "\<forall>i\<in>set xs. \<forall>j\<in>set ys. \<forall>i'\<in>set xs. \<forall>j'\<in>set ys.
           f i j = f i' j' \<longrightarrow> i = i' \<and> j = j'"
    and "i \<in> set xs" and "j \<in> set ys"
  shows "fold (\<lambda>i d1. fold (\<lambda>j d2. d2(f i j := g i j)) ys d1) xs d (f i j) = g i j"
  using assms(1,3,4)
proof (induction xs arbitrary: d)
  case Nil
  then show ?case by simp
next
  case (Cons x xs)
  show ?case
  proof (cases "i = x")
    case True
    have inj: "inj_on (f x) (set ys)"
      using Cons.prems(2) by (auto simp: inj_on_def)
    have inner: "fold (\<lambda>j d2. d2(f x j := g x j)) ys d (f x j) = g x j"
      by (rule fold_upd_hit [OF assms(2) inj assms(5)])
    have "\<forall>i'\<in>set xs. \<forall>j'\<in>set ys. f x j \<noteq> f i' j'"
      using Cons.prems(1,2) assms(5) by (metis distinct.simps(2) list.set_intros(1,2))
    then have "fold (\<lambda>i d1. fold (\<lambda>j d2. d2(f i j := g i j)) ys d1) xs
          (fold (\<lambda>j d2. d2(f x j := g x j)) ys d) (f x j)
        = fold (\<lambda>j d2. d2(f x j := g x j)) ys d (f x j)"
      by (rule fold2_other)
    with inner show ?thesis unfolding True by (simp only: fold_simps comp_apply)
  next
    case False
    then have i: "i \<in> set xs" using Cons.prems(3) by simp
    have d: "distinct xs" using Cons.prems(1) by simp
    have inj: "\<forall>i\<in>set xs. \<forall>j\<in>set ys. \<forall>i'\<in>set xs. \<forall>j'\<in>set ys.
           f i j = f i' j' \<longrightarrow> i = i' \<and> j = j'"
      using Cons.prems(2) by simp
    have "fold (\<lambda>i d1. fold (\<lambda>j d2. d2(f i j := g i j)) ys d1) xs
          (fold (\<lambda>j d2. d2(f x j := g x j)) ys d) (f i j) = g i j"
      by (rule Cons.IH [OF d inj i])
    then show ?thesis by (simp only: fold_simps comp_apply)
  qed
qed

lemma gemm_cpu_h_other:
  assumes "\<forall>i<m. \<forall>j<n. p \<noteq> dataOffset LD ldd (i, j)"
  shows "gemm_cpu_h LA LB LC LD m n k a b c d lda ldb ldc ldd alpha beta p = d p"
  unfolding gemm_cpu_h_def index_of_dataOffset
  by (rule fold2_other) (use assms in simp)

lemma gemm_cpu_h_hit:
  assumes "ld_ok LD m n ldd" and "i < m" and "j < n"
  shows "gemm_cpu_h LA LB LC LD m n k a b c d lda ldb ldc ldd alpha beta
           (dataOffset LD ldd (i, j))
         = alpha * (\<Sum>h<k. a (dataOffset LA lda (i, h)) * b (dataOffset LB ldb (h, j)))
           + beta * c (dataOffset LC ldc (i, j))"
proof -
  have inj: "\<forall>i\<in>set [0..<m]. \<forall>j\<in>set [0..<n]. \<forall>i'\<in>set [0..<m]. \<forall>j'\<in>set [0..<n].
      dataOffset LD ldd (i, j) = dataOffset LD ldd (i', j') \<longrightarrow> i = i' \<and> j = j'"
    using dataOffset_inj [OF assms(1)] by auto
  have "fold (\<lambda>i d1. fold (\<lambda>j d2. d2(dataOffset LD ldd (i, j) :=
            alpha * gemm_accum LA LB k a b lda ldb i j + beta * c (dataOffset LC ldc (i, j))))
          [0..<n] d1) [0..<m] d (dataOffset LD ldd (i, j))
        = alpha * gemm_accum LA LB k a b lda ldb i j + beta * c (dataOffset LC ldc (i, j))"
    by (rule fold2_hit [OF distinct_upt distinct_upt inj]) (use assms in simp_all)
  then show ?thesis
    unfolding gemm_cpu_h_def index_of_dataOffset gemm_accum_sum .
qed

section \<open>The launch against the reference\<close>

lemma launch_advances:
  assumes sa: "static_asserts cfg = None" and w64: "AMDGCN_WAVE_SIZE cfg = 64"
    and ib: "in_bounds_problem cfg m n k lda ldd"
    and cm: "m \<le> BlockM cfg * (fst gridDim * fst wgDim)"
    and cn: "n \<le> BlockN cfg * (snd gridDim * snd wgDim)"
  shows "\<exists>d'. launch cfg gridDim wgDim m n k a b c d lda ldb ldc ldd alpha beta shm = Some d'
           \<and> (\<forall>p. (\<forall>i<m. \<forall>j<n. p \<noteq> dataOffset (LayoutD cfg) ldd (i, j)) \<longrightarrow> d' p = d p)
           \<and> (BlockK cfg < k \<longrightarrow>
                (\<forall>i<m. \<forall>j<n. d' (dataOffset (LayoutD cfg) ldd (i, j))
                                = gemm_elem cfg a b c lda ldb ldc alpha beta k i j))"
proof -
  let ?G = "gemm_elem cfg a b c lda ldb ldc alpha beta k"
  from run_workgroups_advances [OF sa w64 ib, where wgDim = wgDim and a = a and b = b and c = c
      and ldb = ldb and ldc = ldc and alpha = alpha and beta = beta and shm = shm
      and bids = "grid_blocks gridDim" and d = d]
  obtain d' where
    run: "launch cfg gridDim wgDim m n k a b c d lda ldb ldc ldd alpha beta shm = Some d'"
    and u: "tile_update ?G (LayoutD cfg) ldd m n d d'"
    and cov: "\<And>i j. i < m \<Longrightarrow> j < n \<Longrightarrow> BlockK cfg < k
               \<Longrightarrow> \<exists>bid\<in>set (grid_blocks gridDim). \<exists>w\<in>set (workgroup_waves wgDim bid).
                      blockCoord w = (i div BlockM cfg, j div BlockN cfg)
               \<Longrightarrow> d' (dataOffset (LayoutD cfg) ldd (i, j)) = ?G i j"
    unfolding launch_def by blast
  have frame: "d' p = d p" if "\<forall>i<m. \<forall>j<n. p \<noteq> dataOffset (LayoutD cfg) ldd (i, j)" for p
    using u that unfolding tile_update_def by blast
  have hit: "d' (dataOffset (LayoutD cfg) ldd (i, j)) = ?G i j"
    if "BlockK cfg < k" "i < m" "j < n" for i j
  proof -
    have "i < BlockM cfg * (fst gridDim * fst wgDim)" using that(2) cm by simp
    then have q1: "i div BlockM cfg < fst gridDim * fst wgDim"
      by (simp add: less_mult_imp_div_less mult.commute)
    have "j < BlockN cfg * (snd gridDim * snd wgDim)" using that(3) cn by simp
    then have q2: "j div BlockN cfg < snd gridDim * snd wgDim"
      by (simp add: less_mult_imp_div_less mult.commute)
    from cov [OF that(2,3,1) grid_covers [OF q1 q2]] show ?thesis .
  qed
  show ?thesis using run frame hit by blast
qed

lemma launch_is_reference:
  assumes sa: "static_asserts cfg = None" and w64: "AMDGCN_WAVE_SIZE cfg = 64"
    and ib: "in_bounds_problem cfg m n k lda ldd" and el: "BlockK cfg < k"
    and cm: "m \<le> BlockM cfg * (fst gridDim * fst wgDim)"
    and cn: "n \<le> BlockN cfg * (snd gridDim * snd wgDim)"
  shows "launch cfg gridDim wgDim m n k a b c d lda ldb ldc ldd alpha beta shm
         = Some (gemm_cpu_h (LayoutA cfg) (LayoutB cfg) (LayoutC cfg) (LayoutD cfg)
                   m n k a b c d lda ldb ldc ldd alpha beta)"
proof -
  let ?ref = "gemm_cpu_h (LayoutA cfg) (LayoutB cfg) (LayoutC cfg) (LayoutD cfg)
                   m n k a b c d lda ldb ldc ldd alpha beta"
  from ib have ld: "ld_ok (LayoutD cfg) m n ldd" by (simp add: in_bounds_problem_def)
  from launch_advances [OF sa w64 ib cm cn, where a = a and b = b and c = c and d = d
      and ldb = ldb and ldc = ldc and alpha = alpha and beta = beta and shm = shm]
  obtain d' where
    run: "launch cfg gridDim wgDim m n k a b c d lda ldb ldc ldd alpha beta shm = Some d'"
    and frame: "\<And>p. \<forall>i<m. \<forall>j<n. p \<noteq> dataOffset (LayoutD cfg) ldd (i, j) \<Longrightarrow> d' p = d p"
    and hit: "\<And>i j. i < m \<Longrightarrow> j < n \<Longrightarrow> d' (dataOffset (LayoutD cfg) ldd (i, j))
                = gemm_elem cfg a b c lda ldb ldc alpha beta k i j"
    using el by blast
  have "d' p = ?ref p" for p
  proof (cases "\<forall>i<m. \<forall>j<n. p \<noteq> dataOffset (LayoutD cfg) ldd (i, j)")
    case True
    then show ?thesis by (simp add: frame gemm_cpu_h_other)
  next
    case False
    then obtain i j where ij: "i < m" "j < n" and p: "p = dataOffset (LayoutD cfg) ldd (i, j)"
      by blast
    show ?thesis
      unfolding p by (simp only: hit [OF ij] gemm_cpu_h_hit [OF ld ij] gemm_elem_def)
  qed
  then have "d' = ?ref" by (rule ext)
  with run show ?thesis by simp
qed

lemma run_waves_idle:
  assumes "\<not> BlockK cfg < k"
  shows "run_waves cfg m n k a b c lda ldb ldc ldd alpha beta ws shm d = Some (shm, d)"
proof (induction ws)
  case Nil
  show ?case by simp
next
  case (Cons w ws)
  have "\<not> eligible cfg w m n k" using assms by (simp add: eligible_def)
  then show ?case by (simp add: mmaSyncLds_idle Cons.IH)
qed

lemma launch_idle:
  assumes "\<not> BlockK cfg < k"
  shows "launch cfg gridDim wgDim m n k a b c d lda ldb ldc ldd alpha beta shm = Some d"
proof -
  have "run_workgroups cfg wgDim m n k a b c lda ldb ldc ldd alpha beta shm bids d = Some d"
    for bids
    by (induction bids) (simp_all add: run_waves_idle [OF assms])
  then show ?thesis by (simp add: launch_def)
qed

section \<open>Eligibility and the boundary of the matrix\<close>

text \<open>
  What the guard of line 96 does. A wave proceeds only if the top-left element of its
  tile lies inside the output matrix and \<open>BlockK < k\<close>; a wave whose tile starts outside
  the matrix, or whose reduction extent is below one block, does no work: D and the
  staging buffer are left as they were, nothing is loaded and nothing is accumulated.
  When the matrix consists of whole tiles, \<open>k\<close> is a multiple of \<open>BlockK\<close> above
  \<open>BlockK\<close>, and the grid covers the matrix, possibly with waves to spare, every
  element of the matrix gets its GEMM value and every other address of D keeps its
  content.
\<close>

lemma idle_waves_and_whole_tiles:
  "(\<forall>r. mmaSyncLds cfg w m n k a b c d lda ldb ldc ldd alpha beta shm = Some r \<longrightarrow> proceeded r
        \<longrightarrow> fst (matrixCoord (BlockM cfg) (BlockN cfg) (blockCoord w)) < m
          \<and> snd (matrixCoord (BlockM cfg) (BlockN cfg) (blockCoord w)) < n
          \<and> BlockK cfg \<le> k)
   \<and> (m \<le> fst (matrixCoord (BlockM cfg) (BlockN cfg) (blockCoord w))
        \<or> n \<le> snd (matrixCoord (BlockM cfg) (BlockN cfg) (blockCoord w))
        \<or> k < BlockK cfg
      \<longrightarrow> mmaSyncLds cfg w m n k a b c d lda ldb ldc ldd alpha beta shm
            = Some \<lparr>out_d = d, out_lds = shm, out_acc = [], n_ab_loads = 0, n_mma = 0,
                    n_iterations = 0, proceeded = False\<rparr>)
   \<and> (static_asserts cfg = None \<and> AMDGCN_WAVE_SIZE cfg = 64
        \<and> in_bounds_problem cfg m n k lda ldd \<and> BlockK cfg < k
        \<and> m \<le> BlockM cfg * (fst gridDim * fst wgDim)
        \<and> n \<le> BlockN cfg * (snd gridDim * snd wgDim)
      \<longrightarrow> (\<exists>d'. launch cfg gridDim wgDim m n k a b c d lda ldb ldc ldd alpha beta shm = Some d'
             \<and> (\<forall>i<m. \<forall>j<n. d' (dataOffset (LayoutD cfg) ldd (i, j))
                               = gemm_elem cfg a b c lda ldb ldc alpha beta k i j)
             \<and> (\<forall>p. (\<forall>i<m. \<forall>j<n. p \<noteq> dataOffset (LayoutD cfg) ldd (i, j)) \<longrightarrow> d' p = d p)))"
proof (intro conjI impI allI)
  fix r
  assume r: "mmaSyncLds cfg w m n k a b c d lda ldb ldc ldd alpha beta shm = Some r"
    and p: "proceeded r"
  have el: "eligible cfg w m n k"
  proof (rule ccontr)
    assume "\<not> eligible cfg w m n k"
    from r [unfolded mmaSyncLds_idle [OF this]] p show False by auto
  qed
  then show "fst (matrixCoord (BlockM cfg) (BlockN cfg) (blockCoord w)) < m"
    and "snd (matrixCoord (BlockM cfg) (BlockN cfg) (blockCoord w)) < n"
    and "BlockK cfg \<le> k"
    by (simp_all add: eligible_def)
next
  assume "m \<le> fst (matrixCoord (BlockM cfg) (BlockN cfg) (blockCoord w))
        \<or> n \<le> snd (matrixCoord (BlockM cfg) (BlockN cfg) (blockCoord w))
        \<or> k < BlockK cfg"
  then have "\<not> eligible cfg w m n k" by (auto simp: eligible_def)
  then show "mmaSyncLds cfg w m n k a b c d lda ldb ldc ldd alpha beta shm
            = Some \<lparr>out_d = d, out_lds = shm, out_acc = [], n_ab_loads = 0, n_mma = 0,
                    n_iterations = 0, proceeded = False\<rparr>"
    by (rule mmaSyncLds_idle)
next
  assume h: "static_asserts cfg = None \<and> AMDGCN_WAVE_SIZE cfg = 64
        \<and> in_bounds_problem cfg m n k lda ldd \<and> BlockK cfg < k
        \<and> m \<le> BlockM cfg * (fst gridDim * fst wgDim)
        \<and> n \<le> BlockN cfg * (snd gridDim * snd wgDim)"
  then have sa: "static_asserts cfg = None" and w64: "AMDGCN_WAVE_SIZE cfg = 64"
    and ib: "in_bounds_problem cfg m n k lda ldd" and el: "BlockK cfg < k"
    and cm: "m \<le> BlockM cfg * (fst gridDim * fst wgDim)"
    and cn: "n \<le> BlockN cfg * (snd gridDim * snd wgDim)"
    by simp_all
  from launch_advances [OF sa w64 ib cm cn, where a = a and b = b and c = c and d = d
      and ldb = ldb and ldc = ldc and alpha = alpha and beta = beta and shm = shm] el
  show "\<exists>d'. launch cfg gridDim wgDim m n k a b c d lda ldb ldc ldd alpha beta shm = Some d'
             \<and> (\<forall>i<m. \<forall>j<n. d' (dataOffset (LayoutD cfg) ldd (i, j))
                               = gemm_elem cfg a b c lda ldb ldc alpha beta k i j)
             \<and> (\<forall>p. (\<forall>i<m. \<forall>j<n. p \<noteq> dataOffset (LayoutD cfg) ldd (i, j)) \<longrightarrow> d' p = d p)"
    by blast
qed

text \<open>
  Claim C2 at its failing input. The guard tests the top-left element of the tile only.
  With 48 rows and tiles of 32 rows (the 32 x 32 x 8 kernel on a 48 x 32 matrix,
  \<open>k = 16\<close>) the tile of the second tile row starts inside the matrix, at row 32, and
  ends outside it, at row 63. The claim has this wave do no work and leave its tile
  region of D alone. The wave proceeds, and it overwrites the element at row 48, one
  row below the matrix, where D held 0, with 16.
\<close>

theorem partial_tile_is_written:
  "fst (matrixCoord (BlockM cfg_32x32x8) (BlockN cfg_32x32x8) (blockCoord wave_1_0)) < 48
   \<and> \<not> fst (matrixCoord (BlockM cfg_32x32x8) (BlockN cfg_32x32x8) (blockCoord wave_1_0))
        + BlockM cfg_32x32x8 \<le> 48
   \<and> map_option (\<lambda>r. (proceeded r, out_d r (dataOffset row_major 32 (48, 0))))
       (mmaSyncLds cfg_32x32x8 wave_1_0 48 32 16 (\<lambda>p. 1) (\<lambda>p. 1) (\<lambda>p. 0) (\<lambda>p. 0)
          16 16 32 32 (1::int) 0 (\<lambda>p. 0))
     = Some (True, 16)"
proof -
  let ?mc = "matrixCoord (BlockM cfg_32x32x8) (BlockN cfg_32x32x8) (blockCoord wave_1_0)"
  have mc: "?mc = (32, 0)"
    by (simp add: matrixCoord_def blockCoord_def cfg_32x32x8_def wave_1_0_def)
  have sup: "supported cfg_32x32x8 wave_1_0"
    by (simp add: supported_def static_asserts_def in_workgroup_def cfg_32x32x8_def wave_1_0_def)
  have el: "eligible cfg_32x32x8 wave_1_0 48 32 16"
    by (simp add: eligible_def mc) (simp add: cfg_32x32x8_def)
  have bk: "0 < BlockK cfg_32x32x8" and bn: "0 < BlockN cfg_32x32x8"
    by (simp_all add: cfg_32x32x8_def)
  have stride: "(1::int) \<noteq> 0 \<longrightarrow> 0 < incrA cfg_32x32x8 16"
    by (simp add: incrA_def cfg_32x32x8_def)
  have ld: "ld_ok (LayoutD cfg_32x32x8) (BlockM cfg_32x32x8) (BlockN cfg_32x32x8) 32"
    by (simp add: cfg_32x32x8_def)
  from wave_tile_written [OF sup el bk bn stride ld, where a = "\<lambda>p. 1" and b = "\<lambda>p. 1"
      and c = "\<lambda>p. 0" and d = "\<lambda>p. 0" and ldb = 16 and ldc = 32 and beta = 0 and shm = "\<lambda>p. 0"]
  obtain r where
    r: "mmaSyncLds cfg_32x32x8 wave_1_0 48 32 16 (\<lambda>p. 1) (\<lambda>p. 1) (\<lambda>p. 0) (\<lambda>p. 0)
          16 16 32 32 (1::int) 0 (\<lambda>p. 0) = Some r"
    and hit: "\<forall>i<BlockM cfg_32x32x8 * BlockN cfg_32x32x8.
        out_d r (tile_addr (BlockN cfg_32x32x8) (LayoutD cfg_32x32x8)
                   (dataCoord (LayoutD cfg_32x32x8) 0 32 ?mc) 32 i)
        = gemm_elem cfg_32x32x8 (\<lambda>p. 1) (\<lambda>p. 1) (\<lambda>p. 0) 16 16 32 (1::int) 0
            (16 div BlockK cfg_32x32x8 * BlockK cfg_32x32x8)
            (fst ?mc + i div BlockN cfg_32x32x8) (snd ?mc + i mod BlockN cfg_32x32x8)"
    by blast
  have "(512::nat) < BlockM cfg_32x32x8 * BlockN cfg_32x32x8" by (simp add: cfg_32x32x8_def)
  with hit have "out_d r (tile_addr (BlockN cfg_32x32x8) (LayoutD cfg_32x32x8)
                   (dataCoord (LayoutD cfg_32x32x8) 0 32 ?mc) 32 512)
        = gemm_elem cfg_32x32x8 (\<lambda>p. 1) (\<lambda>p. 1) (\<lambda>p. 0) 16 16 32 (1::int) 0
            (16 div BlockK cfg_32x32x8 * BlockK cfg_32x32x8)
            (fst ?mc + 512 div BlockN cfg_32x32x8) (snd ?mc + 512 mod BlockN cfg_32x32x8)"
    by blast
  then have v: "out_d r (dataOffset row_major 32 (48, 0)) = 16"
    unfolding mc by (simp add: tile_addr_def dataCoord_def gemm_elem_def cfg_32x32x8_def)
  have p: "proceeded r"
    using r unfolding mmaSyncLds_eligible [OF el bk] Let_def by auto
  have "fst ?mc < 48" "\<not> fst ?mc + BlockM cfg_32x32x8 \<le> 48"
    unfolding mc by (simp_all add: cfg_32x32x8_def)
  then show ?thesis using r v p by simp
qed

section \<open>A reduction extent of exactly one block\<close>

text \<open>
  Claim C1 at its failing input. With \<open>k = BlockK\<close> (here 32 x 32 x 8 on the
  32 x 32 x 8 kernel) the guard \<open>BlockK < k\<close> is false for every wave, so the launch
  returns D as it was, while the reference GEMM writes \<open>alpha * A B + beta * C\<close>.
\<close>

theorem single_block_launch_leaves_d:
  "launch cfg_32x32x8 (1, 1) (1, 1) 32 32 8 (\<lambda>p. 1) (\<lambda>p. 1) (\<lambda>p. 0) (\<lambda>p. 0)
     8 8 32 32 (1::int) 0 (\<lambda>p. 0) = Some (\<lambda>p. 0)
   \<and> gemm_cpu_h (LayoutA cfg_32x32x8) (LayoutB cfg_32x32x8) (LayoutC cfg_32x32x8)
       (LayoutD cfg_32x32x8) 32 32 8 (\<lambda>p. 1) (\<lambda>p. 1) (\<lambda>p. 0) (\<lambda>p. 0) 8 8 32 32 (1::int) 0
       (dataOffset (LayoutD cfg_32x32x8) 32 (0, 0)) = 8"
proof -
  have "\<not> BlockK cfg_32x32x8 < 8" by (simp add: cfg_32x32x8_def)
  then have "launch cfg_32x32x8 (1, 1) (1, 1) 32 32 8 (\<lambda>p. 1) (\<lambda>p. 1) (\<lambda>p. 0) (\<lambda>p. 0)
     8 8 32 32 (1::int) 0 (\<lambda>p. 0) = Some (\<lambda>p. 0)"
    by (rule launch_idle)
  moreover have "ld_ok (LayoutD cfg_32x32x8) 32 32 32" by (simp add: cfg_32x32x8_def)
  then have "gemm_cpu_h (LayoutA cfg_32x32x8) (LayoutB cfg_32x32x8) (LayoutC cfg_32x32x8)
       (LayoutD cfg_32x32x8) 32 32 8 (\<lambda>p. 1) (\<lambda>p. 1) (\<lambda>p. 0) (\<lambda>p. 0) 8 8 32 32 (1::int) 0
       (dataOffset (LayoutD cfg_32x32x8) 32 (0, 0)) = 8"
    by (subst gemm_cpu_h_hit) simp_all
  ultimately show ?thesis by blast
qed

section \<open>The kernel against the reference GEMM\<close>

text \<open>
  For a configuration that passes the static assertions on a 64-wide wave, a matrix
  of whole tiles, a reduction extent that is a multiple of \<open>BlockK\<close> above \<open>BlockK\<close>,
  a leading dimension of D that keeps its elements apart, a column-major A with a
  positive leading dimension, and a grid that covers the matrix: the D buffer after the
  launch is the D buffer the reference GEMM \<^verbatim>\<open>gemm_cpu_h\<close> computes, address by
  address, for every layout combination, every alpha and beta and every initial content
  of D and of the staging buffer.
\<close>

theorem launch_equals_reference:
  assumes "static_asserts cfg = None" and "AMDGCN_WAVE_SIZE cfg = 64"
    and "in_bounds_problem cfg m n k lda ldd" and "BlockK cfg < k"
    and "m \<le> BlockM cfg * (fst gridDim * fst wgDim)"
    and "n \<le> BlockN cfg * (snd gridDim * snd wgDim)"
  shows "launch cfg gridDim wgDim m n k a b c d lda ldb ldc ldd alpha beta shm
         = Some (gemm_cpu_h (LayoutA cfg) (LayoutB cfg) (LayoutC cfg) (LayoutD cfg)
                   m n k a b c d lda ldb ldc ldd alpha beta)"
  using assms by (rule launch_is_reference)

theorem launch_equals_reference_witness:
  "launch cfg_8x8x8 (1, 1) (2, 1) 16 8 16 (\<lambda>p. int p) (\<lambda>p. 2) (\<lambda>p. 1) (\<lambda>p. 0)
     16 8 8 8 (3::int) 5 (\<lambda>p. 0)
   = Some (gemm_cpu_h col_major row_major row_major row_major 16 8 16
             (\<lambda>p. int p) (\<lambda>p. 2) (\<lambda>p. 1) (\<lambda>p. 0) 16 8 8 8 3 5)"
proof -
  have "static_asserts cfg_8x8x8 = None" "AMDGCN_WAVE_SIZE cfg_8x8x8 = 64"
    "in_bounds_problem cfg_8x8x8 16 8 16 16 8" "BlockK cfg_8x8x8 < 16"
    "16 \<le> BlockM cfg_8x8x8 * (fst (1::nat, 1::nat) * fst (2::nat, 1::nat))"
    "8 \<le> BlockN cfg_8x8x8 * (snd (1::nat, 1::nat) * snd (2::nat, 1::nat))"
    by (simp_all add: static_asserts_def in_bounds_problem_def cfg_8x8x8_def)
  from launch_equals_reference [OF this, where a = "\<lambda>p. int p" and b = "\<lambda>p. 2"
      and c = "\<lambda>p. 1" and d = "\<lambda>p. 0" and ldb = 8 and ldc = 8 and alpha = 3 and beta = 5
      and shm = "\<lambda>p. 0"]
  show ?thesis by (simp add: cfg_8x8x8_def)
qed

section \<open>The zero-alpha shortcut\<close>

text \<open>
  When alpha is zero, a wave that passes the guard returns one and the same result for
  every content and every leading dimension of A and B: no tile of A or B is loaded, no
  multiply-accumulate is issued, the loop body never runs, the accumulator is the
  zero fragment, the staging buffer is not touched, every element of the wave's tile of
  D is \<open>beta * C\<close> and every other address of D keeps its content.
\<close>

lemma zero_alpha_eligible_wave:
  assumes "eligible cfg w m n k"
    and "ld_ok (LayoutD cfg) (BlockM cfg) (BlockN cfg) ldd"
  shows "\<exists>r. (\<forall>a b lda ldb.
                 mmaSyncLds cfg w m n k a b c d lda ldb ldc ldd 0 beta shm = Some r)
           \<and> n_ab_loads r = 0 \<and> n_mma r = 0 \<and> n_iterations r = 0
           \<and> out_acc r = fill_fragment (BlockM cfg * BlockN cfg) 0
           \<and> out_lds r = shm
           \<and> (\<forall>i<BlockM cfg. \<forall>j<BlockN cfg.
                 out_d r (dataOffset (LayoutD cfg) ldd
                   (fst (matrixCoord (BlockM cfg) (BlockN cfg) (blockCoord w)) + i,
                    snd (matrixCoord (BlockM cfg) (BlockN cfg) (blockCoord w)) + j))
                 = beta * c (dataOffset (LayoutC cfg) ldc
                   (fst (matrixCoord (BlockM cfg) (BlockN cfg) (blockCoord w)) + i,
                    snd (matrixCoord (BlockM cfg) (BlockN cfg) (blockCoord w)) + j)))
           \<and> (\<forall>p. p \<notin> tile_of cfg ldd w \<longrightarrow> out_d r p = d p)"
proof -
  let ?mc = "matrixCoord (BlockM cfg) (BlockN cfg) (blockCoord w)"
  let ?z = "fill_fragment (BlockM cfg * BlockN cfg) (0::'a)"
  let ?r = "\<lparr>out_d = epilogue cfg c d ldc ldd 0 beta ?mc ?z, out_lds = shm, out_acc = ?z,
             n_ab_loads = 0, n_mma = 0, n_iterations = 0, proceeded = True\<rparr>"
  from assms(1) have g: "fst ?mc < m \<and> snd ?mc < n \<and> BlockK cfg < k"
    by (simp add: eligible_def)
  have run: "mmaSyncLds cfg w m n k a b c d lda ldb ldc ldd 0 beta shm = Some ?r"
    for a b :: "'a mem" and lda ldb
    unfolding mmaSyncLds_def Let_def using g by (simp add: skip_accumulation_def)
  have hit: "epilogue cfg c d ldc ldd 0 beta ?mc ?z
               (dataOffset (LayoutD cfg) ldd (fst ?mc + i, snd ?mc + j))
             = beta * c (dataOffset (LayoutC cfg) ldc (fst ?mc + i, snd ?mc + j))"
    if i: "i < BlockM cfg" and j: "j < BlockN cfg" for i j
  proof -
    note t = tile_index [OF i j]
    have addr: "tile_addr (BlockN cfg) (LayoutD cfg) (dataCoord (LayoutD cfg) 0 ldd ?mc) ldd
                  (i * BlockN cfg + j)
                = dataOffset (LayoutD cfg) ldd (fst ?mc + i, snd ?mc + j)"
      unfolding tile_addr_def t using dataCoord_tile [of "LayoutD cfg" ldd "fst ?mc" "snd ?mc"]
      by simp
    have "epilogue cfg c d ldc ldd 0 beta ?mc ?z
            (tile_addr (BlockN cfg) (LayoutD cfg) (dataCoord (LayoutD cfg) 0 ldd ?mc) ldd
               (i * BlockN cfg + j))
          = recombine cfg c ldc 0 beta ?mc ?z ! (i * BlockN cfg + j)"
      unfolding epilogue_def
      by (rule store_matrix_sync_hit [OF tile_addr_inj [OF assms(2)] t(1)])
    also have "\<dots> = beta * c (dataOffset (LayoutC cfg) ldc (fst ?mc + i, snd ?mc + j))"
      using j by (simp add: recombine_nth [OF t(1)] t fill_fragment_def)
    finally show ?thesis unfolding addr .
  qed
  have other: "epilogue cfg c d ldc ldd 0 beta ?mc ?z p = d p" if "p \<notin> tile_of cfg ldd w" for p
    unfolding epilogue_def using that
    by (intro store_matrix_sync_other) (simp add: tile_of_def)
  show ?thesis
    by (rule exI [of _ ?r]) (simp add: run hit other)
qed

text \<open>
  Claim C3 at its failing input. With alpha zero and \<open>k = BlockK\<close> (the 32 x 32 x 8
  kernel on a 32 x 32 matrix with \<open>k = 8\<close>, C all 2, D all 0, beta 3) the tile of the
  one wave is the whole matrix, yet the strict guard \<open>BlockK < k\<close> keeps the wave, and
  with it the launch, from doing anything: D stays 0 where the claim has
  \<open>beta * C = 6\<close>.
\<close>

theorem zero_alpha_single_block_leaves_d:
  "fst (matrixCoord (BlockM cfg_32x32x8) (BlockN cfg_32x32x8)
          (blockCoord \<lparr>blockIdx = (0, 0), waveCoord = (0, 0), workgroupDim = (1, 1)\<rparr>))
     + BlockM cfg_32x32x8 \<le> 32
   \<and> snd (matrixCoord (BlockM cfg_32x32x8) (BlockN cfg_32x32x8)
          (blockCoord \<lparr>blockIdx = (0, 0), waveCoord = (0, 0), workgroupDim = (1, 1)\<rparr>))
     + BlockN cfg_32x32x8 \<le> 32
   \<and> BlockK cfg_32x32x8 dvd 8
   \<and> mmaSyncLds cfg_32x32x8 \<lparr>blockIdx = (0, 0), waveCoord = (0, 0), workgroupDim = (1, 1)\<rparr>
       32 32 8 (\<lambda>p. 1) (\<lambda>p. 1) (\<lambda>p. 2) (\<lambda>p. 0) 8 8 32 32 (0::int) 3 (\<lambda>p. 0)
     = Some \<lparr>out_d = \<lambda>p. 0, out_lds = \<lambda>p. 0, out_acc = [], n_ab_loads = 0, n_mma = 0,
             n_iterations = 0, proceeded = False\<rparr>
   \<and> launch cfg_32x32x8 (1, 1) (1, 1) 32 32 8 (\<lambda>p. 1) (\<lambda>p. 1) (\<lambda>p. 2) (\<lambda>p. 0) 8 8 32 32
       (0::int) 3 (\<lambda>p. 0) = Some (\<lambda>p. 0)
   \<and> (3::int) * (\<lambda>p. 2) (dataOffset (LayoutC cfg_32x32x8) 32 (0, 0)) = 6"
proof -
  let ?w = "\<lparr>blockIdx = (0, 0), waveCoord = (0, 0), workgroupDim = (1, 1)\<rparr>"
  have mc: "matrixCoord (BlockM cfg_32x32x8) (BlockN cfg_32x32x8) (blockCoord ?w) = (0, 0)"
    by (simp add: matrixCoord_def blockCoord_def)
  have ne: "\<not> BlockK cfg_32x32x8 < 8" by (simp add: cfg_32x32x8_def)
  then have "\<not> eligible cfg_32x32x8 ?w 32 32 8" by (simp add: eligible_def)
  then have w: "mmaSyncLds cfg_32x32x8 ?w 32 32 8 (\<lambda>p. 1) (\<lambda>p. 1) (\<lambda>p. 2) (\<lambda>p. 0) 8 8 32 32
       (0::int) 3 (\<lambda>p. 0)
     = Some \<lparr>out_d = \<lambda>p. 0, out_lds = \<lambda>p. 0, out_acc = [], n_ab_loads = 0, n_mma = 0,
             n_iterations = 0, proceeded = False\<rparr>"
    by (rule mmaSyncLds_idle)
  from ne have l: "launch cfg_32x32x8 (1, 1) (1, 1) 32 32 8 (\<lambda>p. 1) (\<lambda>p. 1) (\<lambda>p. 2) (\<lambda>p. 0)
       8 8 32 32 (0::int) 3 (\<lambda>p. 0) = Some (\<lambda>p. 0)"
    by (rule launch_idle)
  show ?thesis
    unfolding mc using w l by (simp add: cfg_32x32x8_def)
qed

section \<open>The D buffer is write-only\<close>

lemma overwrites_id: "overwrites (\<lambda>d. d)"
  unfolding overwrites_def by (rule exI [of _ "{}"]) simp

lemma overwrites_upd: "overwrites (\<lambda>d. d(x := v))"
  unfolding overwrites_def
  by (rule exI [of _ "{x}"], rule exI [of _ "\<lambda>p. v"]) auto

lemma overwrites_comp:
  assumes "overwrites F" and "overwrites G"
  shows "overwrites (\<lambda>d. G (F d))"
proof -
  from assms(1) obtain W f where F: "\<And>d. F d = (\<lambda>p. if p \<in> W then f p else d p)"
    unfolding overwrites_def by blast
  from assms(2) obtain V g where G: "\<And>d. G d = (\<lambda>p. if p \<in> V then g p else d p)"
    unfolding overwrites_def by blast
  have "G (F d) = (\<lambda>p. if p \<in> W \<union> V then (if p \<in> V then g p else f p) else d p)" for d
    unfolding G F by auto
  then show ?thesis unfolding overwrites_def
    by (intro exI [of _ "W \<union> V"] exI [of _ "\<lambda>p. if p \<in> V then g p else f p"]) simp
qed

lemma overwrites_fold: "overwrites (\<lambda>d. fold (\<lambda>i mm. mm(g i := h i)) xs d)"
proof (induction xs)
  case Nil
  show ?case by (simp add: overwrites_id)
next
  case (Cons x xs)
  have "overwrites (\<lambda>d. fold (\<lambda>i mm. mm(g i := h i)) xs (d(g x := h x)))"
    by (rule overwrites_comp [OF overwrites_upd Cons.IH])
  then show ?case by (simp only: fold_simps comp_apply)
qed

lemma overwrites_store:
  "overwrites (\<lambda>d. store_matrix_sync rows cols L d addr frag ld)"
  unfolding store_matrix_sync_def by (rule overwrites_fold)

lemma overwrites_idem:
  assumes "overwrites F"
  shows "F (F d) = F d"
proof -
  from assms obtain W f where F: "\<And>d. F d = (\<lambda>p. if p \<in> W then f p else d p)"
    unfolding overwrites_def by blast
  show ?thesis by (subst (1 2 3) F) auto
qed

lemma overwrites_indep:
  assumes "overwrites F"
  shows "F d1 p = F d2 p \<or> (F d1 p = d1 p \<and> F d2 p = d2 p)"
proof -
  from assms obtain W f where F: "\<And>d. F d = (\<lambda>p. if p \<in> W then f p else d p)"
    unfolding overwrites_def by blast
  show ?thesis by (simp add: F)
qed

lemma wave_oblivious:
  "(\<forall>d. mmaSyncLds cfg w m n k a b c d lda ldb ldc ldd alpha beta shm = None)
   \<or> (\<exists>F shm'. overwrites F
        \<and> (\<forall>d. \<exists>r. mmaSyncLds cfg w m n k a b c d lda ldb ldc ldd alpha beta shm = Some r
                  \<and> out_d r = F d \<and> out_lds r = shm'))"
proof (cases "eligible cfg w m n k")
  case False
  have "overwrites (\<lambda>d::'a mem. d)" by (rule overwrites_id)
  then show ?thesis
    unfolding mmaSyncLds_idle [OF False] by (intro disjI2 exI [of _ "\<lambda>d. d"]) auto
next
  case True
  let ?mc = "matrixCoord (BlockM cfg) (BlockN cfg) (blockCoord w)"
  let ?X = "if alpha \<noteq> 0
            then accumulate cfg w k a b lda ldb ?mc (fill_fragment (BlockM cfg * BlockN cfg) 0) shm
            else Some (skip_accumulation (fill_fragment (BlockM cfg * BlockN cfg) 0) shm)"
  from True have g: "fst ?mc < m \<and> snd ?mc < n \<and> BlockK cfg < k"
    by (simp add: eligible_def)
  show ?thesis
  proof (cases ?X)
    case None
    then have "mmaSyncLds cfg w m n k a b c d lda ldb ldc ldd alpha beta shm = None" for d
      unfolding mmaSyncLds_def Let_def using g by (simp split: if_splits)
    then show ?thesis by blast
  next
    case (Some s)
    let ?F = "\<lambda>d. epilogue cfg c d ldc ldd alpha beta ?mc (fragAcc s)"
    have "overwrites ?F" unfolding epilogue_def by (rule overwrites_store)
    moreover have "\<exists>r. mmaSyncLds cfg w m n k a b c d lda ldb ldc ldd alpha beta shm = Some r
                  \<and> out_d r = ?F d \<and> out_lds r = lds s" for d
      unfolding mmaSyncLds_def Let_def using g Some by (simp split: if_splits)
    ultimately show ?thesis by blast
  qed
qed

lemma run_waves_oblivious:
  "(\<forall>d. run_waves cfg m n k a b c lda ldb ldc ldd alpha beta ws shm d = None)
   \<or> (\<exists>F shm'. overwrites F
        \<and> (\<forall>d. run_waves cfg m n k a b c lda ldb ldc ldd alpha beta ws shm d = Some (shm', F d)))"
proof (induction ws arbitrary: shm)
  case Nil
  have "overwrites (\<lambda>d::'a mem. d)" by (rule overwrites_id)
  then show ?case by (intro disjI2 exI [of _ "\<lambda>d. d"]) auto
next
  case (Cons w ws)
  from wave_oblivious [of cfg w m n k a b c lda ldb ldc ldd alpha beta shm]
  show ?case
  proof
    assume "\<forall>d. mmaSyncLds cfg w m n k a b c d lda ldb ldc ldd alpha beta shm = None"
    then show ?thesis by simp
  next
    assume "\<exists>F shm'. overwrites F
        \<and> (\<forall>d. \<exists>r. mmaSyncLds cfg w m n k a b c d lda ldb ldc ldd alpha beta shm = Some r
                  \<and> out_d r = F d \<and> out_lds r = shm')"
    then obtain F shm1 where F: "overwrites F"
      and w: "\<And>d. \<exists>r. mmaSyncLds cfg w m n k a b c d lda ldb ldc ldd alpha beta shm = Some r
                  \<and> out_d r = F d \<and> out_lds r = shm1"
      by blast
    have step: "run_waves cfg m n k a b c lda ldb ldc ldd alpha beta (w # ws) shm d
          = run_waves cfg m n k a b c lda ldb ldc ldd alpha beta ws shm1 (F d)" for d
      using w [of d] by auto
    from Cons.IH [of shm1] show ?thesis
    proof
      assume "\<forall>d. run_waves cfg m n k a b c lda ldb ldc ldd alpha beta ws shm1 d = None"
      then show ?thesis by (simp only: step) simp
    next
      assume "\<exists>G shm'. overwrites G
        \<and> (\<forall>d. run_waves cfg m n k a b c lda ldb ldc ldd alpha beta ws shm1 d = Some (shm', G d))"
      then obtain G shm2 where G: "overwrites G"
        and r: "\<And>d. run_waves cfg m n k a b c lda ldb ldc ldd alpha beta ws shm1 d
                  = Some (shm2, G d)"
        by blast
      have "overwrites (\<lambda>d. G (F d))" by (rule overwrites_comp [OF F G])
      moreover have "run_waves cfg m n k a b c lda ldb ldc ldd alpha beta (w # ws) shm d
          = Some (shm2, G (F d))" for d
        by (simp only: step r)
      ultimately show ?thesis by blast
    qed
  qed
qed

lemma run_workgroups_oblivious:
  "(\<forall>d. run_workgroups cfg wgDim m n k a b c lda ldb ldc ldd alpha beta shm bids d = None)
   \<or> (\<exists>F. overwrites F
        \<and> (\<forall>d. run_workgroups cfg wgDim m n k a b c lda ldb ldc ldd alpha beta shm bids d
                 = Some (F d)))"
proof (induction bids)
  case Nil
  have "overwrites (\<lambda>d::'a mem. d)" by (rule overwrites_id)
  then show ?case by (intro disjI2 exI [of _ "\<lambda>d. d"]) auto
next
  case (Cons bid bids)
  from run_waves_oblivious [of cfg m n k a b c lda ldb ldc ldd alpha beta
      "workgroup_waves wgDim bid" shm]
  show ?case
  proof
    assume "\<forall>d. run_waves cfg m n k a b c lda ldb ldc ldd alpha beta
                  (workgroup_waves wgDim bid) shm d = None"
    then show ?thesis by simp
  next
    assume "\<exists>F shm'. overwrites F
        \<and> (\<forall>d. run_waves cfg m n k a b c lda ldb ldc ldd alpha beta
                  (workgroup_waves wgDim bid) shm d = Some (shm', F d))"
    then obtain F shm1 where F: "overwrites F"
      and w: "\<And>d. run_waves cfg m n k a b c lda ldb ldc ldd alpha beta
                  (workgroup_waves wgDim bid) shm d = Some (shm1, F d)"
      by blast
    have step: "run_workgroups cfg wgDim m n k a b c lda ldb ldc ldd alpha beta shm
                  (bid # bids) d
          = run_workgroups cfg wgDim m n k a b c lda ldb ldc ldd alpha beta shm bids (F d)" for d
      by (simp add: w)
    from Cons.IH show ?thesis
    proof
      assume "\<forall>d. run_workgroups cfg wgDim m n k a b c lda ldb ldc ldd alpha beta shm bids d
                = None"
      then show ?thesis by (simp only: step) simp
    next
      assume "\<exists>G. overwrites G
        \<and> (\<forall>d. run_workgroups cfg wgDim m n k a b c lda ldb ldc ldd alpha beta shm bids d
                 = Some (G d))"
      then obtain G where G: "overwrites G"
        and r: "\<And>d. run_workgroups cfg wgDim m n k a b c lda ldb ldc ldd alpha beta shm bids d
                  = Some (G d)"
        by blast
      have "overwrites (\<lambda>d. G (F d))" by (rule overwrites_comp [OF F G])
      moreover have "run_workgroups cfg wgDim m n k a b c lda ldb ldc ldd alpha beta shm
                       (bid # bids) d = Some (G (F d))" for d
        by (simp only: step r)
      ultimately show ?thesis by blast
    qed
  qed
qed

lemma launch_oblivious:
  "(\<forall>d. launch cfg gridDim wgDim m n k a b c d lda ldb ldc ldd alpha beta shm = None)
   \<or> (\<exists>F. overwrites F
        \<and> (\<forall>d. launch cfg gridDim wgDim m n k a b c d lda ldb ldc ldd alpha beta shm
                 = Some (F d)))"
  unfolding launch_def by (rule run_workgroups_oblivious)

lemma mmaSyncLds_returns:
  assumes "0 < BlockK cfg"
  shows "\<exists>r. mmaSyncLds cfg w m n k a b c d lda ldb ldc ldd alpha beta shm = Some r"
proof (cases "eligible cfg w m n k")
  case True
  show ?thesis unfolding mmaSyncLds_eligible [OF True assms] Let_def by simp
next
  case False
  show ?thesis unfolding mmaSyncLds_idle [OF False] by simp
qed

lemma run_waves_returns:
  assumes "0 < BlockK cfg"
  shows "\<exists>r. run_waves cfg m n k a b c lda ldb ldc ldd alpha beta ws shm d = Some r"
proof (induction ws arbitrary: shm d)
  case Nil
  show ?case by simp
next
  case (Cons w ws)
  from mmaSyncLds_returns [OF assms, of w m n k a b c d lda ldb ldc ldd alpha beta shm]
  obtain r where "mmaSyncLds cfg w m n k a b c d lda ldb ldc ldd alpha beta shm = Some r"
    by blast
  then show ?case using Cons.IH [of "out_lds r" "out_d r"] by simp
qed

lemma launch_returns:
  assumes "0 < BlockK cfg"
  shows "\<exists>d'. launch cfg gridDim wgDim m n k a b c d lda ldb ldc ldd alpha beta shm = Some d'"
proof -
  have "\<exists>d'. run_workgroups cfg wgDim m n k a b c lda ldb ldc ldd alpha beta shm bids d = Some d'"
    for bids
  proof (induction bids arbitrary: d)
    case Nil
    show ?case by simp
  next
    case (Cons bid bids)
    from run_waves_returns [OF assms, of m n k a b c lda ldb ldc ldd alpha beta
        "workgroup_waves wgDim bid" shm d]
    obtain r where "run_waves cfg m n k a b c lda ldb ldc ldd alpha beta
        (workgroup_waves wgDim bid) shm d = Some r"
      by blast
    then show ?case using Cons.IH [of "snd r"] by (cases r) simp
  qed
  then show ?thesis by (simp add: launch_def)
qed

text \<open>
  Claim C9. The launch never reads D. Run again on the D buffer it produced, with the
  other inputs unchanged, it returns that very buffer; started from two different D
  buffers it leaves, at every address, either the same content in both or each
  buffer's own initial content; whether it returns at all does not depend on D; and
  with a positive block depth it always returns.
\<close>

theorem kernel_never_reads_d:
  "(launch cfg gridDim wgDim m n k a b c d lda ldb ldc ldd alpha beta shm = Some d'
      \<longrightarrow> launch cfg gridDim wgDim m n k a b c d' lda ldb ldc ldd alpha beta shm = Some d')
   \<and> (launch cfg gridDim wgDim m n k a b c d1 lda ldb ldc ldd alpha beta shm = Some e1
        \<and> launch cfg gridDim wgDim m n k a b c d2 lda ldb ldc ldd alpha beta shm = Some e2
      \<longrightarrow> (\<forall>p. e1 p = e2 p \<or> (e1 p = d1 p \<and> e2 p = d2 p)))
   \<and> (launch cfg gridDim wgDim m n k a b c d1 lda ldb ldc ldd alpha beta shm = None
        \<longleftrightarrow> launch cfg gridDim wgDim m n k a b c d2 lda ldb ldc ldd alpha beta shm = None)
   \<and> (0 < BlockK cfg
      \<longrightarrow> (\<exists>e. launch cfg gridDim wgDim m n k a b c d lda ldb ldc ldd alpha beta shm = Some e))"
proof -
  from launch_oblivious [of cfg gridDim wgDim m n k a b c lda ldb ldc ldd alpha beta shm]
  have "(launch cfg gridDim wgDim m n k a b c d lda ldb ldc ldd alpha beta shm = Some d'
      \<longrightarrow> launch cfg gridDim wgDim m n k a b c d' lda ldb ldc ldd alpha beta shm = Some d')
   \<and> (launch cfg gridDim wgDim m n k a b c d1 lda ldb ldc ldd alpha beta shm = Some e1
        \<and> launch cfg gridDim wgDim m n k a b c d2 lda ldb ldc ldd alpha beta shm = Some e2
      \<longrightarrow> (\<forall>p. e1 p = e2 p \<or> (e1 p = d1 p \<and> e2 p = d2 p)))
   \<and> (launch cfg gridDim wgDim m n k a b c d1 lda ldb ldc ldd alpha beta shm = None
        \<longleftrightarrow> launch cfg gridDim wgDim m n k a b c d2 lda ldb ldc ldd alpha beta shm = None)"
  proof
    assume "\<forall>d. launch cfg gridDim wgDim m n k a b c d lda ldb ldc ldd alpha beta shm = None"
    then show ?thesis by simp
  next
    assume "\<exists>F. overwrites F
        \<and> (\<forall>d. launch cfg gridDim wgDim m n k a b c d lda ldb ldc ldd alpha beta shm
                 = Some (F d))"
    then obtain F where F: "overwrites F"
      and run: "\<And>d. launch cfg gridDim wgDim m n k a b c d lda ldb ldc ldd alpha beta shm
                 = Some (F d)"
      by blast
    show ?thesis
      unfolding run using overwrites_idem [OF F] overwrites_indep [OF F, of d1 _ d2] by auto
  qed
  then show ?thesis using launch_returns by blast
qed

theorem kernel_never_reads_d_witness:
  "launch cfg_8x8x8 (1, 1) (2, 1) 16 8 16 (\<lambda>p. int p) (\<lambda>p. 2) (\<lambda>p. 1)
     (gemm_cpu_h col_major row_major row_major row_major 16 8 16
        (\<lambda>p. int p) (\<lambda>p. 2) (\<lambda>p. 1) (\<lambda>p. 0) 16 8 8 8 3 5)
     16 8 8 8 (3::int) 5 (\<lambda>p. 0)
   = Some (gemm_cpu_h col_major row_major row_major row_major 16 8 16
             (\<lambda>p. int p) (\<lambda>p. 2) (\<lambda>p. 1) (\<lambda>p. 0) 16 8 8 8 3 5)"
proof -
  have "static_asserts cfg_8x8x8 = None" "AMDGCN_WAVE_SIZE cfg_8x8x8 = 64"
    "in_bounds_problem cfg_8x8x8 16 8 16 16 8" "BlockK cfg_8x8x8 < 16"
    "16 \<le> BlockM cfg_8x8x8 * (fst (1::nat, 1::nat) * fst (2::nat, 1::nat))"
    "8 \<le> BlockN cfg_8x8x8 * (snd (1::nat, 1::nat) * snd (2::nat, 1::nat))"
    by (simp_all add: static_asserts_def in_bounds_problem_def cfg_8x8x8_def)
  from launch_is_reference [OF this, where a = "\<lambda>p. int p" and b = "\<lambda>p. 2"
      and c = "\<lambda>p. 1" and d = "\<lambda>p. 0" and ldb = 8 and ldc = 8 and alpha = 3 and beta = 5
      and shm = "\<lambda>p. 0"]
  have first: "launch cfg_8x8x8 (1, 1) (2, 1) 16 8 16 (\<lambda>p. int p) (\<lambda>p. 2) (\<lambda>p. 1) (\<lambda>p. 0)
     16 8 8 8 (3::int) 5 (\<lambda>p. 0)
   = Some (gemm_cpu_h col_major row_major row_major row_major 16 8 16
             (\<lambda>p. int p) (\<lambda>p. 2) (\<lambda>p. 1) (\<lambda>p. 0) 16 8 8 8 3 5)"
    by (simp add: cfg_8x8x8_def)
  from kernel_never_reads_d [of cfg_8x8x8 "(1, 1)" "(2, 1)" 16 8 16 "\<lambda>p. int p" "\<lambda>p. 2"
      "\<lambda>p. 1" "\<lambda>p. 0" 16 8 8 8 "3::int" 5 "\<lambda>p. 0"
      "gemm_cpu_h col_major row_major row_major row_major 16 8 16
             (\<lambda>p. int p) (\<lambda>p. 2) (\<lambda>p. 1) (\<lambda>p. 0) 16 8 8 8 3 5"] first
  show ?thesis by blast
qed

section \<open>Verdict of the comparator\<close>


lemma relative_error_Num:
  assumes "toDouble dt x = Num u" and "toDouble dt y = Num v"
  shows "relative_error dt x y = Num (\<bar>u - v\<bar> / (\<bar>u\<bar> + \<bar>v\<bar> + 1))"
proof -
  have "\<bar>u\<bar> + \<bar>v\<bar> + 1 \<noteq> 0" by linarith
  then show ?thesis using assms by (simp add: relative_error_def numerator_def divisor_def)
qed




text \<open>Two values with the same float have a relative error of zero.\<close>

lemma relative_error_same_float:
  assumes "to_float dt x = to_float dt y" and "is_num (to_float dt x)"
  shows "relative_error dt x y = Num 0"
proof -
  from assms(2) obtain u where u: "to_float dt x = Num u"
    by (cases "to_float dt x") simp_all
  with assms(1) have "toDouble dt x = Num u" "toDouble dt y = Num u"
    by (simp_all add: toDouble_def)
  then show ?thesis by (simp add: relative_error_Num)
qed




















lemma one_thread_deals_out: "deals_out [[0..<sz]] sz"
  by (simp add: deals_out_def)







text \<open>
  With pairs of both kinds the execution decides. The two floats NaN and infinity,
  compared with 1: on one thread the NaN at index 0 ends the loop and the result is
  \<open>(false, NaN)\<close>; with one element per thread both flags are raised and the result is
  \<open>(false, infinity)\<close>.
\<close>

lemma nan_then_infinity_on_one_thread:
  "compareEqual float32 (\<lambda>i. if i = 0 then NaN else PosInf) (\<lambda>i. Num 1) 2 (Num 10)
     [[0, 1]] [0] = Some (False, NaN)"
proof -
  have d: "deals_out [[0, 1]] 2"
    by (simp add: deals_out_def upt_rec)
  show ?thesis
    unfolding compareEqual_def Let_def parallel_for_def using d
    by (simp add: thread_step_def compare_element_def numerator_def divisor_def
          relative_error_def loop_finished_def float32_def toDouble_def Let_def)
qed

lemma nan_then_infinity_on_two_threads:
  "compareEqual float32 (\<lambda>i. if i = 0 then NaN else PosInf) (\<lambda>i. Num 1) 2 (Num 10)
     [[0], [1]] [0, 1] = Some (False, PosInf)"
proof -
  have d: "deals_out [[0], [1]] 2"
    by (simp add: deals_out_def upt_rec)
  show ?thesis
    unfolding compareEqual_def Let_def parallel_for_def using d
    by (simp add: thread_step_def compare_element_def numerator_def divisor_def
          relative_error_def loop_finished_def float32_def toDouble_def Let_def)
qed


section \<open>The workgroup barrier\<close>

lemma stage_other:
  assumes "p \<notin> slotA cfg w \<union> slotB cfg w"
  shows "stage cfg w shm fa fb p = shm p"
proof -
  have "stage cfg w shm fa fb p
      = store_matrix_sync (FragA_size cfg) (registerFileWidth cfg) row_major shm
          (addrLdsA cfg w) fa (ldLds cfg w) p"
    unfolding stage_def using assms
    by (intro store_matrix_sync_other) (simp add: slotB_def)
  also have "\<dots> = shm p"
    using assms by (intro store_matrix_sync_other) (simp add: slotA_def)
  finally show ?thesis .
qed

lemma stagedA_cong:
  assumes "\<forall>p\<in>slotA cfg w. shm' p = shm p"
  shows "stagedA cfg w shm' = stagedA cfg w shm"
  using assms by (simp add: stagedA_def load_matrix_sync_def slotA_def)

lemma stagedB_cong:
  assumes "\<forall>p\<in>slotB cfg w. shm' p = shm p"
  shows "stagedB cfg w shm' = stagedB cfg w shm"
  using assms by (simp add: stagedB_def load_matrix_sync_def slotB_def)

lemma block_tiles_apart:
  fixes bx bx' cy cy' :: nat
  assumes i: "i < rows * cols" and j: "j < rows * cols"
    and c: "cy * cols + cols \<le> ld" and c': "cy' * cols + cols \<le> ld"
    and eq: "tile_addr cols row_major (dataCoord row_major base ld (bx * rows, cy * cols)) ld i
           = tile_addr cols row_major (dataCoord row_major base ld (bx' * rows, cy' * cols)) ld j"
  shows "bx = bx' \<and> cy = cy'"
proof -
  from i have cpos: "0 < cols" by (cases cols) auto
  have ri: "i div cols < rows" using i by (simp add: less_mult_imp_div_less)
  have rj: "j div cols < rows" using j by (simp add: less_mult_imp_div_less)
  have li: "i mod cols < cols" and lj: "j mod cols < cols" using cpos by simp_all
  have ci: "cy * cols + i mod cols < ld" using li c by linarith
  have cj: "cy' * cols + j mod cols < ld" using lj c' by linarith
  from eq have e: "(bx * rows + i div cols) * ld + (cy * cols + i mod cols)
                 = (bx' * rows + j div cols) * ld + (cy' * cols + j mod cols)"
    by (simp add: tile_addr_def dataCoord_def algebra_simps)
  have "((bx * rows + i div cols) * ld + (cy * cols + i mod cols)) div ld
          = bx * rows + i div cols"
    using ci by simp
  moreover have "((bx' * rows + j div cols) * ld + (cy' * cols + j mod cols)) div ld
          = bx' * rows + j div cols"
    using cj by simp
  ultimately have row: "bx * rows + i div cols = bx' * rows + j div cols"
    using e by simp
  with e have col: "cy * cols + i mod cols = cy' * cols + j mod cols" by simp
  have "(bx * rows + i div cols) div rows = bx" using ri by simp
  moreover have "(bx' * rows + j div cols) div rows = bx'" using rj by simp
  ultimately have "bx = bx'" using row by simp
  have "(cy * cols + i mod cols) div cols = cy" using li by simp
  moreover have "(cy' * cols + j mod cols) div cols = cy'" using lj by simp
  ultimately have "cy = cy'" using col by simp
  with \<open>bx = bx'\<close> show ?thesis by simp
qed

lemma wave_columns_fit:
  assumes "in_workgroup w"
  shows "snd (waveCoord w) * registerFileWidth cfg + registerFileWidth cfg \<le> ldLds cfg w"
proof -
  have "Suc (snd (waveCoord w)) \<le> snd (workgroupDim w)"
    using assms by (simp add: in_workgroup_def)
  then have "Suc (snd (waveCoord w)) * registerFileWidth cfg
               \<le> snd (workgroupDim w) * registerFileWidth cfg"
    by (rule mult_le_mono1)
  then show ?thesis by (simp add: ldLds_def mult.commute)
qed

lemma slots_of_distinct_waves:
  assumes sup: "supported cfg w" and sup': "supported cfg w'"
    and wg: "workgroupDim w = workgroupDim w'" and ne: "waveCoord w \<noteq> waveCoord w'"
  shows "(slotA cfg w \<union> slotB cfg w) \<inter> (slotA cfg w' \<union> slotB cfg w') = {}"
proof -
  note f = supported_facts [OF sup] and f' = supported_facts [OF sup']
  have ld: "ldLds cfg w' = ldLds cfg w" by (simp add: ldLds_def wg)
  have rA: "regionA cfg w' = regionA cfg w" by (simp add: regionA_def ld wg)
  have rB: "regionB cfg w' = regionB cfg w" by (simp add: regionB_def baseAddrLdsB_def ld wg)
  have bB: "baseAddrLdsB cfg w' = baseAddrLdsB cfg w" by (simp add: baseAddrLdsB_def ld wg)
  have inA: "slotA cfg w \<subseteq> regionA cfg w" "slotA cfg w' \<subseteq> regionA cfg w"
    using slotA_in_regionA [OF f(6,3)] slotA_in_regionA [OF f'(6,3)] rA by simp_all
  have inB: "slotB cfg w \<subseteq> regionB cfg w" "slotB cfg w' \<subseteq> regionB cfg w"
    using slotB_in_regionB [OF f(6,4)] slotB_in_regionB [OF f'(6,4)] rB by simp_all
  have cross: "slotA cfg w \<inter> slotB cfg w' = {}" "slotB cfg w \<inter> slotA cfg w' = {}"
    using inA inB regions_disjoint [of cfg w] by blast+
  have cw: "snd (waveCoord w) * registerFileWidth cfg + registerFileWidth cfg \<le> ldLds cfg w"
    by (rule wave_columns_fit [OF f(6)])
  have cw': "snd (waveCoord w') * registerFileWidth cfg + registerFileWidth cfg \<le> ldLds cfg w"
    using wave_columns_fit [OF f'(6), of cfg] ld by simp
  have AA: "slotA cfg w \<inter> slotA cfg w' = {}"
  proof (rule ccontr)
    assume "slotA cfg w \<inter> slotA cfg w' \<noteq> {}"
    then obtain i j where i: "i < FragA_size cfg * registerFileWidth cfg"
      and j: "j < FragA_size cfg * registerFileWidth cfg"
      and eq: "tile_addr (registerFileWidth cfg) row_major (addrLdsA cfg w) (ldLds cfg w) i
             = tile_addr (registerFileWidth cfg) row_major (addrLdsA cfg w') (ldLds cfg w) j"
      by (auto simp: slotA_def ld)
    from block_tiles_apart [OF i j cw cw' eq [unfolded addrLdsA_def matrixCoord_def ld]]
    have "waveCoord w = waveCoord w'" by (simp add: prod_eq_iff)
    with ne show False by simp
  qed
  have BB: "slotB cfg w \<inter> slotB cfg w' = {}"
  proof (rule ccontr)
    assume "slotB cfg w \<inter> slotB cfg w' \<noteq> {}"
    then obtain i j where i: "i < FragB_size cfg * registerFileWidth cfg"
      and j: "j < FragB_size cfg * registerFileWidth cfg"
      and eq: "tile_addr (registerFileWidth cfg) row_major (addrLdsB cfg w) (ldLds cfg w) i
             = tile_addr (registerFileWidth cfg) row_major (addrLdsB cfg w') (ldLds cfg w) j"
      by (auto simp: slotB_def ld)
    from block_tiles_apart [OF i j cw cw' eq [unfolded addrLdsB_def matrixCoord_def ld bB]]
    have "waveCoord w = waveCoord w'" by (simp add: prod_eq_iff)
    with ne show False by simp
  qed
  show ?thesis using cross AA BB by blast
qed

lemma segment_finished [simp]:
  "wave_segment cfg w m n k a b c lda ldb ldc ldd alpha beta Finished shm d = (Finished, shm, d)"
  by (simp add: wave_segment_def)

lemma segment_ready:
  "wave_segment cfg w m n k a b c lda ldb ldc ldd alpha beta Ready shm d =
     (if eligible cfg w m n k then
        (if alpha \<noteq> 0
         then (AtLoop (prime cfg w a b lda ldb
                         (matrixCoord (BlockM cfg) (BlockN cfg) (blockCoord w))
                         (fill_fragment (BlockM cfg * BlockN cfg) 0) shm),
               lds (prime cfg w a b lda ldb
                         (matrixCoord (BlockM cfg) (BlockN cfg) (blockCoord w))
                         (fill_fragment (BlockM cfg * BlockN cfg) 0) shm), d)
         else (Finished, shm,
               epilogue cfg c d ldc ldd alpha beta
                 (matrixCoord (BlockM cfg) (BlockN cfg) (blockCoord w))
                 (fill_fragment (BlockM cfg * BlockN cfg) 0)))
      else (Finished, shm, d))"
  by (simp add: wave_segment_def Let_def eligible_def)

lemma segment_at_loop:
  "wave_segment cfg w m n k a b c lda ldb ldc ldd alpha beta (AtLoop s) shm d =
     (if addrA s \<noteq> endA cfg lda k (matrixCoord (BlockM cfg) (BlockN cfg) (blockCoord w))
      then (AtLoop (loop_body cfg w a b lda ldb (s\<lparr>lds := shm\<rparr>)),
            lds (loop_body cfg w a b lda ldb (s\<lparr>lds := shm\<rparr>)), d)
      else (Finished, shm,
            epilogue cfg c d ldc ldd alpha beta
              (matrixCoord (BlockM cfg) (BlockN cfg) (blockCoord w))
              (fragAcc (drain cfg w (s\<lparr>lds := shm\<rparr>)))))"
  by (simp add: wave_segment_def Let_def)

text \<open>A segment keeps its own thread in the pipeline.\<close>

lemma segment_keeps_pipeline:
  assumes sup: "supported cfg w" and bk: "0 < BlockK cfg" and bn: "0 < BlockN cfg"
    and inv: "in_pipeline cfg w m n k a b lda ldb alpha th shm"
    and seg: "wave_segment cfg w m n k a b c lda ldb ldc ldd alpha beta th shm d = (th', shm', d')"
  shows "in_pipeline cfg w m n k a b lda ldb alpha th' shm'"
proof (cases th)
  case Finished
  with seg show ?thesis by (auto simp: in_pipeline_def)
next
  case Ready
  show ?thesis
  proof (cases "eligible cfg w m n k \<and> alpha \<noteq> 0")
    case False
    with seg Ready show ?thesis
      by (auto simp: segment_ready in_pipeline_def split: if_splits)
  next
    case True
    let ?mc = "matrixCoord (BlockM cfg) (BlockN cfg) (blockCoord w)"
    let ?s = "prime cfg w a b lda ldb ?mc (fill_fragment (BlockM cfg * BlockN cfg) 0) shm"
    from seg Ready True have th': "th' = AtLoop ?s" and shm': "shm' = lds ?s"
      by (simp_all add: segment_ready)
    have "1 \<le> k div BlockK cfg"
      using True bk by (simp add: eligible_def div_greater_zero_iff Suc_leI)
    then have "Suc 0 \<le> k div BlockK cfg" by simp
    moreover have "fragAcc ?s = tile_product cfg a b lda ldb ?mc (0 * BlockK cfg)"
      by (simp add: tile_product_0)
    moreover have "stagedA cfg w shm'
        = load_matrix_sync (BlockM cfg) (BlockK cfg) (LayoutA cfg) a
            (dataCoord (LayoutA cfg) 0 lda (fst ?mc, 0) + 0 * incrA cfg lda) lda"
      unfolding shm' lds_prime by (simp add: stagedA_stage [OF sup])
    moreover have "stagedB cfg w shm'
        = load_matrix_sync (BlockK cfg) (BlockN cfg) (LayoutB cfg) b
            (dataCoord (LayoutB cfg) 0 ldb (0, snd ?mc) + 0 * incrB cfg ldb) ldb"
      unfolding shm' lds_prime by (simp add: stagedB_stage [OF sup])
    ultimately show ?thesis
      unfolding th' in_pipeline_def using True
      by (simp only: thread.case) (intro conjI exI [of _ 0]; simp)
  qed
next
  case (AtLoop s)
  let ?mc = "matrixCoord (BlockM cfg) (BlockN cfg) (blockCoord w)"
  let ?A0 = "dataCoord (LayoutA cfg) 0 lda (fst ?mc, 0)"
  let ?B0 = "dataCoord (LayoutB cfg) 0 ldb (0, snd ?mc)"
  from inv AtLoop obtain t where el: "eligible cfg w m n k" and al: "alpha \<noteq> 0"
    and t: "Suc t \<le> k div BlockK cfg" and it: "iterations s = t"
    and acc: "fragAcc s = tile_product cfg a b lda ldb ?mc (t * BlockK cfg)"
    and aA: "addrA s = ?A0 + Suc t * incrA cfg lda"
    and aB: "addrB s = ?B0 + Suc t * incrB cfg ldb"
    and sA: "stagedA cfg w shm
               = load_matrix_sync (BlockM cfg) (BlockK cfg) (LayoutA cfg) a
                   (?A0 + t * incrA cfg lda) lda"
    and sB: "stagedB cfg w shm
               = load_matrix_sync (BlockK cfg) (BlockN cfg) (LayoutB cfg) b
                   (?B0 + t * incrB cfg ldb) ldb"
    by (auto simp: in_pipeline_def)
  show ?thesis
  proof (cases "addrA s \<noteq> endA cfg lda k ?mc")
    case False
    with seg AtLoop show ?thesis
      by (auto simp: segment_at_loop in_pipeline_def)
  next
    case True
    let ?s = "loop_body cfg w a b lda ldb (s\<lparr>lds := shm\<rparr>)"
    from seg AtLoop True have th': "th' = AtLoop ?s" and shm': "shm' = lds ?s"
      by (simp_all add: segment_at_loop)
    have "Suc t \<noteq> k div BlockK cfg"
    proof
      assume "Suc t = k div BlockK cfg"
      then have "addrA s = endA cfg lda k ?mc"
        unfolding aA endA_def by (simp only: mult.commute)
      with True show False by simp
    qed
    with t have t': "Suc (Suc t) \<le> k div BlockK cfg" by simp
    have acc': "fragAcc ?s = tile_product cfg a b lda ldb ?mc (Suc t * BlockK cfg)"
      unfolding fragAcc_loop_body
      by (simp add: sA sB acc mma_sync_extends [OF bn] del: mult_Suc)
    have sA': "stagedA cfg w shm'
        = load_matrix_sync (BlockM cfg) (BlockK cfg) (LayoutA cfg) a
            (?A0 + Suc t * incrA cfg lda) lda"
      unfolding shm' lds_loop_body by (simp add: stagedA_stage [OF sup] aA del: mult_Suc)
    have sB': "stagedB cfg w shm'
        = load_matrix_sync (BlockK cfg) (BlockN cfg) (LayoutB cfg) b
            (?B0 + Suc t * incrB cfg ldb) ldb"
      unfolding shm' lds_loop_body by (simp add: stagedB_stage [OF sup] aB del: mult_Suc)
    have "iterations ?s = Suc t" "addrA ?s = ?A0 + Suc (Suc t) * incrA cfg lda"
      "addrB ?s = ?B0 + Suc (Suc t) * incrB cfg ldb"
      by (simp_all add: it aA aB)
    with t' acc' sA' sB' show ?thesis
      unfolding th' in_pipeline_def using el al
      by (simp only: thread.case) (intro conjI exI [of _ "Suc t"]; simp del: mult_Suc)
  qed
qed

text \<open>A segment writes the staging buffer only inside the slots of its own wave.\<close>

lemma segment_lds_frame:
  assumes seg: "wave_segment cfg w m n k a b c lda ldb ldc ldd alpha beta th shm d = (th', shm', d')"
    and p: "p \<notin> slotA cfg w \<union> slotB cfg w"
  shows "shm' p = shm p"
proof (cases th)
  case Finished
  with seg show ?thesis by simp
next
  case Ready
  with seg show ?thesis
    by (auto simp: segment_ready lds_prime stage_other [OF p] split: if_splits)
next
  case (AtLoop s)
  with seg show ?thesis
    by (auto simp: segment_at_loop lds_loop_body stage_other [OF p] split: if_splits)
qed

text \<open>A segment writes D only when its thread finishes, and then it stores the epilogue of
  the full accumulator.\<close>

lemma segment_d_unfinished:
  assumes seg: "wave_segment cfg w m n k a b c lda ldb ldc ldd alpha beta th shm d = (th', shm', d')"
    and nf: "th' \<noteq> Finished"
  shows "d' = d" and "th \<noteq> Finished"
  using seg nf
  by (cases th; auto simp: segment_ready segment_at_loop split: if_splits)+

lemma segment_d_idle:
  assumes seg: "wave_segment cfg w m n k a b c lda ldb ldc ldd alpha beta th shm d = (th', shm', d')"
    and inv: "in_pipeline cfg w m n k a b lda ldb alpha th shm"
    and ne: "\<not> eligible cfg w m n k"
  shows "d' = d"
  using seg inv ne
  by (cases th; auto simp: segment_ready segment_at_loop in_pipeline_def split: if_splits)

lemma segment_d_finishing:
  assumes sup: "supported cfg w" and bk: "0 < BlockK cfg" and bn: "0 < BlockN cfg"
    and stride: "alpha \<noteq> 0 \<longrightarrow> 0 < incrA cfg lda"
    and inv: "in_pipeline cfg w m n k a b lda ldb alpha th shm"
    and seg: "wave_segment cfg w m n k a b c lda ldb ldc ldd alpha beta th shm d = (th', shm', d')"
    and th: "th \<noteq> Finished" and th': "th' = Finished" and el: "eligible cfg w m n k"
  shows "d' = epilogue cfg c d ldc ldd alpha beta
                (matrixCoord (BlockM cfg) (BlockN cfg) (blockCoord w))
                (final_acc cfg w k a b lda ldb alpha)"
proof (cases th)
  case Finished
  with th show ?thesis by simp
next
  case Ready
  with seg th' el show ?thesis
    by (auto simp: segment_ready final_acc_def split: if_splits)
next
  case (AtLoop s)
  let ?mc = "matrixCoord (BlockM cfg) (BlockN cfg) (blockCoord w)"
  let ?A0 = "dataCoord (LayoutA cfg) 0 lda (fst ?mc, 0)"
  let ?B0 = "dataCoord (LayoutB cfg) 0 ldb (0, snd ?mc)"
  from inv AtLoop obtain t where al: "alpha \<noteq> 0"
    and t: "Suc t \<le> k div BlockK cfg" and it: "iterations s = t"
    and acc: "fragAcc s = tile_product cfg a b lda ldb ?mc (t * BlockK cfg)"
    and aA: "addrA s = ?A0 + Suc t * incrA cfg lda"
    and sA: "stagedA cfg w shm
               = load_matrix_sync (BlockM cfg) (BlockK cfg) (LayoutA cfg) a
                   (?A0 + t * incrA cfg lda) lda"
    and sB: "stagedB cfg w shm
               = load_matrix_sync (BlockK cfg) (BlockN cfg) (LayoutB cfg) b
                   (?B0 + t * incrB cfg ldb) ldb"
    by (auto simp: in_pipeline_def)
  from seg AtLoop th' have ex: "addrA s = endA cfg lda k ?mc"
    and d': "d' = epilogue cfg c d ldc ldd alpha beta ?mc (fragAcc (drain cfg w (s\<lparr>lds := shm\<rparr>)))"
    by (auto simp: segment_at_loop split: if_splits)
  from ex have "Suc t * incrA cfg lda = incrA cfg lda * (k div BlockK cfg)"
    unfolding aA endA_def by (simp only: add_left_cancel)
  then have "incrA cfg lda * Suc t = incrA cfg lda * (k div BlockK cfg)"
    by (simp only: mult.commute)
  moreover from stride al have "0 < incrA cfg lda" by simp
  ultimately have last: "Suc t = k div BlockK cfg"
    by (simp only: mult_cancel1) simp
  have "fragAcc (drain cfg w (s\<lparr>lds := shm\<rparr>))
      = tile_product cfg a b lda ldb ?mc (Suc t * BlockK cfg)"
    unfolding fragAcc_drain
    by (simp add: sA sB acc mma_sync_extends [OF bn] del: mult_Suc)
  then show ?thesis
    unfolding d' final_acc_def last using al by simp
qed

text \<open>The epilogue of the full accumulator sets every element of the wave's tile to the GEMM
  value of its coordinates and leaves every other address alone.\<close>

lemma finish_writes_tile:
  assumes sup: "supported cfg w" and ib: "in_bounds_problem cfg m n k lda ldd"
    and el: "eligible cfg w m n k"
  shows "p \<in> tile_of cfg ldd w \<Longrightarrow>
           \<exists>i<m. \<exists>j<n. p = dataOffset (LayoutD cfg) ldd (i, j)
             \<and> epilogue cfg c d ldc ldd alpha beta
                 (matrixCoord (BlockM cfg) (BlockN cfg) (blockCoord w))
                 (final_acc cfg w k a b lda ldb alpha) p
               = gemm_elem cfg a b c lda ldb ldc alpha beta k i j"
    and "p \<notin> tile_of cfg ldd w \<Longrightarrow>
           epilogue cfg c d ldc ldd alpha beta
             (matrixCoord (BlockM cfg) (BlockN cfg) (blockCoord w))
             (final_acc cfg w k a b lda ldb alpha) p = d p"
proof -
  let ?mc = "matrixCoord (BlockM cfg) (BlockN cfg) (blockCoord w)"
  let ?G = "gemm_elem cfg a b c lda ldb ldc alpha beta k"
  let ?E = "epilogue cfg c d ldc ldd alpha beta ?mc (final_acc cfg w k a b lda ldb alpha)"
  from ib have bm: "0 < BlockM cfg" and bn: "0 < BlockN cfg" and bk: "0 < BlockK cfg"
    and dm: "BlockM cfg dvd m" and dn: "BlockN cfg dvd n" and dk: "BlockK cfg dvd k"
    and ld: "ld_ok (LayoutD cfg) m n ldd" and st: "LayoutA cfg = col_major \<longrightarrow> 0 < lda"
    by (simp_all add: in_bounds_problem_def)
  have stride: "alpha \<noteq> 0 \<longrightarrow> 0 < incrA cfg lda"
    using bk st by (simp add: incrA_pos_iff)
  have inside: "fst ?mc + BlockM cfg \<le> m" "snd ?mc + BlockN cfg \<le> n"
    by (rule eligible_tile_inside [OF el dm dn])+
  then have "BlockM cfg \<le> m" "BlockN cfg \<le> n" by simp_all
  then have ldt: "ld_ok (LayoutD cfg) (BlockM cfg) (BlockN cfg) ldd"
    by (rule ld_ok_mono [OF ld])
  have kk: "k div BlockK cfg * BlockK cfg = k" using dk by simp
  from wave_tile_written [OF sup el bk bn stride ldt, unfolded kk]
  obtain r where r: "mmaSyncLds cfg w m n k a b c d lda ldb ldc ldd alpha beta (\<lambda>p. 0) = Some r"
    and hit: "\<And>t. t < BlockM cfg * BlockN cfg \<Longrightarrow>
                out_d r (tile_addr (BlockN cfg) (LayoutD cfg)
                           (dataCoord (LayoutD cfg) 0 ldd ?mc) ldd t)
                = ?G (fst ?mc + t div BlockN cfg) (snd ?mc + t mod BlockN cfg)"
    and other: "\<And>p. p \<notin> tile_of cfg ldd w \<Longrightarrow> out_d r p = d p"
    by blast
  from wave_accumulator [OF sup el bk bn stride]
  obtain r' where r': "mmaSyncLds cfg w m n k a b c d lda ldb ldc ldd alpha beta (\<lambda>p. 0) = Some r'"
    and acc: "out_acc r'
               = (if alpha \<noteq> 0
                  then tile_product cfg a b lda ldb ?mc (k div BlockK cfg * BlockK cfg)
                  else fill_fragment (BlockM cfg * BlockN cfg) 0)"
    and d: "out_d r' = epilogue cfg c d ldc ldd alpha beta ?mc (out_acc r')"
    by blast
  from r r' have "r' = r" by simp
  with acc d have E: "out_d r = ?E" by (simp add: final_acc_def)
  have addr: "tile_addr (BlockN cfg) (LayoutD cfg) (dataCoord (LayoutD cfg) 0 ldd ?mc) ldd t
        = dataOffset (LayoutD cfg) ldd (fst ?mc + t div BlockN cfg, snd ?mc + t mod BlockN cfg)"
    for t
    unfolding tile_addr_def using dataCoord_tile [of "LayoutD cfg" ldd "fst ?mc" "snd ?mc"]
    by simp
  show "\<exists>i<m. \<exists>j<n. p = dataOffset (LayoutD cfg) ldd (i, j) \<and> ?E p = ?G i j"
    if "p \<in> tile_of cfg ldd w"
  proof -
    from that obtain t where t: "t < BlockM cfg * BlockN cfg"
      and p: "p = tile_addr (BlockN cfg) (LayoutD cfg)
                    (dataCoord (LayoutD cfg) 0 ldd ?mc) ldd t"
      by (auto simp: tile_of_def)
    have "t div BlockN cfg < BlockM cfg" using t by (simp add: less_mult_imp_div_less)
    with inside(1) have i: "fst ?mc + t div BlockN cfg < m" by linarith
    have "t mod BlockN cfg < BlockN cfg" using bn by simp
    with inside(2) have j: "snd ?mc + t mod BlockN cfg < n" by linarith
    have "out_d r p = ?G (fst ?mc + t div BlockN cfg) (snd ?mc + t mod BlockN cfg)"
      unfolding p by (rule hit [OF t])
    moreover have "p = dataOffset (LayoutD cfg) ldd
                         (fst ?mc + t div BlockN cfg, snd ?mc + t mod BlockN cfg)"
      unfolding p by (rule addr)
    ultimately show ?thesis using i j unfolding E by blast
  qed
  show "?E p = d p" if "p \<notin> tile_of cfg ldd w"
    using other [OF that] unfolding E .
qed

text \<open>Another wave's thread stays in the pipeline when the staging buffer changes outside
  its slots.\<close>

lemma in_pipeline_cong:
  assumes "\<forall>p\<in>slotA cfg w \<union> slotB cfg w. shm' p = shm p"
  shows "in_pipeline cfg w m n k a b lda ldb alpha th shm'
           = in_pipeline cfg w m n k a b lda ldb alpha th shm"
proof -
  have "stagedA cfg w shm' = stagedA cfg w shm" using assms by (intro stagedA_cong) simp
  moreover have "stagedB cfg w shm' = stagedB cfg w shm" using assms by (intro stagedB_cong) simp
  ultimately show ?thesis by (cases th) (simp_all add: in_pipeline_def)
qed

lemma coherent_initial:
  "coherent cfg m n k a b c lda ldb ldc ldd alpha beta ws d
     \<lparr>wg_threads = replicate (length ws) Ready, wg_lds = shm, wg_d = d\<rparr>"
  by (auto simp: coherent_def in_pipeline_def)

lemma coherent_step:
  assumes sup: "\<forall>w\<in>set ws. supported cfg w"
    and apart: "\<forall>i<length ws. \<forall>j<length ws. i \<noteq> j \<longrightarrow>
                  (slotA cfg (ws ! i) \<union> slotB cfg (ws ! i))
                    \<inter> (slotA cfg (ws ! j) \<union> slotB cfg (ws ! j)) = {}"
    and ib: "in_bounds_problem cfg m n k lda ldd"
    and coh: "coherent cfg m n k a b c lda ldb ldc ldd alpha beta ws d0 st"
  shows "coherent cfg m n k a b c lda ldb ldc ldd alpha beta ws d0
           (wg_step sync cfg m n k a b c lda ldb ldc ldd alpha beta ws i st)"
proof (cases "i < length ws \<and> i < length (wg_threads st)
         \<and> (\<not> sync \<or> may_pass cfg lda k (ws ! i) (wg_threads st) (wg_threads st ! i))")
  case False
  then have "wg_step sync cfg m n k a b c lda ldb ldc ldd alpha beta ws i st = st"
    unfolding wg_step_def by (simp only: if_False)
  with coh show ?thesis by simp
next
  case True
  let ?ths = "wg_threads st"
  let ?G = "gemm_elem cfg a b c lda ldb ldc alpha beta k"
  from True have i: "i < length ws" by simp
  from coh have len: "length ?ths = length ws"
    and pipe: "\<And>j. j < length ws \<Longrightarrow>
                 in_pipeline cfg (ws ! j) m n k a b lda ldb alpha (?ths ! j) (wg_lds st)"
    and dinv: "\<And>p. if (\<exists>i<length ws. ?ths ! i = Finished \<and> eligible cfg (ws ! i) m n k
                          \<and> p \<in> tile_of cfg ldd (ws ! i))
                    then (\<exists>r<m. \<exists>j<n. p = dataOffset (LayoutD cfg) ldd (r, j)
                            \<and> wg_d st p = ?G r j)
                    else wg_d st p = d0 p"
    unfolding coherent_def by blast+
  obtain th' shm' d' where
    seg: "wave_segment cfg (ws ! i) m n k a b c lda ldb ldc ldd alpha beta
            (?ths ! i) (wg_lds st) (wg_d st) = (th', shm', d')"
    by (rule prod_cases3)
  have step: "wg_step sync cfg m n k a b c lda ldb ldc ldd alpha beta ws i st
      = \<lparr>wg_threads = ?ths[i := th'], wg_lds = shm', wg_d = d'\<rparr>"
    unfolding wg_step_def using True seg by simp
  from sup i have supi: "supported cfg (ws ! i)" by simp
  from ib have bn: "0 < BlockN cfg" and bk: "0 < BlockK cfg"
    and st: "LayoutA cfg = col_major \<longrightarrow> 0 < lda"
    by (simp_all add: in_bounds_problem_def)
  have stride: "alpha \<noteq> 0 \<longrightarrow> 0 < incrA cfg lda"
    using bk st by (simp add: incrA_pos_iff)
  have own: "in_pipeline cfg (ws ! i) m n k a b lda ldb alpha th' shm'"
    by (rule segment_keeps_pipeline [OF supi bk bn pipe [OF i] seg])
  have others: "in_pipeline cfg (ws ! j) m n k a b lda ldb alpha (?ths ! j) shm'"
    if j: "j < length ws" and ne: "j \<noteq> i" for j
  proof -
    from apart i j ne have dis: "(slotA cfg (ws ! i) \<union> slotB cfg (ws ! i))
                    \<inter> (slotA cfg (ws ! j) \<union> slotB cfg (ws ! j)) = {}"
      by blast
    have "\<forall>p\<in>slotA cfg (ws ! j) \<union> slotB cfg (ws ! j). shm' p = wg_lds st p"
    proof
      fix p assume "p \<in> slotA cfg (ws ! j) \<union> slotB cfg (ws ! j)"
      with dis have "p \<notin> slotA cfg (ws ! i) \<union> slotB cfg (ws ! i)" by blast
      then show "shm' p = wg_lds st p" by (rule segment_lds_frame [OF seg])
    qed
    then show ?thesis using pipe [OF j] by (simp only: in_pipeline_cong)
  qed
  have pipe': "in_pipeline cfg (ws ! j) m n k a b lda ldb alpha (?ths[i := th'] ! j) shm'"
    if j: "j < length ws" for j
  proof (cases "j = i")
    case True
    with own i len show ?thesis by simp
  next
    case False
    with others [OF j] show ?thesis by simp
  qed
  have dinv': "if (\<exists>j<length ws. ?ths[i := th'] ! j = Finished \<and> eligible cfg (ws ! j) m n k
                          \<and> p \<in> tile_of cfg ldd (ws ! j))
               then (\<exists>r<m. \<exists>j<n. p = dataOffset (LayoutD cfg) ldd (r, j) \<and> d' p = ?G r j)
               else d' p = d0 p" for p
  proof (cases "?ths ! i \<noteq> Finished \<and> th' = Finished \<and> eligible cfg (ws ! i) m n k")
    case False
    have same_d: "d' = wg_d st"
    proof (cases "th' = Finished")
      case False
      then show ?thesis by (rule segment_d_unfinished(1) [OF seg])
    next
      case fin: True
      show ?thesis
      proof (cases "?ths ! i = Finished")
        case True
        with seg show ?thesis by simp
      next
        case nf: False
        with fin False have "\<not> eligible cfg (ws ! i) m n k" by simp
        then show ?thesis by (rule segment_d_idle [OF seg pipe [OF i]])
      qed
    qed
    have same_set: "(?ths[i := th'] ! j = Finished \<and> eligible cfg (ws ! j) m n k)
        = (?ths ! j = Finished \<and> eligible cfg (ws ! j) m n k)" if j: "j < length ws" for j
    proof (cases "j = i")
      case ne: False
      then show ?thesis by simp
    next
      case True
      show ?thesis
      proof (cases "th' = Finished")
        case nf: False
        from segment_d_unfinished(2) [OF seg nf] nf True i len show ?thesis by simp
      next
        case fin: True
        show ?thesis
        proof (cases "?ths ! i = Finished")
          case True
          with fin \<open>j = i\<close> i len show ?thesis by simp
        next
          case nf: False
          with fin False have "\<not> eligible cfg (ws ! i) m n k" by simp
          with \<open>j = i\<close> show ?thesis by simp
        qed
      qed
    qed
    have "(\<exists>j<length ws. ?ths[i := th'] ! j = Finished \<and> eligible cfg (ws ! j) m n k
                          \<and> p \<in> tile_of cfg ldd (ws ! j))
        = (\<exists>j<length ws. ?ths ! j = Finished \<and> eligible cfg (ws ! j) m n k
                          \<and> p \<in> tile_of cfg ldd (ws ! j))"
      using same_set by blast
    with dinv [of p] show ?thesis unfolding same_d by simp
  next
    case True
    then have nf: "?ths ! i \<noteq> Finished" and fin: "th' = Finished"
      and el: "eligible cfg (ws ! i) m n k" by simp_all
    have d': "d' = epilogue cfg c (wg_d st) ldc ldd alpha beta
                (matrixCoord (BlockM cfg) (BlockN cfg) (blockCoord (ws ! i)))
                (final_acc cfg (ws ! i) k a b lda ldb alpha)"
      by (rule segment_d_finishing [OF supi bk bn stride pipe [OF i] seg nf fin el])
    show ?thesis
    proof (cases "p \<in> tile_of cfg ldd (ws ! i)")
      case inside: True
      from finish_writes_tile(1) [OF supi ib el inside, where a = a and b = b and c = c and d = "wg_d st" and ldb = ldb and ldc = ldc
          and alpha = alpha and beta = beta]
      have "\<exists>r<m. \<exists>j<n. p = dataOffset (LayoutD cfg) ldd (r, j) \<and> d' p = ?G r j"
        unfolding d' .
      moreover have "\<exists>j<length ws. ?ths[i := th'] ! j = Finished \<and> eligible cfg (ws ! j) m n k
                          \<and> p \<in> tile_of cfg ldd (ws ! j)"
        using i len fin el inside by (intro exI [of _ i]) simp
      ultimately show ?thesis by simp
    next
      case outside: False
      from finish_writes_tile(2) [OF supi ib el outside, where a = a and b = b and c = c and d = "wg_d st" and ldb = ldb and ldc = ldc
          and alpha = alpha and beta = beta]
      have same: "d' p = wg_d st p" unfolding d' .
      have "(?ths[i := th'] ! j = Finished \<and> eligible cfg (ws ! j) m n k
                \<and> p \<in> tile_of cfg ldd (ws ! j))
          = (?ths ! j = Finished \<and> eligible cfg (ws ! j) m n k
                \<and> p \<in> tile_of cfg ldd (ws ! j))" if j: "j < length ws" for j
        using outside by (cases "j = i") simp_all
      then have "(\<exists>j<length ws. ?ths[i := th'] ! j = Finished \<and> eligible cfg (ws ! j) m n k
                          \<and> p \<in> tile_of cfg ldd (ws ! j))
        = (\<exists>j<length ws. ?ths ! j = Finished \<and> eligible cfg (ws ! j) m n k
                          \<and> p \<in> tile_of cfg ldd (ws ! j))"
        by blast
      with dinv [of p] show ?thesis unfolding same by simp
    qed
  qed
  show ?thesis
    unfolding step coherent_def using len pipe' dinv' by simp
qed

lemma coherent_fold:
  assumes sup: "\<forall>w\<in>set ws. supported cfg w"
    and apart: "\<forall>i<length ws. \<forall>j<length ws. i \<noteq> j \<longrightarrow>
                  (slotA cfg (ws ! i) \<union> slotB cfg (ws ! i))
                    \<inter> (slotA cfg (ws ! j) \<union> slotB cfg (ws ! j)) = {}"
    and ib: "in_bounds_problem cfg m n k lda ldd"
  shows "coherent cfg m n k a b c lda ldb ldc ldd alpha beta ws d0 st \<Longrightarrow>
         coherent cfg m n k a b c lda ldb ldc ldd alpha beta ws d0
           (fold (wg_step sync cfg m n k a b c lda ldb ldc ldd alpha beta ws) sched st)"
proof (induction sched arbitrary: st)
  case Nil
  then show ?case by simp
next
  case (Cons i sched)
  from coherent_step [OF sup apart ib Cons.prems]
  have "coherent cfg m n k a b c lda ldb ldc ldd alpha beta ws d0
          (wg_step sync cfg m n k a b c lda ldb ldc ldd alpha beta ws i st)" .
  from Cons.IH [OF this] show ?case by simp
qed

lemma coherent_run_schedule:
  assumes "\<forall>w\<in>set ws. supported cfg w"
    and "\<forall>i<length ws. \<forall>j<length ws. i \<noteq> j \<longrightarrow>
                  (slotA cfg (ws ! i) \<union> slotB cfg (ws ! i))
                    \<inter> (slotA cfg (ws ! j) \<union> slotB cfg (ws ! j)) = {}"
    and "in_bounds_problem cfg m n k lda ldd"
  shows "coherent cfg m n k a b c lda ldb ldc ldd alpha beta ws d
           (run_schedule sync cfg m n k a b c lda ldb ldc ldd alpha beta ws sched shm d)"
  unfolding run_schedule_def
  by (rule coherent_fold [OF assms coherent_initial])

text \<open>Two coherent workgroups whose threads have all finished hold the same D.\<close>

lemma coherent_finished_unique:
  assumes ld: "ld_ok (LayoutD cfg) m n ldd"
    and c1: "coherent cfg m n k a b c lda ldb ldc ldd alpha beta ws d0 st1"
    and c2: "coherent cfg m n k a b c lda ldb ldc ldd alpha beta ws d0 st2"
    and f1: "all_finished st1" and f2: "all_finished st2"
  shows "wg_d st1 = wg_d st2"
proof
  fix p
  let ?G = "gemm_elem cfg a b c lda ldb ldc alpha beta k"
  let ?done = "\<lambda>st. \<exists>i<length ws. wg_threads st ! i = Finished \<and> eligible cfg (ws ! i) m n k
                        \<and> p \<in> tile_of cfg ldd (ws ! i)"
  from c1 have l1: "length (wg_threads st1) = length ws"
    and d1: "if ?done st1
             then (\<exists>r<m. \<exists>j<n. p = dataOffset (LayoutD cfg) ldd (r, j) \<and> wg_d st1 p = ?G r j)
             else wg_d st1 p = d0 p"
    unfolding coherent_def by blast+
  from c2 have l2: "length (wg_threads st2) = length ws"
    and d2: "if ?done st2
             then (\<exists>r<m. \<exists>j<n. p = dataOffset (LayoutD cfg) ldd (r, j) \<and> wg_d st2 p = ?G r j)
             else wg_d st2 p = d0 p"
    unfolding coherent_def by blast+
  have a1: "wg_threads st1 ! i = Finished" if "i < length ws" for i
    using f1 that l1 by (simp add: all_finished_def list_all_length)
  have a2: "wg_threads st2 ! i = Finished" if "i < length ws" for i
    using f2 that l2 by (simp add: all_finished_def list_all_length)
  have same: "?done st1 = ?done st2" using a1 a2 by auto
  show "wg_d st1 p = wg_d st2 p"
  proof (cases "?done st1")
    case False
    with same d1 d2 show ?thesis by simp
  next
    case True
    with d1 obtain r j where r: "r < m" "j < n" "p = dataOffset (LayoutD cfg) ldd (r, j)"
      and v1: "wg_d st1 p = ?G r j" by auto
    from True same d2 obtain r' j' where r': "r' < m" "j' < n"
      "p = dataOffset (LayoutD cfg) ldd (r', j')"
      and v2: "wg_d st2 p = ?G r' j'" by auto
    from r(3) r'(3) have "dataOffset (LayoutD cfg) ldd (r, j) = dataOffset (LayoutD cfg) ldd (r', j')"
      by simp
    from dataOffset_inj [OF ld r(1,2) r'(1,2) this] have "r = r'" "j = j'" by simp_all
    with v1 v2 show ?thesis by simp
  qed
qed

text \<open>The waves of one workgroup have pairwise different wave coordinates, hence pairwise
  disjoint slots.\<close>

lemma workgroup_waves_coords:
  "map waveCoord (workgroup_waves wgDim bid) = List.product [0..<fst wgDim] [0..<snd wgDim]"
proof -
  have "map waveCoord (workgroup_waves wgDim bid)
      = concat (map (\<lambda>wx. map (\<lambda>wy. (wx, wy)) [0..<snd wgDim]) [0..<fst wgDim])"
    unfolding workgroup_waves_def by (simp add: map_concat comp_def)
  also have "\<dots> = List.product [0..<fst wgDim] [0..<snd wgDim]"
    by (simp add: product_concat_map)
  finally show ?thesis .
qed

lemma workgroup_waves_dim:
  "w \<in> set (workgroup_waves wgDim bid) \<Longrightarrow> workgroupDim w = wgDim"
  by (auto simp: workgroup_waves_def)

lemma workgroup_waves_apart:
  assumes sa: "static_asserts cfg = None" and w64: "AMDGCN_WAVE_SIZE cfg = 64"
  shows "\<forall>i<length (workgroup_waves wgDim bid). \<forall>j<length (workgroup_waves wgDim bid).
           i \<noteq> j \<longrightarrow>
             (slotA cfg (workgroup_waves wgDim bid ! i) \<union> slotB cfg (workgroup_waves wgDim bid ! i))
               \<inter> (slotA cfg (workgroup_waves wgDim bid ! j)
                    \<union> slotB cfg (workgroup_waves wgDim bid ! j)) = {}"
proof (intro allI impI)
  fix i j
  let ?ws = "workgroup_waves wgDim bid"
  assume i: "i < length ?ws" and j: "j < length ?ws" and ne: "i \<noteq> j"
  have "distinct (map waveCoord ?ws)"
    unfolding workgroup_waves_coords by (simp add: distinct_product)
  with i j ne have "map waveCoord ?ws ! i \<noteq> map waveCoord ?ws ! j"
    by (simp add: nth_eq_iff_index_eq del: nth_map)
  with i j have coords: "waveCoord (?ws ! i) \<noteq> waveCoord (?ws ! j)" by simp
  from i j have mem: "?ws ! i \<in> set ?ws" "?ws ! j \<in> set ?ws" by simp_all
  from workgroup_waves_supported [OF sa w64] mem
  have sup: "supported cfg (?ws ! i)" "supported cfg (?ws ! j)" by blast+
  have "workgroupDim (?ws ! i) = workgroupDim (?ws ! j)"
    using mem by (simp add: workgroup_waves_dim)
  from slots_of_distinct_waves [OF sup this coords]
  show "(slotA cfg (?ws ! i) \<union> slotB cfg (?ws ! i))
          \<inter> (slotA cfg (?ws ! j) \<union> slotB cfg (?ws ! j)) = {}" .
qed

lemma schedules_agree:
  assumes sa: "static_asserts cfg = None" and w64: "AMDGCN_WAVE_SIZE cfg = 64"
    and ib: "in_bounds_problem cfg m n k lda ldd"
    and f1: "all_finished (run_schedule sync cfg m n k a b c lda ldb ldc ldd alpha beta
                             (workgroup_waves wgDim bid) sched shm d)"
    and f2: "all_finished (run_schedule sync' cfg m n k a b c lda ldb ldc ldd alpha beta
                             (workgroup_waves wgDim bid) sched' shm' d)"
  shows "wg_d (run_schedule sync cfg m n k a b c lda ldb ldc ldd alpha beta
                 (workgroup_waves wgDim bid) sched shm d)
       = wg_d (run_schedule sync' cfg m n k a b c lda ldb ldc ldd alpha beta
                 (workgroup_waves wgDim bid) sched' shm' d)"
proof -
  note sup = workgroup_waves_supported [OF sa w64, of wgDim bid]
  note apart = workgroup_waves_apart [OF sa w64, of wgDim bid]
  from ib have ld: "ld_ok (LayoutD cfg) m n ldd" by (simp add: in_bounds_problem_def)
  show ?thesis
    by (rule coherent_finished_unique [OF ld coherent_run_schedule [OF sup apart ib]
          coherent_run_schedule [OF sup apart ib] f1 f2])
qed

text \<open>The sequential run of the waves, as the launch makes it, leaves the same D: the GEMM
  value in the tile of every eligible wave and the initial contents elsewhere.\<close>

lemma run_waves_tiles:
  assumes ib: "in_bounds_problem cfg m n k lda ldd"
  shows "\<forall>w\<in>set ws. supported cfg w \<Longrightarrow>
         \<exists>shm' d'. run_waves cfg m n k a b c lda ldb ldc ldd alpha beta ws shm d = Some (shm', d')
           \<and> (\<forall>p. if (\<exists>w\<in>set ws. eligible cfg w m n k \<and> p \<in> tile_of cfg ldd w)
                   then (\<exists>r<m. \<exists>j<n. p = dataOffset (LayoutD cfg) ldd (r, j)
                           \<and> d' p = gemm_elem cfg a b c lda ldb ldc alpha beta k r j)
                   else d' p = d p)"
proof (induction ws arbitrary: shm d)
  case Nil
  then show ?case by simp
next
  case (Cons w ws)
  let ?G = "gemm_elem cfg a b c lda ldb ldc alpha beta k"
  let ?mc = "matrixCoord (BlockM cfg) (BlockN cfg) (blockCoord w)"
  from Cons.prems have sup: "supported cfg w" and sups: "\<forall>w\<in>set ws. supported cfg w"
    by simp_all
  from ib have bn: "0 < BlockN cfg" and bk: "0 < BlockK cfg"
    and st: "LayoutA cfg = col_major \<longrightarrow> 0 < lda"
    by (simp_all add: in_bounds_problem_def)
  have stride: "alpha \<noteq> 0 \<longrightarrow> 0 < incrA cfg lda"
    using bk st by (simp add: incrA_pos_iff)
  have "\<exists>r. mmaSyncLds cfg w m n k a b c d lda ldb ldc ldd alpha beta shm = Some r
          \<and> (\<forall>p. if eligible cfg w m n k \<and> p \<in> tile_of cfg ldd w
                  then (\<exists>i<m. \<exists>j<n. p = dataOffset (LayoutD cfg) ldd (i, j) \<and> out_d r p = ?G i j)
                  else out_d r p = d p)"
  proof (cases "eligible cfg w m n k")
    case False
    then show ?thesis unfolding mmaSyncLds_idle [OF False] by simp
  next
    case True
    from wave_accumulator [OF sup True bk bn stride, where a = a and b = b and c = c and d = d
        and ldb = ldb and ldc = ldc and ldd = ldd and beta = beta and shm = shm]
    obtain r where r: "mmaSyncLds cfg w m n k a b c d lda ldb ldc ldd alpha beta shm = Some r"
      and acc: "out_acc r = final_acc cfg w k a b lda ldb alpha"
      and d: "out_d r = epilogue cfg c d ldc ldd alpha beta ?mc (out_acc r)"
      unfolding final_acc_def by blast
    from d have E: "out_d r
        = epilogue cfg c d ldc ldd alpha beta ?mc (final_acc cfg w k a b lda ldb alpha)"
      unfolding acc .
    have "if eligible cfg w m n k \<and> p \<in> tile_of cfg ldd w
          then (\<exists>i<m. \<exists>j<n. p = dataOffset (LayoutD cfg) ldd (i, j) \<and> out_d r p = ?G i j)
          else out_d r p = d p" for p
      using finish_writes_tile [OF sup ib True, where p = p and a = a and b = b and c = c
          and d = d and ldb = ldb and ldc = ldc and alpha = alpha and beta = beta] True
      unfolding E by simp
    with r show ?thesis by blast
  qed
  then obtain r where r: "mmaSyncLds cfg w m n k a b c d lda ldb ldc ldd alpha beta shm = Some r"
    and own: "\<And>p. if eligible cfg w m n k \<and> p \<in> tile_of cfg ldd w
                  then (\<exists>i<m. \<exists>j<n. p = dataOffset (LayoutD cfg) ldd (i, j) \<and> out_d r p = ?G i j)
                  else out_d r p = d p"
    by blast
  from Cons.IH [OF sups, of "out_lds r" "out_d r"]
  obtain shm' d' where run: "run_waves cfg m n k a b c lda ldb ldc ldd alpha beta ws
                               (out_lds r) (out_d r) = Some (shm', d')"
    and rest: "\<And>p. if (\<exists>w\<in>set ws. eligible cfg w m n k \<and> p \<in> tile_of cfg ldd w)
                   then (\<exists>r<m. \<exists>j<n. p = dataOffset (LayoutD cfg) ldd (r, j) \<and> d' p = ?G r j)
                   else d' p = out_d r p"
    by blast
  have "if (\<exists>w\<in>set (w # ws). eligible cfg w m n k \<and> p \<in> tile_of cfg ldd w)
        then (\<exists>r<m. \<exists>j<n. p = dataOffset (LayoutD cfg) ldd (r, j) \<and> d' p = ?G r j)
        else d' p = d p" for p
  proof (cases "\<exists>w\<in>set ws. eligible cfg w m n k \<and> p \<in> tile_of cfg ldd w")
    case True
    with rest [of p] show ?thesis by auto
  next
    case False
    with rest [of p] have "d' p = out_d r p" by simp
    with own [of p] False show ?thesis by auto
  qed
  with r run show ?case by simp
qed

text \<open>Every schedule that lets all waves finish, with the barrier or without it, ends with
  the D of the sequential run.\<close>

lemma schedule_is_sequential:
  assumes sa: "static_asserts cfg = None" and w64: "AMDGCN_WAVE_SIZE cfg = 64"
    and ib: "in_bounds_problem cfg m n k lda ldd"
    and fin: "all_finished (run_schedule sync cfg m n k a b c lda ldb ldc ldd alpha beta
                             (workgroup_waves wgDim bid) sched shm d)"
  shows "\<exists>shm''. run_waves cfg m n k a b c lda ldb ldc ldd alpha beta
                    (workgroup_waves wgDim bid) shm' d
                 = Some (shm'', wg_d (run_schedule sync cfg m n k a b c lda ldb ldc ldd alpha beta
                                        (workgroup_waves wgDim bid) sched shm d))"
proof -
  let ?ws = "workgroup_waves wgDim bid"
  let ?st = "run_schedule sync cfg m n k a b c lda ldb ldc ldd alpha beta ?ws sched shm d"
  let ?G = "gemm_elem cfg a b c lda ldb ldc alpha beta k"
  note sup = workgroup_waves_supported [OF sa w64, of wgDim bid]
  note apart = workgroup_waves_apart [OF sa w64, of wgDim bid]
  from ib have ld: "ld_ok (LayoutD cfg) m n ldd" by (simp add: in_bounds_problem_def)
  from run_waves_tiles [OF ib sup, of a b c ldb ldc alpha beta shm' d]
  obtain shm'' d' where run: "run_waves cfg m n k a b c lda ldb ldc ldd alpha beta ?ws shm' d
                                = Some (shm'', d')"
    and seq: "\<And>p. if (\<exists>w\<in>set ?ws. eligible cfg w m n k \<and> p \<in> tile_of cfg ldd w)
                   then (\<exists>r<m. \<exists>j<n. p = dataOffset (LayoutD cfg) ldd (r, j) \<and> d' p = ?G r j)
                   else d' p = d p"
    by blast
  have coh: "coherent cfg m n k a b c lda ldb ldc ldd alpha beta ?ws d ?st"
    by (rule coherent_run_schedule [OF sup apart ib])
  then have len: "length (wg_threads ?st) = length ?ws"
    and par: "\<And>p. if (\<exists>i<length ?ws. wg_threads ?st ! i = Finished \<and> eligible cfg (?ws ! i) m n k
                          \<and> p \<in> tile_of cfg ldd (?ws ! i))
                   then (\<exists>r<m. \<exists>j<n. p = dataOffset (LayoutD cfg) ldd (r, j)
                           \<and> wg_d ?st p = ?G r j)
                   else wg_d ?st p = d p"
    unfolding coherent_def by blast+
  have all: "wg_threads ?st ! i = Finished" if "i < length ?ws" for i
    using fin that len by (simp add: all_finished_def list_all_length)
  have same: "(\<exists>i<length ?ws. wg_threads ?st ! i = Finished \<and> eligible cfg (?ws ! i) m n k
                          \<and> p \<in> tile_of cfg ldd (?ws ! i))
            = (\<exists>w\<in>set ?ws. eligible cfg w m n k \<and> p \<in> tile_of cfg ldd w)" for p
  proof
    assume "\<exists>i<length ?ws. wg_threads ?st ! i = Finished \<and> eligible cfg (?ws ! i) m n k
                          \<and> p \<in> tile_of cfg ldd (?ws ! i)"
    then obtain i where "i < length ?ws" "eligible cfg (?ws ! i) m n k"
      "p \<in> tile_of cfg ldd (?ws ! i)" by blast
    then show "\<exists>w\<in>set ?ws. eligible cfg w m n k \<and> p \<in> tile_of cfg ldd w"
      by (intro bexI [of _ "?ws ! i"]) simp_all
  next
    assume "\<exists>w\<in>set ?ws. eligible cfg w m n k \<and> p \<in> tile_of cfg ldd w"
    then obtain w where w: "w \<in> set ?ws" "eligible cfg w m n k" "p \<in> tile_of cfg ldd w"
      by blast
    from w(1) obtain i where i: "i < length ?ws" "?ws ! i = w"
      unfolding in_set_conv_nth by blast
    with w all [OF i(1)]
    show "\<exists>i<length ?ws. wg_threads ?st ! i = Finished \<and> eligible cfg (?ws ! i) m n k
                          \<and> p \<in> tile_of cfg ldd (?ws ! i)"
      by (intro exI [of _ i]) simp
  qed
  have "wg_d ?st p = d' p" for p
  proof (cases "\<exists>w\<in>set ?ws. eligible cfg w m n k \<and> p \<in> tile_of cfg ldd w")
    case False
    with seq [of p] par [of p] same [of p] show ?thesis by simp
  next
    case True
    with seq [of p] obtain r j where r: "r < m" "j < n" "p = dataOffset (LayoutD cfg) ldd (r, j)"
      and v1: "d' p = ?G r j" by auto
    from True par [of p] same [of p] obtain r' j' where r': "r' < m" "j' < n"
      "p = dataOffset (LayoutD cfg) ldd (r', j')"
      and v2: "wg_d ?st p = ?G r' j'" by auto
    from r(3) r'(3) have "dataOffset (LayoutD cfg) ldd (r, j) = dataOffset (LayoutD cfg) ldd (r', j')"
      by simp
    from dataOffset_inj [OF ld r(1,2) r'(1,2) this] have "r = r'" "j = j'" by simp_all
    with v1 v2 show ?thesis by simp
  qed
  then have "wg_d ?st = d'" by (rule ext)
  with run show ?thesis by simp
qed

lemma segment_level:
  assumes "wave_segment cfg w m n k a b c lda ldb ldc ldd alpha beta th shm d = (th', shm', d')"
    and "at_level r th"
  shows "at_level (Suc r) th'"
  using assms
  by (cases th) (auto simp: segment_ready segment_at_loop split: if_splits)

text \<open>In a round every wave finds the barrier open: the waves before it are one iteration
  ahead, the others have run as many iterations as it has.\<close>

lemma round_passes_barrier:
  assumes r: "in_round r i ths" and i: "i < length ths"
  shows "may_pass cfg lda k w ths (ths ! i)"
proof (cases "ths ! i")
  case (AtLoop s)
  from r i AtLoop have lvl: "r = Suc (iterations s)"
    unfolding in_round_def by (auto dest!: spec [of _ i])
  have "arrived (iterations s) (ths ! j)" if j: "j < length ths" for j
  proof -
    from r j have "at_level (if j < i then Suc r else r) (ths ! j)"
      unfolding in_round_def by blast
    with lvl show ?thesis by (cases "ths ! j") (auto split: if_splits)
  qed
  then have "list_all (arrived (iterations s)) ths" by (simp add: list_all_length)
  with AtLoop show ?thesis by simp
qed simp_all

lemma round_step:
  assumes r: "in_round r i (wg_threads st)" and i: "i < length ws"
    and len: "length (wg_threads st) = length ws"
  shows "in_round r (Suc i)
           (wg_threads (wg_step sync cfg m n k a b c lda ldb ldc ldd alpha beta ws i st))"
proof -
  let ?ths = "wg_threads st"
  from i len have i': "i < length ?ths" by simp
  have pass: "may_pass cfg lda k (ws ! i) ?ths (?ths ! i)"
    by (rule round_passes_barrier [OF r i'])
  obtain th' shm' d' where
    seg: "wave_segment cfg (ws ! i) m n k a b c lda ldb ldc ldd alpha beta
            (?ths ! i) (wg_lds st) (wg_d st) = (th', shm', d')"
    by (rule prod_cases3)
  have step: "wg_threads (wg_step sync cfg m n k a b c lda ldb ldc ldd alpha beta ws i st)
      = ?ths[i := th']"
    unfolding wg_step_def using i i' pass seg by simp
  from r i' have "at_level r (?ths ! i)" unfolding in_round_def by (auto dest!: spec [of _ i])
  from segment_level [OF seg this] have own: "at_level (Suc r) th'" .
  show ?thesis
    unfolding step in_round_def
  proof (intro allI impI)
    fix j assume j: "j < length (?ths[i := th'])"
    show "at_level (if j < Suc i then Suc r else r) (?ths[i := th'] ! j)"
    proof (cases "j = i")
      case True
      with own i' show ?thesis by simp
    next
      case False
      from r j have "at_level (if j < i then Suc r else r) (?ths ! j)"
        unfolding in_round_def by simp
      moreover from False have "(j < Suc i) = (j < i)" by auto
      ultimately show ?thesis using False by simp
    qed
  qed
qed

lemma wg_step_length:
  "length (wg_threads (wg_step sync cfg m n k a b c lda ldb ldc ldd alpha beta ws i st))
     = length (wg_threads st)"
  by (simp add: wg_step_def split: prod.splits)

lemma round_rest:
  "i \<le> length ws \<Longrightarrow> in_round r i (wg_threads st) \<Longrightarrow> length (wg_threads st) = length ws \<Longrightarrow>
         in_round r (length ws)
           (wg_threads (fold (wg_step sync cfg m n k a b c lda ldb ldc ldd alpha beta ws)
                          [i..<length ws] st))
         \<and> length (wg_threads (fold (wg_step sync cfg m n k a b c lda ldb ldc ldd alpha beta ws)
                          [i..<length ws] st)) = length ws"
proof (induction "length ws - i" arbitrary: i st)
  case 0
  then show ?case by simp
next
  case (Suc x)
  then have i: "i < length ws" by simp
  then have upt: "[i..<length ws] = i # [Suc i..<length ws]" by (rule upt_conv_Cons)
  let ?st = "wg_step sync cfg m n k a b c lda ldb ldc ldd alpha beta ws i st"
  have 1: "in_round r (Suc i) (wg_threads ?st)"
    by (rule round_step [OF Suc.prems(2) i Suc.prems(3)])
  have 2: "length (wg_threads ?st) = length ws"
    using Suc.prems(3) by (simp add: wg_step_length)
  from Suc.hyps(2) have 3: "x = length ws - Suc i" by simp
  from i have 4: "Suc i \<le> length ws" by simp
  from Suc.hyps(1) [OF 3 4 1 2] show ?case unfolding upt by simp
qed

lemma round_complete:
  assumes "in_round r 0 (wg_threads st)" and "length (wg_threads st) = length ws"
  shows "in_round (Suc r) 0
           (wg_threads (fold (wg_step sync cfg m n k a b c lda ldb ldc ldd alpha beta ws)
                          [0..<length ws] st))"
    and "length (wg_threads (fold (wg_step sync cfg m n k a b c lda ldb ldc ldd alpha beta ws)
                          [0..<length ws] st)) = length ws"
proof -
  let ?st = "fold (wg_step sync cfg m n k a b c lda ldb ldc ldd alpha beta ws) [0..<length ws] st"
  from round_rest [OF le0 assms(1) assms(2), where sync = sync and cfg = cfg and m = m and n = n
      and k = k and a = a and b = b and c = c and lda = lda and ldb = ldb and ldc = ldc
      and ldd = ldd and alpha = alpha and beta = beta]
  have r: "in_round r (length ws) (wg_threads ?st)" and l: "length (wg_threads ?st) = length ws"
    by simp_all
  from r l show "in_round (Suc r) 0 (wg_threads ?st)" by (simp add: in_round_def)
  from l show "length (wg_threads ?st) = length ws" .
qed

lemma rounds_complete:
  "in_round r 0 (wg_threads st) \<Longrightarrow> length (wg_threads st) = length ws \<Longrightarrow>
   in_round (r + rounds) 0
     (wg_threads (fold (wg_step sync cfg m n k a b c lda ldb ldc ldd alpha beta ws)
                    (round_robin (length ws) rounds) st))"
proof (induction rounds arbitrary: r st)
  case 0
  then show ?case by (simp add: round_robin_def)
next
  case (Suc rounds)
  let ?st = "fold (wg_step sync cfg m n k a b c lda ldb ldc ldd alpha beta ws) [0..<length ws] st"
  from Suc.IH [OF round_complete [OF Suc.prems]]
  show ?case by (simp add: round_robin_def)
qed

text \<open>With or without the barrier, k div BlockK + 1 rounds let every wave finish.\<close>

lemma round_robin_finishes:
  assumes sa: "static_asserts cfg = None" and w64: "AMDGCN_WAVE_SIZE cfg = 64"
    and ib: "in_bounds_problem cfg m n k lda ldd"
  shows "all_finished
           (run_schedule sync cfg m n k a b c lda ldb ldc ldd alpha beta
              (workgroup_waves wgDim bid)
              (round_robin (length (workgroup_waves wgDim bid)) (k div BlockK cfg + 1)) shm d)"
proof -
  let ?ws = "workgroup_waves wgDim bid"
  let ?st = "run_schedule sync cfg m n k a b c lda ldb ldc ldd alpha beta ?ws
               (round_robin (length ?ws) (k div BlockK cfg + 1)) shm d"
  note sup = workgroup_waves_supported [OF sa w64, of wgDim bid]
  note apart = workgroup_waves_apart [OF sa w64, of wgDim bid]
  have coh: "coherent cfg m n k a b c lda ldb ldc ldd alpha beta ?ws d ?st"
    by (rule coherent_run_schedule [OF sup apart ib])
  then have len: "length (wg_threads ?st) = length ?ws"
    and pipe: "\<And>j. j < length ?ws \<Longrightarrow>
                 in_pipeline cfg (?ws ! j) m n k a b lda ldb alpha (wg_threads ?st ! j) (wg_lds ?st)"
    unfolding coherent_def by blast+
  have "in_round (0 + (k div BlockK cfg + 1)) 0 (wg_threads ?st)"
    unfolding run_schedule_def
    by (rule rounds_complete) (simp_all add: in_round_def)
  then have lvl: "at_level (Suc (k div BlockK cfg)) (wg_threads ?st ! j)" if "j < length ?ws" for j
    using that len by (simp add: in_round_def)
  have "wg_threads ?st ! j = Finished" if j: "j < length ?ws" for j
  proof (cases "wg_threads ?st ! j")
    case Ready
    with lvl [OF j] show ?thesis by simp
  next
    case (AtLoop s)
    with lvl [OF j] have "iterations s = k div BlockK cfg" by simp
    moreover from pipe [OF j] AtLoop have "Suc (iterations s) \<le> k div BlockK cfg"
      by (auto simp: in_pipeline_def)
    ultimately show ?thesis by simp
  qed
  with len show ?thesis by (simp add: all_finished_def list_all_length)
qed

text \<open>
  The barrier is not idle in this model: on the two-wave workgroup of the 8x8x8 kernel
  with K = 16 it holds wave 0 at the loop head until wave 1 has arrived. A schedule that
  runs wave 0 to its end before wave 1 starts completes without the barrier and leaves
  wave 0 waiting with it.
\<close>

lemma two_waves:
  "workgroup_waves (2, 1) (0, 0)
     = [\<lparr>blockIdx = (0, 0), waveCoord = (0, 0), workgroupDim = (2, 1)\<rparr>,
        \<lparr>blockIdx = (0, 0), waveCoord = (1, 0), workgroupDim = (2, 1)\<rparr>]"
  by (simp add: workgroup_waves_def upt_rec numeral_2_eq_2)

lemma barrier_holds_waves_back:
  "\<not> all_finished (run_schedule True cfg_8x8x8 16 8 16 (\<lambda>p. int p) (\<lambda>p. 2) (\<lambda>p. 1)
                       16 8 8 8 (3::int) 5 (workgroup_waves (2, 1) (0, 0))
                       [0, 0, 0, 1, 1, 1] (\<lambda>p. 0) (\<lambda>p. 0))"
  unfolding two_waves
  by (simp add: run_schedule_def wg_step_def segment_ready segment_at_loop eligible_def
        all_finished_def cfg_8x8x8_def matrixCoord_def blockCoord_def endA_def incrA_def
        dataCoord_def Let_def)

text \<open>
  Claim C5. Replacing the workgroup barrier at the top of the steady-state loop with a
  no-op leaves D unchanged. For a configuration that passes the static assertions on a
  64-wide wave and a problem made of whole tiles: whenever a schedule of the workgroup's
  waves lets all of them finish with the barrier in place, and a schedule, the same or
  any other, lets all of them finish with the barrier removed, both runs end with the
  same D at every address, whatever the staging buffer held at the start of either run.
\<close>

theorem barrier_is_redundant:
  assumes "static_asserts cfg = None" and "AMDGCN_WAVE_SIZE cfg = 64"
    and "in_bounds_problem cfg m n k lda ldd"
    and "all_finished (run_schedule True cfg m n k a b c lda ldb ldc ldd alpha beta
                         (workgroup_waves wgDim bid) sched shm d)"
    and "all_finished (run_schedule False cfg m n k a b c lda ldb ldc ldd alpha beta
                         (workgroup_waves wgDim bid) sched' shm' d)"
  shows "wg_d (run_schedule True cfg m n k a b c lda ldb ldc ldd alpha beta
                 (workgroup_waves wgDim bid) sched shm d)
       = wg_d (run_schedule False cfg m n k a b c lda ldb ldc ldd alpha beta
                 (workgroup_waves wgDim bid) sched' shm' d)"
  using assms by (rule schedules_agree)

theorem barrier_is_redundant_witness:
  "all_finished (run_schedule True cfg_8x8x8 16 8 16 (\<lambda>p. int p) (\<lambda>p. 2) (\<lambda>p. 1)
                   16 8 8 8 (3::int) 5 (workgroup_waves (2, 1) (0, 0))
                   [0, 1, 0, 1, 0, 1] (\<lambda>p. 0) (\<lambda>p. 0))
   \<and> all_finished (run_schedule False cfg_8x8x8 16 8 16 (\<lambda>p. int p) (\<lambda>p. 2) (\<lambda>p. 1)
                   16 8 8 8 (3::int) 5 (workgroup_waves (2, 1) (0, 0))
                   [0, 0, 0, 1, 1, 1] (\<lambda>p. 7) (\<lambda>p. 0))
   \<and> wg_d (run_schedule True cfg_8x8x8 16 8 16 (\<lambda>p. int p) (\<lambda>p. 2) (\<lambda>p. 1)
             16 8 8 8 (3::int) 5 (workgroup_waves (2, 1) (0, 0))
             [0, 1, 0, 1, 0, 1] (\<lambda>p. 0) (\<lambda>p. 0))
     = wg_d (run_schedule False cfg_8x8x8 16 8 16 (\<lambda>p. int p) (\<lambda>p. 2) (\<lambda>p. 1)
             16 8 8 8 (3::int) 5 (workgroup_waves (2, 1) (0, 0))
             [0, 0, 0, 1, 1, 1] (\<lambda>p. 7) (\<lambda>p. 0))"
proof -
  have pre: "static_asserts cfg_8x8x8 = None" "AMDGCN_WAVE_SIZE cfg_8x8x8 = 64"
    "in_bounds_problem cfg_8x8x8 16 8 16 16 8"
    by (simp_all add: static_asserts_def in_bounds_problem_def cfg_8x8x8_def)
  have with_barrier:
    "all_finished (run_schedule True cfg_8x8x8 16 8 16 (\<lambda>p. int p) (\<lambda>p. 2) (\<lambda>p. 1)
                     16 8 8 8 (3::int) 5 (workgroup_waves (2, 1) (0, 0))
                     [0, 1, 0, 1, 0, 1] (\<lambda>p. 0) (\<lambda>p. 0))"
    unfolding two_waves
    by (simp add: run_schedule_def wg_step_def segment_ready segment_at_loop eligible_def
          all_finished_def cfg_8x8x8_def matrixCoord_def blockCoord_def endA_def incrA_def
          dataCoord_def Let_def)
  have without_barrier:
    "all_finished (run_schedule False cfg_8x8x8 16 8 16 (\<lambda>p. int p) (\<lambda>p. 2) (\<lambda>p. 1)
                     16 8 8 8 (3::int) 5 (workgroup_waves (2, 1) (0, 0))
                     [0, 0, 0, 1, 1, 1] (\<lambda>p. 7) (\<lambda>p. 0))"
    unfolding two_waves
    by (simp add: run_schedule_def wg_step_def segment_ready segment_at_loop eligible_def
          all_finished_def cfg_8x8x8_def matrixCoord_def blockCoord_def endA_def incrA_def
          dataCoord_def Let_def)
  from barrier_is_redundant [OF pre with_barrier without_barrier]
  show ?thesis using with_barrier without_barrier by simp
qed

end
